(* ===== verification/DDNS_Prelude.thy ===== *)
theory DDNS_Prelude
  imports Main "HOL-Library.Word" "HOL-Library.Char_ord" "HOL-Library.List_Lexorder"
    "HOL-Library.Product_Lexorder" "HOL-Library.Sublist"
begin

text \<open>
  Shared vocabulary of the development: machine integers and Rust's saturating arithmetic on
  them, Rust strings as their UTF-8 bytes with the scanners the program uses (trimming,
  splitting, joining, ASCII case), results as sums, and the iteration of hash maps.

  A Rust \<open>String\<close> is the list of its UTF-8 bytes, so \<open>length\<close> is \<open>str::len\<close>. A \<open>DashMap\<close> or a
  \<open>HashMap\<close> is a map \<open>'k \<rightharpoonup> 'v\<close>; its iteration order is unspecified, so every operation that
  iterates takes the sequence it saw as an argument, related to the map by \<open>snapshot_of\<close>.
\<close>

named_theorems ddns_defs \<open>definitions of small operations, unfolded by the component proofs\<close>

type_synonym u8 = "8 word"
type_synonym u16 = "16 word"
type_synonym u32 = "32 word"
type_synonym u64 = "64 word"
type_synonym u128 = "128 word"
type_synonym bytes = "u8 list"
type_synonym ('e, 'a) result = "'e + 'a"

section \<open>Saturating arithmetic\<close>

definition saturating_sub :: "'a::len word \<Rightarrow> 'a word \<Rightarrow> 'a word" where
  "saturating_sub a b = (if a < b then 0 else a - b)"

definition saturating_add :: "'a::len word \<Rightarrow> 'a word \<Rightarrow> 'a word" where
  "saturating_add a b = (if unat a + unat b < 2 ^ LENGTH('a) then a + b else - 1)"

lemma unat_saturating_sub [simp]: "unat (saturating_sub a b) = unat a - unat b"
proof (cases "a < b")
  case True
  then have "unat a < unat b" by (simp add: word_less_nat_alt)
  with True show ?thesis by (simp add: saturating_sub_def)
next
  case False
  then show ?thesis by (simp add: saturating_sub_def unat_sub word_less_nat_alt word_le_nat_alt)
qed

lemma unat_saturating_add:
  "unat (saturating_add a b) = min (unat a + unat b) (2 ^ LENGTH('a) - 1)" for a b :: "'a::len word"
proof (cases "unat a + unat b < 2 ^ LENGTH('a)")
  case True
  then show ?thesis by (simp add: saturating_add_def unat_word_ariths)
next
  case False
  have "unat (- 1 :: 'a word) = 2 ^ LENGTH('a) - 1"
    by (simp add: unsigned_minus_1_eq_mask mask_eq_exp_minus_1)
  moreover have "min (unat a + unat b) (2 ^ LENGTH('a) - 1) = 2 ^ LENGTH('a) - 1"
    using False by (intro min.absorb2) linarith
  ultimately show ?thesis using False by (simp add: saturating_add_def)
qed

lemma saturating_sub_self [simp]: "saturating_sub a a = 0"
  by (simp add: saturating_sub_def)

section \<open>Results\<close>

definition res_bind :: "('e, 'a) result \<Rightarrow> ('a \<Rightarrow> ('e, 'b) result) \<Rightarrow> ('e, 'b) result" where
  "res_bind r f = (case r of Inl e \<Rightarrow> Inl e | Inr x \<Rightarrow> f x)"

lemma res_bind_simps [simp]:
  "res_bind (Inl e) f = Inl e" "res_bind (Inr x) f = f x"
  by (simp_all add: res_bind_def)

lemma res_bind_Inr_iff:
  "res_bind r f = Inr y \<longleftrightarrow> (\<exists>x. r = Inr x \<and> f x = Inr y)"
  by (cases r) simp_all

section \<open>Hash maps and their iteration\<close>

definition snapshot_of :: "('k \<times> 'v) list \<Rightarrow> ('k \<rightharpoonup> 'v) \<Rightarrow> bool" where
  "snapshot_of xs m \<longleftrightarrow> distinct (map fst xs) \<and> map_of xs = m"

lemma snapshot_of_mem: "snapshot_of xs m \<Longrightarrow> (k, v) \<in> set xs \<longleftrightarrow> m k = Some v"
  by (auto simp: snapshot_of_def)

lemma snapshot_of_dom: "snapshot_of xs m \<Longrightarrow> fst ` set xs = dom m"
  unfolding snapshot_of_def using dom_map_of_conv_image_fst by metis

lemma snapshot_of_finite: "snapshot_of xs m \<Longrightarrow> finite (dom m)"
  by (metis finite_dom_map_of snapshot_of_def)

lemma snapshot_of_exists:
  assumes "finite (dom m)"
  shows "\<exists>xs. snapshot_of xs m"
proof -
  obtain ks where ks: "set ks = dom m" "distinct ks"
    using finite_distinct_list [OF assms] by auto
  let ?xs = "map (\<lambda>k. (k, the (m k))) ks"
  have "map_of ?xs = m"
  proof
    fix k
    show "map_of ?xs k = m k"
      using ks(1) by (cases "k \<in> set ks") (auto simp: map_of_map_restrict restrict_map_def domIff)
  qed
  moreover have "distinct (map fst ?xs)"
    using ks(2) by (simp add: comp_def)
  ultimately show ?thesis
    unfolding snapshot_of_def by blast
qed

lemma snapshot_of_length: "snapshot_of xs m \<Longrightarrow> length xs = card (dom m)"
  by (metis distinct_card length_map list.set_map snapshot_of_def snapshot_of_dom)

text \<open>\<open>for id in ids { map.remove(&id); }\<close>\<close>

definition remove_all :: "'k list \<Rightarrow> ('k \<rightharpoonup> 'v) \<Rightarrow> ('k \<rightharpoonup> 'v)" where
  "remove_all ks m = fold (\<lambda>k t. t(k := None)) ks m"

lemma remove_all_apply: "remove_all ks m k = (if k \<in> set ks then None else m k)"
  unfolding remove_all_def by (induction ks arbitrary: m) auto

lemma remove_all_Nil [simp]: "remove_all [] m = m"
  by (simp add: remove_all_def)

section \<open>First maxima\<close>

text \<open>
  The first element whose key no element exceeds: what a scan with a running best that is replaced
  on a strictly greater key computes. Address selection, record merging and the removal of
  duplicate names are all such scans.
\<close>

definition first_max :: "('a \<Rightarrow> 'k::linorder) \<Rightarrow> 'a list \<Rightarrow> 'a option" where
  "first_max key xs = find (\<lambda>x. list_all (\<lambda>y. key y \<le> key x) xs) xs"

lemma first_max_drop_second:
  assumes "key c \<le> key b"
  shows "first_max key (b # c # es) = first_max key (b # es)"
proof (cases "list_all (\<lambda>y. key y \<le> key b) es")
  case True
  with assms show ?thesis by (simp add: first_max_def)
next
  case False
  with assms have notc: "\<not> list_all (\<lambda>y. key y \<le> key c) es"
    using order_trans by (fastforce simp: list_all_iff)
  have "find (\<lambda>x. list_all (\<lambda>y. key y \<le> key x) (b # c # es)) es
      = find (\<lambda>x. list_all (\<lambda>y. key y \<le> key x) (b # es)) es"
    using assms order_trans by (intro find_cong) auto
  with False notc show ?thesis by (simp add: first_max_def)
qed

lemma first_max_drop_first:
  assumes "key b < key c"
  shows "first_max key (b # c # es) = first_max key (c # es)"
proof -
  have "find (\<lambda>x. list_all (\<lambda>y. key y \<le> key x) (b # c # es)) es
      = find (\<lambda>x. list_all (\<lambda>y. key y \<le> key x) (c # es)) es"
    using assms by (intro find_cong) auto
  with assms show ?thesis by (auto simp: first_max_def dest: leD)
qed

lemma first_max_None_iff [simp]: "first_max key xs = None \<longleftrightarrow> xs = []"
proof (cases xs)
  case (Cons x ys)
  have "Max (key ` set xs) \<in> key ` set xs" using Cons by (intro Max_in) auto
  then obtain z where "z \<in> set xs" "key z = Max (key ` set xs)" by auto
  then have "z \<in> set xs \<and> list_all (\<lambda>y. key y \<le> key z) xs" by (simp add: list_all_iff)
  then have "first_max key xs \<noteq> None" unfolding first_max_def find_None_iff by blast
  with Cons show ?thesis by simp
qed (simp add: first_max_def)

lemma first_max_Nil [simp]: "first_max key [] = None"
  by simp

lemma first_max_ex: "xs \<noteq> [] \<Longrightarrow> \<exists>x. first_max key xs = Some x"
  by (metis first_max_None_iff option.exhaust)

lemma first_max_SomeD:
  "first_max key xs = Some x \<Longrightarrow> x \<in> set xs \<and> (\<forall>y \<in> set xs. key y \<le> key x)"
  by (auto simp: first_max_def find_Some_iff list_all_iff)

lemma first_max_map: "first_max key (map f xs) = map_option f (first_max (key \<circ> f) xs)"
proof -
  have "find P (map f ys) = map_option f (find (P \<circ> f) ys)" for P ys
    by (induction ys) auto
  then show ?thesis by (simp add: first_max_def list.pred_map comp_def)
qed

text \<open>The scan itself, as a left fold with a running best.\<close>

definition scan_max :: "('a \<Rightarrow> 'k::linorder) \<Rightarrow> 'a \<Rightarrow> 'a list \<Rightarrow> 'a" where
  "scan_max key b xs = fold (\<lambda>x b. if key b < key x then x else b) xs b"

lemma first_max_scan: "first_max key (b # xs) = Some (scan_max key b xs)"
proof (induction xs arbitrary: b)
  case (Cons x xs)
  then show ?case
    by (cases "key b < key x")
      (simp_all add: scan_max_def first_max_drop_first first_max_drop_second)
qed (simp add: first_max_def scan_max_def)

lemma first_max_snoc:
  "first_max key (xs @ [x]) =
     (case first_max key xs of None \<Rightarrow> Some x | Some b \<Rightarrow> if key b < key x then Some x else Some b)"
proof (cases xs)
  case Nil
  then show ?thesis by (simp add: first_max_def)
next
  case (Cons y ys)
  then show ?thesis by (simp add: first_max_scan scan_max_def)
qed

lemma first_max_perm:
  assumes "set xs = set ys" and "inj_on key (set xs)"
  shows "first_max key xs = first_max key ys"
proof (cases "xs = []")
  case False
  with assms(1) obtain x y where x: "first_max key xs = Some x" and y: "first_max key ys = Some y"
    by (metis first_max_None_iff option.exhaust set_empty)
  from first_max_SomeD [OF x] first_max_SomeD [OF y] assms(1) have "key x = key y"
    by (metis order_antisym)
  with x y assms show ?thesis by (metis first_max_SomeD inj_onD)
qed (use assms(1) in simp)

section \<open>Integers as bytes\<close>

text \<open>\<open>to_le_bytes\<close> and \<open>from_le_bytes\<close> at a width of \<open>k\<close> bytes; big-endian is the reverse.\<close>

fun le_bytes :: "nat \<Rightarrow> nat \<Rightarrow> bytes" where
  "le_bytes 0 n = []"
| "le_bytes (Suc k) n = of_nat (n mod 256) # le_bytes k (n div 256)"

fun le_value :: "bytes \<Rightarrow> nat" where
  "le_value [] = 0"
| "le_value (b # bs) = unat b + 256 * le_value bs"

definition be_bytes :: "nat \<Rightarrow> nat \<Rightarrow> bytes" where
  "be_bytes k n = rev (le_bytes k n)"

definition be_value :: "bytes \<Rightarrow> nat" where
  "be_value bs = le_value (rev bs)"

lemma length_le_bytes [simp]: "length (le_bytes k n) = k"
  by (induction k arbitrary: n) auto

lemma length_be_bytes [simp]: "length (be_bytes k n) = k"
  by (simp add: be_bytes_def)

lemma unat_of_nat_byte: "unat (of_nat (n mod 256) :: u8) = n mod 256"
  by (simp add: unat_of_nat take_bit_eq_mod)

lemma byte_mod_256 [simp]: "word_of_nat (unat b mod 256) = (b :: u8)"
proof -
  have "unat b < 2 ^ LENGTH(8)" by (rule unsigned_less)
  then show ?thesis by simp
qed

lemma le_value_bytes [simp]: "le_value (le_bytes k n) = n mod 256 ^ k"
proof (induction k arbitrary: n)
  case (Suc k)
  have "n mod 256 + 256 * (n div 256 mod 256 ^ k) = n mod (256 * 256 ^ k)"
    by (metis add.commute mod_mult2_eq)
  then show ?case by (simp add: Suc.IH unat_of_nat_byte del: of_nat_mod)
qed simp

lemma be_value_bytes [simp]: "be_value (be_bytes k n) = n mod 256 ^ k"
  by (simp add: be_value_def be_bytes_def)

lemma le_value_bound: "le_value bs < 256 ^ length bs"
proof (induction bs)
  case (Cons b bs)
  have "unat b < 2 ^ LENGTH(8)" by (rule unsigned_less)
  with Cons show ?case by simp
qed simp

section \<open>Strings as UTF-8 bytes\<close>

text \<open>
  The characters with the Unicode property \<open>White_Space\<close>, each as its UTF-8 encoding:
  \<open>char::is_whitespace\<close>, which \<open>str::trim\<close> and \<open>split_whitespace\<close> use.
\<close>

definition ws_encodings :: "string list" where
  "ws_encodings =
     [[CHR 0x09], [CHR 0x0A], [CHR 0x0B], [CHR 0x0C], [CHR 0x0D], [CHR 0x20],
      [CHR 0xC2, CHR 0x85], [CHR 0xC2, CHR 0xA0], [CHR 0xE1, CHR 0x9A, CHR 0x80]]
     @ map (\<lambda>c. [CHR 0xE2, CHR 0x80, c])
         [CHR 0x80, CHR 0x81, CHR 0x82, CHR 0x83, CHR 0x84, CHR 0x85, CHR 0x86, CHR 0x87,
          CHR 0x88, CHR 0x89, CHR 0x8A, CHR 0xA8, CHR 0xA9, CHR 0xAF]
     @ [[CHR 0xE2, CHR 0x81, CHR 0x9F], [CHR 0xE3, CHR 0x80, CHR 0x80]]"

function strip_any :: "string list \<Rightarrow> string \<Rightarrow> string" where
  "strip_any ws s =
     (case find (\<lambda>w. w \<noteq> [] \<and> prefix w s) ws of
        None \<Rightarrow> s
      | Some w \<Rightarrow> strip_any ws (drop (length w) s))"
  by pat_completeness auto
termination
proof (relation "measure (\<lambda>(ws, s). length s)")
  fix ws s w assume "find (\<lambda>w. w \<noteq> [] \<and> prefix w s) ws = Some w"
  then have "w \<noteq> [] \<and> prefix w s" by (auto simp: find_Some_iff)
  then have "0 < length w \<and> length w \<le> length s"
    by (simp add: prefix_length_le)
  then have "length s - length w < length s" by linarith
  then show "((ws, drop (length w) s), ws, s) \<in> measure (\<lambda>(ws, s). length s)" by simp
qed simp

declare strip_any.simps [simp del]

definition trim_start :: "string \<Rightarrow> string" where
  "trim_start s = strip_any ws_encodings s"

definition trim_end :: "string \<Rightarrow> string" where
  "trim_end s = rev (strip_any (map rev ws_encodings) (rev s))"

definition trim :: "string \<Rightarrow> string" where
  "trim s = trim_end (trim_start s)"

definition trim_end_char :: "char \<Rightarrow> string \<Rightarrow> string" where
  "trim_end_char c s = rev (dropWhile (\<lambda>x. x = c) (rev s))"

definition starts_with :: "string \<Rightarrow> string \<Rightarrow> bool" where
  "starts_with p s = prefix p s"

definition ends_with :: "string \<Rightarrow> string \<Rightarrow> bool" where
  "ends_with p s = suffix p s"

text \<open>ASCII classes and case on bytes; bytes above 127 are never ASCII.\<close>

definition code_in :: "nat \<Rightarrow> nat \<Rightarrow> char \<Rightarrow> bool" where
  "code_in lo hi c \<longleftrightarrow> lo \<le> (of_char c :: nat) \<and> (of_char c :: nat) \<le> hi"

definition is_ascii_upper :: "char \<Rightarrow> bool" where
  "is_ascii_upper c = code_in 65 90 c"

definition is_ascii_lower :: "char \<Rightarrow> bool" where
  "is_ascii_lower c = code_in 97 122 c"

definition is_ascii_digit :: "char \<Rightarrow> bool" where
  "is_ascii_digit c = code_in 48 57 c"

definition is_ascii_alphanumeric :: "char \<Rightarrow> bool" where
  "is_ascii_alphanumeric c \<longleftrightarrow> is_ascii_upper c \<or> is_ascii_lower c \<or> is_ascii_digit c"

definition to_lower_char :: "char \<Rightarrow> char" where
  "to_lower_char c = (if is_ascii_upper c then char_of (of_char c + 32 :: nat) else c)"

definition to_ascii_lowercase :: "string \<Rightarrow> string" where
  "to_ascii_lowercase s = map to_lower_char s"

fun split_on :: "char \<Rightarrow> string \<Rightarrow> string list" where
  "split_on c [] = [[]]"
| "split_on c (x # xs) =
     (if x = c then [] # split_on c xs
      else (case split_on c xs of [] \<Rightarrow> [[x]] | y # ys \<Rightarrow> (x # y) # ys))"

fun join :: "string \<Rightarrow> string list \<Rightarrow> string" where
  "join sep [] = []"
| "join sep [x] = x"
| "join sep (x # y # ys) = x @ sep @ join sep (y # ys)"


text \<open>\<open>{}\<close> of an unsigned integer.\<close>

definition digit_char :: "nat \<Rightarrow> char" where
  "digit_char d = char_of (48 + d)"

fun show_nat :: "nat \<Rightarrow> string" where
  "show_nat n = (if n < 10 then [digit_char n] else show_nat (n div 10) @ [digit_char (n mod 10)])"

declare show_nat.simps [simp del]

end
