(* ===== verification/BTree.thy ===== *)
theory BTree
  imports DDNS_Prelude
begin

text \<open>
  The standard library's \<open>BTreeMap\<close> and \<open>BTreeSet\<close>, as the sequences their iterators yield: a
  map is an association list in strictly increasing key order, a set a strictly increasing list.
  The contract the program relies on (lookup after insert and remove, the order kept) is the
  locale \<open>ordered_map\<close>, interpreted here on the model's operations; \<open>Hosts_File\<close>,
  \<open>Redb_Storage\<close> and \<open>Domain_Node\<close> are its clients.
\<close>

section \<open>Operations\<close>

fun bt_insert :: "'k::linorder \<Rightarrow> 'v \<Rightarrow> ('k \<times> 'v) list \<Rightarrow> ('k \<times> 'v) list" where
  "bt_insert k v [] = [(k, v)]"
| "bt_insert k v (e # es) =
     (if fst e < k then e # bt_insert k v es
      else if fst e = k then (k, v) # es
      else (k, v) # e # es)"

definition bt_get :: "'k \<Rightarrow> ('k \<times> 'v) list \<Rightarrow> 'v option" where
  "bt_get k m = map_of m k"

definition bt_contains_key :: "'k \<Rightarrow> ('k \<times> 'v) list \<Rightarrow> bool" where
  "bt_contains_key k m = (k \<in> fst ` set m)"

definition bt_remove :: "'k \<Rightarrow> ('k \<times> 'v) list \<Rightarrow> ('k \<times> 'v) list" where
  "bt_remove k m = filter (\<lambda>e. fst e \<noteq> k) m"

definition bt_ok :: "('k::linorder \<times> 'v) list \<Rightarrow> bool" where
  "bt_ok m = sorted_wrt (<) (map fst m)"

definition bt_set_of :: "'a::linorder list \<Rightarrow> 'a list" where
  "bt_set_of xs = sort (remdups xs)"

section \<open>The contract\<close>

locale ordered_map =
  fixes ins :: "'k::linorder \<Rightarrow> 'v \<Rightarrow> 'm \<Rightarrow> 'm"
    and del :: "'k \<Rightarrow> 'm \<Rightarrow> 'm"
    and get :: "'k \<Rightarrow> 'm \<Rightarrow> 'v option"
    and entries :: "'m \<Rightarrow> ('k \<times> 'v) list"
    and empty :: 'm
    and ok :: "'m \<Rightarrow> bool"
  assumes ok_empty: "ok empty"
    and get_empty: "get k empty = None"
    and ok_ins: "ok m \<Longrightarrow> ok (ins k v m)"
    and ok_del: "ok m \<Longrightarrow> ok (del k m)"
    and get_ins: "ok m \<Longrightarrow> get k' (ins k v m) = (if k' = k then Some v else get k' m)"
    and get_del: "ok m \<Longrightarrow> get k' (del k m) = (if k' = k then None else get k' m)"
    and entries_sorted: "ok m \<Longrightarrow> sorted_wrt (<) (map fst (entries m))"
    and entries_get: "ok m \<Longrightarrow> (k, v) \<in> set (entries m) \<longleftrightarrow> get k m = Some v"
begin

lemma ok_fold_ins:
  "ok m \<Longrightarrow> ok (fold (\<lambda>x. ins (f x) (g x)) xs m)"
  by (induction xs arbitrary: m) (auto intro: ok_ins)

lemma get_fold_ins_other:
  "ok m \<Longrightarrow> k \<notin> f ` set xs \<Longrightarrow> get k (fold (\<lambda>x. ins (f x) (g x)) xs m) = get k m"
  by (induction xs arbitrary: m) (auto simp: get_ins ok_ins)

text \<open>Inserting a batch whose keys are distinct: every entry of the batch is found afterwards.\<close>

lemma get_fold_ins:
  assumes "ok m" and "distinct (map f xs)" and "x \<in> set xs"
  shows "get (f x) (fold (\<lambda>x. ins (f x) (g x)) xs m) = Some (g x)"
  using assms
proof (induction xs arbitrary: m)
  case (Cons y ys)
  show ?case
  proof (cases "x = y")
    case True
    with Cons.prems have "f x \<notin> f ` set ys" by auto
    with True Cons.prems show ?thesis
      by (simp add: get_fold_ins_other ok_ins get_ins)
  next
    case False
    with Cons show ?thesis by (simp add: ok_ins)
  qed
qed simp

lemma entries_distinct: "ok m \<Longrightarrow> distinct (map fst (entries m))"
  using entries_sorted strict_sorted_iff by blast

text \<open>The iteration is determined by the lookups alone.\<close>

lemma entries_unique:
  assumes "ok m" and "ok m'" and eq: "\<And>k. get k m = get k m'"
  shows "entries m = entries m'"
proof -
  have set_eq: "set (entries m) = set (entries m')"
    using assms entries_get by (auto simp: set_eq_iff)
  have srt: "sorted (map fst (entries n)) \<and> distinct (map fst (entries n))" if "ok n" for n
    using entries_sorted [OF that] by (simp add: strict_sorted_iff)
  have "inj_on fst (set (entries m) \<union> set (entries m'))"
    using srt [OF assms(1)] set_eq by (simp add: distinct_map)
  then show ?thesis
    using srt [OF assms(1)] srt [OF assms(2)] set_eq
    by (intro map_sorted_distinct_set_unique) auto
qed

end

section \<open>The model keeps the contract\<close>

lemma bt_insert_keys: "fst ` set (bt_insert k v m) = insert k (fst ` set m)"
  by (induction m) auto

lemma bt_ok_Nil [simp]: "bt_ok []"
  by (simp add: bt_ok_def)

lemma bt_ok_Cons: "bt_ok (e # es) \<longleftrightarrow> (\<forall>x \<in> fst ` set es. fst e < x) \<and> bt_ok es"
  by (simp add: bt_ok_def)

lemma bt_ok_insert: "bt_ok m \<Longrightarrow> bt_ok (bt_insert k v m)"
proof (induction m)
  case (Cons e es)
  have "fst e < k \<or> fst e = k \<or> k < fst e" by auto
  then show ?case
    using Cons by (elim disjE) (auto simp: bt_ok_Cons bt_insert_keys)
qed (simp add: bt_ok_Cons)

lemma bt_ok_remove: "bt_ok m \<Longrightarrow> bt_ok (bt_remove k m)"
  by (induction m) (auto simp: bt_ok_Cons bt_remove_def)

lemma map_of_None_less: "(\<forall>x \<in> fst ` set es. k < x) \<Longrightarrow> map_of es (k::'k::linorder) = None"
  by (metis map_of_eq_None_iff order_less_irrefl)

lemma bt_get_insert: "bt_ok m \<Longrightarrow> bt_get k' (bt_insert k v m) = (if k' = k then Some v else bt_get k' m)"
proof (induction m)
  case (Cons e es)
  then show ?case
    by (cases e; cases "fst e" k rule: linorder_cases) (auto simp: bt_get_def bt_ok_Cons)
qed (simp add: bt_get_def)

lemma bt_get_remove: "bt_get k' (bt_remove k m) = (if k' = k then None else bt_get k' m)"
  by (induction m) (auto simp: bt_get_def bt_remove_def)

lemma bt_get_mem: "bt_ok m \<Longrightarrow> (k, v) \<in> set m \<longleftrightarrow> bt_get k m = Some v"
  by (auto simp: bt_get_def bt_ok_def strict_sorted_iff)

interpretation bt: ordered_map bt_insert bt_remove bt_get "\<lambda>m. m" "[]" bt_ok
  by unfold_locales
    (auto simp: bt_ok_insert bt_ok_remove bt_get_insert bt_get_remove bt_get_mem, auto simp: bt_get_def bt_ok_def)

lemma bt_contains_key_get: "bt_contains_key k m \<longleftrightarrow> bt_get k m \<noteq> None"
  by (simp add: bt_contains_key_def bt_get_def map_of_eq_None_iff)

lemma bt_contains_insert [simp]:
  "bt_contains_key k' (bt_insert k v m) \<longleftrightarrow> k' = k \<or> bt_contains_key k' m"
  by (simp add: bt_contains_key_def bt_insert_keys)

lemma bt_contains_Nil [simp]: "\<not> bt_contains_key k []"
  by (simp add: bt_contains_key_def)

lemma set_bt_set_of [simp]: "set (bt_set_of xs) = set xs"
  by (simp add: bt_set_of_def)

lemma sorted_bt_set_of: "sorted_wrt (<) (bt_set_of xs)"
  by (simp add: bt_set_of_def strict_sorted_iff)

lemma bt_set_of_eq: "set xs = set ys \<Longrightarrow> bt_set_of xs = bt_set_of ys"
  by (metis set_bt_set_of sorted_bt_set_of strict_sorted_equal)

lemma bt_set_of_id: "sorted_wrt (<) xs \<Longrightarrow> bt_set_of xs = xs"
  by (metis set_bt_set_of sorted_bt_set_of strict_sorted_equal)

lemma bt_set_of_Nil_iff [simp]: "bt_set_of xs = [] \<longleftrightarrow> xs = []"
  by (metis set_bt_set_of set_empty)

end
