(* ===== verification/Endpoint_Addr.thy ===== *)
theory Endpoint_Addr
  imports BTree
begin

text \<open>
  Network addresses. \<open>IpAddr\<close> and \<open>SocketAddr\<close> are the standard library's types with their
  derived order (IPv4 before IPv6, then field by field) and address classes. \<open>EndpointAddr\<close> is
  the public data type of the iroh crate, whose code is not in the repository: an endpoint id
  with a \<open>BTreeSet\<close> of \<open>TransportAddr\<close>, relay URLs before IP sockets. Only its data and its
  documented constructors and iterators are used here. Endpoint ids and topics are 32 opaque bytes.
\<close>

section \<open>IP and socket addresses\<close>

datatype ip_addr = IpV4 u32 | IpV6 u128

datatype socket_addr =
    SockV4 u32 u16              \<comment> \<open>address and port\<close>
  | SockV6 u128 u16 u32 u32     \<comment> \<open>address, port, flow info and scope id\<close>

fun sock_ip :: "socket_addr \<Rightarrow> ip_addr" where
  "sock_ip (SockV4 a p) = IpV4 a"
| "sock_ip (SockV6 a p f s) = IpV6 a"

fun is_ipv4 :: "ip_addr \<Rightarrow> bool" where
  "is_ipv4 (IpV4 a) = True"
| "is_ipv4 (IpV6 a) = False"

definition is_ipv6 :: "ip_addr \<Rightarrow> bool" where
  "is_ipv6 ip = (\<not> is_ipv4 ip)"

fun ip_key :: "ip_addr \<Rightarrow> bool \<times> u32 \<times> u128" where
  "ip_key (IpV4 a) = (False, a, 0)"
| "ip_key (IpV6 a) = (True, 0, a)"

fun sock_key :: "socket_addr \<Rightarrow> ip_addr \<times> u16 \<times> u32 \<times> u32" where
  "sock_key (SockV4 a p) = (IpV4 a, p, 0, 0)"
| "sock_key (SockV6 a p f s) = (IpV6 a, p, f, s)"

lemma ip_key_inj: "ip_key a = ip_key b \<Longrightarrow> a = b"
  by (cases a; cases b) auto

lemma sock_key_inj: "sock_key a = sock_key b \<Longrightarrow> a = b"
  by (cases a; cases b) auto

instantiation ip_addr :: linorder
begin

definition less_eq_ip_addr :: "ip_addr \<Rightarrow> ip_addr \<Rightarrow> bool" where
  "less_eq_ip_addr a b = (ip_key a \<le> ip_key b)"

definition less_ip_addr :: "ip_addr \<Rightarrow> ip_addr \<Rightarrow> bool" where
  "less_ip_addr a b = (ip_key a < ip_key b)"

instance
  by standard (auto simp: less_eq_ip_addr_def less_ip_addr_def intro: ip_key_inj)

end

instantiation socket_addr :: linorder
begin

definition less_eq_socket_addr :: "socket_addr \<Rightarrow> socket_addr \<Rightarrow> bool" where
  "less_eq_socket_addr a b = (sock_key a \<le> sock_key b)"

definition less_socket_addr :: "socket_addr \<Rightarrow> socket_addr \<Rightarrow> bool" where
  "less_socket_addr a b = (sock_key a < sock_key b)"

instance
  by standard (auto simp: less_eq_socket_addr_def less_socket_addr_def intro: sock_key_inj)

end

text \<open>Octets of an IPv4 address, 16-bit segments of an IPv6 address, most significant first.\<close>

definition ipv4_octet :: "nat \<Rightarrow> u32 \<Rightarrow> nat" where
  "ipv4_octet i a = unat a div 256 ^ (3 - i) mod 256"

definition ipv6_segment :: "nat \<Rightarrow> u128 \<Rightarrow> nat" where
  "ipv6_segment i a = unat a div 65536 ^ (7 - i) mod 65536"

fun is_loopback :: "ip_addr \<Rightarrow> bool" where
  "is_loopback (IpV4 a) = (ipv4_octet 0 a = 127)"
| "is_loopback (IpV6 a) = (a = 1)"

fun is_multicast :: "ip_addr \<Rightarrow> bool" where
  "is_multicast (IpV4 a) = (224 \<le> ipv4_octet 0 a \<and> ipv4_octet 0 a \<le> 239)"
| "is_multicast (IpV6 a) = (ipv6_segment 0 a div 256 = 255)"

fun is_unspecified :: "ip_addr \<Rightarrow> bool" where
  "is_unspecified (IpV4 a) = (a = 0)"
| "is_unspecified (IpV6 a) = (a = 0)"

definition ipv4_is_link_local :: "u32 \<Rightarrow> bool" where
  "ipv4_is_link_local a = (ipv4_octet 0 a = 169 \<and> ipv4_octet 1 a = 254)"

text \<open>\<open>(segments()[0] & 0xffc0) == 0xfe80\<close>: the ten leading bits are those of fe80::/10.\<close>

definition ipv6_is_unicast_link_local :: "u128 \<Rightarrow> bool" where
  "ipv6_is_unicast_link_local a = (ipv6_segment 0 a div 64 = 1018)"

section \<open>Endpoints\<close>

datatype endpoint_id = EndpointId "256 word"
datatype topic_id = TopicId "256 word"

fun id_word :: "endpoint_id \<Rightarrow> 256 word" where
  "id_word (EndpointId w) = w"

lemma id_word_inj: "id_word a = id_word b \<Longrightarrow> a = b"
  by (cases a; cases b) simp

instantiation endpoint_id :: linorder
begin

definition less_eq_endpoint_id :: "endpoint_id \<Rightarrow> endpoint_id \<Rightarrow> bool" where
  "less_eq_endpoint_id a b = (id_word a \<le> id_word b)"

definition less_endpoint_id :: "endpoint_id \<Rightarrow> endpoint_id \<Rightarrow> bool" where
  "less_endpoint_id a b = (id_word a < id_word b)"

instance
  by standard (auto simp: less_eq_endpoint_id_def less_endpoint_id_def intro: id_word_inj)

end

datatype transport_addr = Relay string | Ip socket_addr

fun transport_key :: "transport_addr \<Rightarrow> bool \<times> string \<times> socket_addr" where
  "transport_key (Relay u) = (False, u, SockV4 0 0)"
| "transport_key (Ip s) = (True, [], s)"

lemma transport_key_inj: "transport_key a = transport_key b \<Longrightarrow> a = b"
  by (cases a; cases b) auto

instantiation transport_addr :: linorder
begin

definition less_eq_transport_addr :: "transport_addr \<Rightarrow> transport_addr \<Rightarrow> bool" where
  "less_eq_transport_addr a b = (transport_key a \<le> transport_key b)"

definition less_transport_addr :: "transport_addr \<Rightarrow> transport_addr \<Rightarrow> bool" where
  "less_transport_addr a b = (transport_key a < transport_key b)"

instance
  by standard (auto simp: less_eq_transport_addr_def less_transport_addr_def intro: transport_key_inj)

end

record endpoint_addr =
  ea_id :: endpoint_id
  ea_addrs :: "transport_addr list"   \<comment> \<open>the \<open>BTreeSet\<close>, in its iteration order\<close>

definition ea_ok :: "endpoint_addr \<Rightarrow> bool" where
  "ea_ok a = sorted_wrt (<) (ea_addrs a)"

definition ea_new :: "endpoint_id \<Rightarrow> endpoint_addr" where
  "ea_new i = \<lparr>ea_id = i, ea_addrs = []\<rparr>"

definition from_parts :: "endpoint_id \<Rightarrow> transport_addr list \<Rightarrow> endpoint_addr" where
  "from_parts i ts = \<lparr>ea_id = i, ea_addrs = bt_set_of ts\<rparr>"

fun transport_ip :: "transport_addr \<Rightarrow> socket_addr option" where
  "transport_ip (Ip s) = Some s"
| "transport_ip (Relay u) = None"

fun transport_relay :: "transport_addr \<Rightarrow> string option" where
  "transport_relay (Relay u) = Some u"
| "transport_relay (Ip s) = None"

definition ip_addrs :: "endpoint_addr \<Rightarrow> socket_addr list" where
  "ip_addrs a = List.map_filter transport_ip (ea_addrs a)"

definition relay_urls :: "endpoint_addr \<Rightarrow> string list" where
  "relay_urls a = List.map_filter transport_relay (ea_addrs a)"

definition ea_is_empty :: "endpoint_addr \<Rightarrow> bool" where
  "ea_is_empty a = (ea_addrs a = [])"

lemma transport_ip_Some [simp]: "transport_ip t = Some s \<longleftrightarrow> t = Ip s"
  by (cases t) auto

lemma transport_relay_Some [simp]: "transport_relay t = Some u \<longleftrightarrow> t = Relay u"
  by (cases t) auto

lemma set_map_filter: "set (List.map_filter f xs) = {y. \<exists>x \<in> set xs. f x = Some y}"
  by (induction xs) (auto simp: map_filter_simps split: option.splits)

lemma set_ip_addrs: "s \<in> set (ip_addrs a) \<longleftrightarrow> Ip s \<in> set (ea_addrs a)"
  by (auto simp: ip_addrs_def set_map_filter)

lemma set_relay_urls: "u \<in> set (relay_urls a) \<longleftrightarrow> Relay u \<in> set (ea_addrs a)"
  by (auto simp: relay_urls_def set_map_filter)

lemma from_parts_simps [simp]:
  "ea_id (from_parts i ts) = i" "set (ea_addrs (from_parts i ts)) = set ts"
  "ea_ok (from_parts i ts)"
  by (simp_all add: from_parts_def ea_ok_def sorted_bt_set_of)

lemma ea_new_simps [simp]:
  "ea_id (ea_new i) = i" "ea_addrs (ea_new i) = []" "ea_ok (ea_new i)"
  "ip_addrs (ea_new i) = []" "relay_urls (ea_new i) = []" "ea_is_empty (ea_new i)"
  by (simp_all add: ea_new_def ea_ok_def ip_addrs_def relay_urls_def ea_is_empty_def map_filter_simps)

lemma set_ip_addrs_from_parts [simp]: "s \<in> set (ip_addrs (from_parts i ts)) \<longleftrightarrow> Ip s \<in> set ts"
  by (simp add: set_ip_addrs)

lemma set_relay_urls_from_parts [simp]: "u \<in> set (relay_urls (from_parts i ts)) \<longleftrightarrow> Relay u \<in> set ts"
  by (simp add: set_relay_urls)

lemma ea_eqI: "ea_id a = ea_id b \<Longrightarrow> set (ea_addrs a) = set (ea_addrs b) \<Longrightarrow> ea_ok a \<Longrightarrow> ea_ok b \<Longrightarrow>
    a = (b :: endpoint_addr)"
  by (cases a; cases b) (auto simp: ea_ok_def intro: strict_sorted_equal)

lemma from_parts_self: "ea_ok a \<Longrightarrow> from_parts (ea_id a) (ea_addrs a) = a"
  by (rule ea_eqI) auto

lemma from_parts_one [simp]: "ip_addrs (from_parts i [Ip s]) = [s]"
  by (simp add: from_parts_def ip_addrs_def bt_set_of_def map_filter_simps)

lemma ip_addrs_Nil_iff: "ip_addrs a = [] \<longleftrightarrow> (\<forall>s. Ip s \<notin> set (ea_addrs a))"
  by (metis set_empty set_ip_addrs empty_iff all_not_in_conv)

lemma relay_urls_Nil_iff: "relay_urls a = [] \<longleftrightarrow> (\<forall>u. Relay u \<notin> set (ea_addrs a))"
  by (metis set_empty set_relay_urls empty_iff all_not_in_conv)

text \<open>A relay sorts before every IP socket, so the sockets are iterated in socket order.\<close>

lemma transport_Ip_less [simp]: "Ip a < Ip b \<longleftrightarrow> a < b"
  by (auto simp: less_transport_addr_def)

lemma sorted_ip_addrs:
  assumes "ea_ok a"
  shows "sorted_wrt (<) (ip_addrs a)"
proof -
  have "sorted_wrt (<) (List.map_filter transport_ip ts)" if "sorted_wrt (<) ts" for ts
    using that
  proof (induction ts)
    case (Cons t ts)
    then show ?case by (cases t) (auto simp: map_filter_simps set_map_filter)
  qed (simp add: map_filter_simps)
  with assms show ?thesis by (simp add: ea_ok_def ip_addrs_def)
qed

end
