(* ===== verification/Addr_Select.thy ===== *)
theory Addr_Select
  imports Endpoint_Addr
begin

unbundle bit_operations_syntax

text \<open>
  \<open>src/util/mod.rs\<close>: which addresses are local only, what an interface contributes, what a node
  advertises, what is displayed, and which single address of a remote is dialled. The interface
  list of \<open>netdev::get_interfaces\<close> is an argument.
\<close>

section \<open>Interfaces\<close>

record iface =
  if_name :: string
  if_friendly_name :: "string option"
  if_ipv4 :: "u32 list"
  if_ipv6 :: "u128 list"
  if_scope_ids :: "u32 list"
  if_index :: u32
  if_is_loopback :: bool
  if_is_up :: bool

record interface_addrs =
  ia_v4 :: "u32 list"
  ia_v6 :: "(u128 \<times> u32) list"

datatype iface_error = InterfaceNotFound string | InterfaceWithoutAddrs string

definition sort_dedup :: "'a::linorder list \<Rightarrow> 'a list" where
  "sort_dedup xs = remdups_adj (sort xs)"

definition scoped_v6 :: "iface \<Rightarrow> (u128 \<times> u32) list" where
  "scoped_v6 f =
     map (\<lambda>(idx, a). (a, if idx < length (if_scope_ids f) then if_scope_ids f ! idx else if_index f))
       (List.enumerate 0 (if_ipv6 f))"

definition lookup_interface_addrs :: "iface list \<Rightarrow> string \<Rightarrow> (iface_error, interface_addrs) result" where
  "lookup_interface_addrs ifaces name =
     (case find (\<lambda>f. if_name f = name \<or> if_friendly_name f = Some name) ifaces of
        None \<Rightarrow> Inl (InterfaceNotFound name)
      | Some f \<Rightarrow>
          let addrs = \<lparr>ia_v4 = sort_dedup (if_ipv4 f), ia_v6 = sort_dedup (scoped_v6 f)\<rparr>
          in if ia_v4 addrs = [] \<and> ia_v6 addrs = [] then Inl (InterfaceWithoutAddrs name)
             else Inr addrs)"

section \<open>Local-only addresses\<close>

definition is_local_only_ip :: "ip_addr \<Rightarrow> bool" where
  "is_local_only_ip ip =
     (if is_loopback ip \<or> is_multicast ip \<or> is_unspecified ip then True
      else case ip of IpV4 a \<Rightarrow> ipv4_is_link_local a | IpV6 a \<Rightarrow> ipv6_is_unicast_link_local a)"

definition local_only_exact_names :: "string list" where
  "local_only_exact_names =
     [''lo'', ''lo0'', ''kube-ipvs0'', ''cilium_host'', ''cilium_net'', ''cilium_vxlan'']"

definition local_only_prefixes :: "string list" where
  "local_only_prefixes =
     [''docker'', ''br-'', ''veth'', ''cni'', ''flannel'', ''virbr'', ''podman'', ''lxcbr'',
      ''vboxnet'', ''vmnet'']"

definition is_local_only_interface_name :: "string \<Rightarrow> bool" where
  "is_local_only_interface_name name =
     (let lower = to_ascii_lowercase name
      in lower \<in> set local_only_exact_names
         \<or> list_ex (\<lambda>p. starts_with p lower) local_only_prefixes)"

definition iface_local_only :: "iface \<Rightarrow> bool" where
  "iface_local_only f =
     (if_is_loopback f \<or> \<not> if_is_up f \<or> is_local_only_interface_name (if_name f)
      \<or> (case if_friendly_name f of None \<Rightarrow> False | Some n \<Rightarrow> is_local_only_interface_name n))"

definition iface_ips :: "iface \<Rightarrow> ip_addr list" where
  "iface_ips f = map IpV4 (if_ipv4 f) @ map IpV6 (if_ipv6 f)"

definition note_ip :: "bool \<Rightarrow> ip_addr \<Rightarrow> (ip_addr \<rightharpoonup> bool) \<Rightarrow> (ip_addr \<rightharpoonup> bool)" where
  "note_ip local_only ip out =
     out(ip \<mapsto> (case out ip of None \<Rightarrow> local_only | Some current \<Rightarrow> current \<and> local_only))"

definition local_only_interface_ip_map :: "iface list \<Rightarrow> (ip_addr \<rightharpoonup> bool)" where
  "local_only_interface_ip_map ifaces =
     fold (\<lambda>f. fold (note_ip (iface_local_only f)) (iface_ips f)) ifaces Map.empty"

definition marked_local :: "(ip_addr \<rightharpoonup> bool) \<Rightarrow> ip_addr \<Rightarrow> bool" where
  "marked_local m ip = (case m ip of None \<Rightarrow> False | Some b \<Rightarrow> b)"

section \<open>Advertised and displayed addresses\<close>

definition filter_advertisable_endpoint_addr_with_map ::
    "endpoint_addr \<Rightarrow> (ip_addr \<rightharpoonup> bool) \<Rightarrow> endpoint_addr" where
  "filter_advertisable_endpoint_addr_with_map addr m =
     from_parts (ea_id addr)
       (map Relay (relay_urls addr)
        @ map Ip (filter (\<lambda>s. \<not> is_local_only_ip (sock_ip s) \<and> \<not> marked_local m (sock_ip s))
                    (ip_addrs addr)))"

definition filter_advertisable_endpoint_addr :: "iface list \<Rightarrow> endpoint_addr \<Rightarrow> endpoint_addr" where
  "filter_advertisable_endpoint_addr ifaces addr =
     filter_advertisable_endpoint_addr_with_map addr (local_only_interface_ip_map ifaces)"

fun display_scan :: "(ip_addr \<Rightarrow> bool) \<Rightarrow> ip_addr option \<Rightarrow> socket_addr list \<Rightarrow> ip_addr option" where
  "display_scan skip best_v6 [] = best_v6"
| "display_scan skip best_v6 (s # ss) =
     (let ip = sock_ip s
      in if skip ip then display_scan skip best_v6 ss
         else if is_ipv4 ip then Some ip
         else display_scan skip (if best_v6 = None then Some ip else best_v6) ss)"

definition best_local_ip_for_display_with_map ::
    "endpoint_addr \<Rightarrow> (ip_addr \<rightharpoonup> bool) \<Rightarrow> ip_addr option" where
  "best_local_ip_for_display_with_map addr m =
     display_scan (\<lambda>ip. is_local_only_ip ip \<or> marked_local m ip) None (ip_addrs addr)"

definition best_ip_for_display :: "endpoint_addr \<Rightarrow> ip_addr option" where
  "best_ip_for_display addr = display_scan is_local_only_ip None (ip_addrs addr)"

definition best_local_ip_for_display :: "iface list \<Rightarrow> endpoint_addr \<Rightarrow> ip_addr option" where
  "best_local_ip_for_display ifaces addr =
     (case best_local_ip_for_display_with_map addr (local_only_interface_ip_map ifaces) of
        None \<Rightarrow> best_ip_for_display addr
      | Some ip \<Rightarrow> Some ip)"

section \<open>The address that is dialled\<close>

fun clz_from :: "nat \<Rightarrow> 'a::len word \<Rightarrow> nat" where
  "clz_from 0 w = 0"
| "clz_from (Suc n) w = (if bit w n then 0 else Suc (clz_from n w))"

definition leading_zeros :: "'a::len word \<Rightarrow> nat" where
  "leading_zeros w = clz_from LENGTH('a) w"

fun common_prefix_bits :: "ip_addr \<Rightarrow> ip_addr \<Rightarrow> nat" where
  "common_prefix_bits (IpV4 a) (IpV4 b) = leading_zeros (a XOR b)"
| "common_prefix_bits (IpV6 a) (IpV6 b) = leading_zeros (a XOR b)"
| "common_prefix_bits _ _ = 0"

definition best_prefix_score :: "ip_addr \<Rightarrow> ip_addr list \<Rightarrow> nat" where
  "best_prefix_score ip locals = fold max (map (common_prefix_bits ip) locals) 0"

type_synonym candidate = "nat \<times> bool \<times> socket_addr"

definition better_candidate :: "bool \<Rightarrow> candidate \<Rightarrow> candidate \<Rightarrow> bool" where
  "better_candidate prefer_v4 cand current =
     (let better_family = (if prefer_v4 then fst (snd cand) \<and> \<not> fst (snd current)
                           else \<not> fst (snd cand) \<and> fst (snd current))
      in fst cand > fst current \<or> (fst cand = fst current \<and> better_family))"

definition candidate_of :: "ip_addr list \<Rightarrow> socket_addr \<Rightarrow> candidate" where
  "candidate_of local_ips s = (best_prefix_score (sock_ip s) local_ips, is_ipv4 (sock_ip s), s)"

fun best_scan ::
    "bool \<Rightarrow> bool \<Rightarrow> ip_addr list \<Rightarrow> candidate option \<Rightarrow> socket_addr list \<Rightarrow> candidate option" where
  "best_scan prefer_v4 local_only_mode local_ips best [] = best"
| "best_scan prefer_v4 local_only_mode local_ips best (s # ss) =
     (if \<not> local_only_mode \<and> is_local_only_ip (sock_ip s)
      then best_scan prefer_v4 local_only_mode local_ips best ss
      else
        let cand = candidate_of local_ips s;
            best' = (case best of
                       None \<Rightarrow> Some cand
                     | Some current \<Rightarrow>
                         if better_candidate prefer_v4 cand current then Some cand else best)
        in best_scan prefer_v4 local_only_mode local_ips best' ss)"

definition local_ips_of :: "endpoint_addr \<Rightarrow> ip_addr list" where
  "local_ips_of local =
     (let all_local_ips = map sock_ip (ip_addrs local);
          routable = filter (\<lambda>ip. \<not> is_local_only_ip ip) all_local_ips
      in if routable = [] then all_local_ips else routable)"

definition local_only_mode_of :: "endpoint_addr \<Rightarrow> bool" where
  "local_only_mode_of local = (filter (\<lambda>ip. \<not> is_local_only_ip ip) (map sock_ip (ip_addrs local)) = [])"

definition prefer_v4_of :: "ip_addr list \<Rightarrow> bool" where
  "prefer_v4_of local_ips = (list_ex is_ipv4 local_ips \<or> \<not> list_ex is_ipv6 local_ips)"

definition best_endpoint_addr_for_local :: "endpoint_addr \<Rightarrow> endpoint_addr \<Rightarrow> endpoint_addr" where
  "best_endpoint_addr_for_local remote local =
     (if ip_addrs local = [] then remote
      else
        let local_ips = local_ips_of local
        in case best_scan (prefer_v4_of local_ips) (local_only_mode_of local) local_ips None
                  (ip_addrs remote) of
             None \<Rightarrow> remote
           | Some (score, v4, best_sock) \<Rightarrow> from_parts (ea_id remote) [Ip best_sock])"

section \<open>Prefix scores\<close>

lemma fold_max_Max: "fold max xs a = Max (insert a (set xs))" for a :: nat
  by (metis Max.set_eq_fold list.simps(15))

lemma fold_max_upper: "x \<in> set xs \<Longrightarrow> x \<le> fold max xs a" for a :: nat
  by (simp add: fold_max_Max)

lemma fold_max_mem: "fold max xs a \<in> insert a (set xs)" for a :: nat
  unfolding fold_max_Max by (rule Max_in) simp_all

lemma best_prefix_score_upper: "l \<in> set locals \<Longrightarrow> common_prefix_bits ip l \<le> best_prefix_score ip locals"
  by (simp add: best_prefix_score_def fold_max_upper)

lemma best_prefix_score_attained:
  "locals \<noteq> [] \<Longrightarrow> \<exists>l \<in> set locals. best_prefix_score ip locals = common_prefix_bits ip l"
  using fold_max_mem [of "map (common_prefix_bits ip) locals" 0]
    fold_max_upper [of "common_prefix_bits ip (hd locals)" "map (common_prefix_bits ip) locals" 0]
  by (auto simp: best_prefix_score_def)

lemma clz_from_le: "clz_from k w \<le> k"
  by (induction k) auto

lemma le_clz_from: "n \<le> clz_from k w \<longleftrightarrow> n \<le> k \<and> (\<forall>i. k - n \<le> i \<and> i < k \<longrightarrow> \<not> bit w i)"
proof (induction k arbitrary: n)
  case (Suc k)
  show ?case
  proof (cases n)
    case 0
    then show ?thesis by auto
  next
    case [simp]: (Suc m)
    have "(\<forall>i. k - m \<le> i \<and> i < Suc k \<longrightarrow> \<not> bit w i) \<longleftrightarrow>
        \<not> bit w k \<and> (\<forall>i. k - m \<le> i \<and> i < k \<longrightarrow> \<not> bit w i)" if "m \<le> k"
      using that by (auto simp: less_Suc_eq)
    then show ?thesis
      using Suc.IH [of m] by (cases "m \<le> k") auto
  qed
qed simp

lemma le_leading_zeros_xor:
  fixes a b :: "'a::len word"
  assumes "n \<le> LENGTH('a)"
  shows "n \<le> leading_zeros (a XOR b) \<longleftrightarrow> drop_bit (LENGTH('a) - n) a = drop_bit (LENGTH('a) - n) b"
proof -
  have "n \<le> leading_zeros (a XOR b) \<longleftrightarrow> (\<forall>i. LENGTH('a) - n \<le> i \<and> i < LENGTH('a) \<longrightarrow> bit a i = bit b i)"
    using assms by (auto simp: leading_zeros_def le_clz_from bit_xor_iff)
  also have "\<dots> \<longleftrightarrow> (\<forall>i. bit (drop_bit (LENGTH('a) - n) a) i = bit (drop_bit (LENGTH('a) - n) b) i)"
  proof
    assume *: "\<forall>i. LENGTH('a) - n \<le> i \<and> i < LENGTH('a) \<longrightarrow> bit a i = bit b i"
    show "\<forall>i. bit (drop_bit (LENGTH('a) - n) a) i = bit (drop_bit (LENGTH('a) - n) b) i"
    proof
      fix i
      show "bit (drop_bit (LENGTH('a) - n) a) i = bit (drop_bit (LENGTH('a) - n) b) i"
        using * [rule_format, of "LENGTH('a) - n + i"]
        by (cases "LENGTH('a) - n + i < LENGTH('a)") (auto simp: bit_drop_bit_eq dest: bit_imp_le_length)
    qed
  next
    assume *: "\<forall>i. bit (drop_bit (LENGTH('a) - n) a) i = bit (drop_bit (LENGTH('a) - n) b) i"
    have "bit a i = bit b i" if "LENGTH('a) - n \<le> i" for i
      using * [rule_format, of "i - (LENGTH('a) - n)"] that by (simp add: bit_drop_bit_eq)
    then show "\<forall>i. LENGTH('a) - n \<le> i \<and> i < LENGTH('a) \<longrightarrow> bit a i = bit b i" by simp
  qed
  also have "\<dots> \<longleftrightarrow> drop_bit (LENGTH('a) - n) a = drop_bit (LENGTH('a) - n) b"
    by (metis bit_eqI)
  finally show ?thesis .
qed

lemma common_prefix_bits_sym: "common_prefix_bits a b = common_prefix_bits b a"
  by (cases a; cases b) (simp_all add: xor.commute)

section \<open>The selection loop\<close>

definition cand_key :: "bool \<Rightarrow> candidate \<Rightarrow> nat \<times> bool" where
  "cand_key prefer_v4 c = (fst c, fst (snd c) = prefer_v4)"

lemma better_candidate_key: "better_candidate p c d \<longleftrightarrow> cand_key p d < cand_key p c"
  by (auto simp: better_candidate_def cand_key_def Let_def less_prod_def')

definition eligible :: "endpoint_addr \<Rightarrow> endpoint_addr \<Rightarrow> socket_addr list" where
  "eligible remote local =
     filter (\<lambda>s. local_only_mode_of local \<or> \<not> is_local_only_ip (sock_ip s)) (ip_addrs remote)"

lemma best_scan_Some:
  "best_scan p m ips (Some b) ss =
     first_max (cand_key p) (b # map (candidate_of ips) (filter (\<lambda>s. m \<or> \<not> is_local_only_ip (sock_ip s)) ss))"
proof (induction ss arbitrary: b)
  case (Cons s ss)
  let ?c = "candidate_of ips s"
  show ?case
  proof (cases "m \<or> \<not> is_local_only_ip (sock_ip s)")
    case True
    then show ?thesis
      using Cons.IH [of b] Cons.IH [of ?c]
      by (cases "cand_key p b < cand_key p ?c")
        (auto simp: Let_def better_candidate_key first_max_drop_second first_max_drop_first)
  next
    case False
    then show ?thesis using Cons.IH [of b] by simp
  qed
qed (simp add: first_max_def)

lemma best_scan_None:
  "best_scan p m ips None ss =
     first_max (cand_key p) (map (candidate_of ips) (filter (\<lambda>s. m \<or> \<not> is_local_only_ip (sock_ip s)) ss))"
  by (induction ss) (auto simp: best_scan_Some Let_def first_max_def)


lemma local_ips_of_nonempty: "ip_addrs local \<noteq> [] \<Longrightarrow> local_ips_of local \<noteq> []"
  by (auto simp: local_ips_of_def Let_def)

text \<open>The preference the selection maximises: the longest shared prefix, then the family.\<close>

definition dial_key :: "endpoint_addr \<Rightarrow> socket_addr \<Rightarrow> nat \<times> bool" where
  "dial_key local s =
     (best_prefix_score (sock_ip s) (local_ips_of local),
      is_ipv4 (sock_ip s) = prefer_v4_of (local_ips_of local))"

definition dial_choice :: "endpoint_addr \<Rightarrow> endpoint_addr \<Rightarrow> endpoint_addr" where
  "dial_choice remote local =
     (case (if ip_addrs local = [] then None else first_max (dial_key local) (eligible remote local)) of
        None \<Rightarrow> remote
      | Some s \<Rightarrow> from_parts (ea_id remote) [Ip s])"

lemma best_endpoint_dial_choice: "best_endpoint_addr_for_local remote local = dial_choice remote local"
proof -
  let ?ips = "local_ips_of local"
  have "cand_key (prefer_v4_of ?ips) \<circ> candidate_of ?ips = dial_key local"
    by (rule ext) (simp add: cand_key_def candidate_of_def dial_key_def)
  then show ?thesis
    by (auto simp: best_endpoint_addr_for_local_def dial_choice_def best_scan_None first_max_map
        eligible_def Let_def candidate_of_def split: option.splits)
qed

lemma dial_choice_cases:
  obtains (whole) "dial_choice remote local = remote" "ip_addrs local = [] \<or> eligible remote local = []"
  | (one) s where "dial_choice remote local = from_parts (ea_id remote) [Ip s]"
      "s \<in> set (eligible remote local)"
      "\<forall>y \<in> set (eligible remote local). dial_key local y \<le> dial_key local s" "ip_addrs local \<noteq> []"
proof (cases "if ip_addrs local = [] then None else first_max (dial_key local) (eligible remote local)")
  case None
  then show ?thesis by (intro whole) (auto simp: dial_choice_def split: if_splits)
next
  case (Some s)
  then show ?thesis
    by (intro one [of s]) (auto simp: dial_choice_def split: if_splits dest: first_max_SomeD)
qed

lemma best_endpoint_id [simp]: "ea_id (best_endpoint_addr_for_local remote local) = ea_id remote"
  by (simp add: best_endpoint_dial_choice dial_choice_def from_parts_def split: option.split)

section \<open>Interface marks and filtering\<close>

lemma note_ip_fold:
  "fold (note_ip b) ips m ip =
     (if ip \<in> set ips then Some (case m ip of None \<Rightarrow> b | Some c \<Rightarrow> c \<and> b) else m ip)"
  by (induction ips arbitrary: m) (auto simp: note_ip_def split: option.splits)

lemma local_only_fold:
  "fold (\<lambda>f. fold (note_ip (iface_local_only f)) (iface_ips f)) fs m ip =
     (if (\<exists>f \<in> set fs. ip \<in> set (iface_ips f))
      then Some ((case m ip of None \<Rightarrow> True | Some c \<Rightarrow> c)
                 \<and> (\<forall>f \<in> set fs. ip \<in> set (iface_ips f) \<longrightarrow> iface_local_only f))
      else m ip)"
proof (induction fs arbitrary: m)
  case (Cons f fs)
  let ?m = "fold (note_ip (iface_local_only f)) (iface_ips f) m"
  have "?m ip = (if ip \<in> set (iface_ips f)
      then Some (case m ip of None \<Rightarrow> iface_local_only f | Some c \<Rightarrow> c \<and> iface_local_only f) else m ip)"
    by (rule note_ip_fold)
  then show ?case using Cons.IH [of ?m] by (auto split: option.splits)
qed simp

lemma local_only_interface_ip_map_spec:
  "marked_local (local_only_interface_ip_map ifaces) ip \<longleftrightarrow>
     (\<exists>f \<in> set ifaces. ip \<in> set (iface_ips f))
     \<and> (\<forall>f \<in> set ifaces. ip \<in> set (iface_ips f) \<longrightarrow> iface_local_only f)"
  by (simp add: marked_local_def local_only_interface_ip_map_def local_only_fold)

lemma ea_is_empty_from_parts [simp]: "ea_is_empty (from_parts i ts) \<longleftrightarrow> ts = []"
  by (simp add: ea_is_empty_def from_parts_def)

lemma set_ip_addrs_filter_advertisable:
  "s \<in> set (ip_addrs (filter_advertisable_endpoint_addr_with_map a m)) \<longleftrightarrow>
     s \<in> set (ip_addrs a) \<and> \<not> is_local_only_ip (sock_ip s) \<and> \<not> marked_local m (sock_ip s)"
  by (auto simp: filter_advertisable_endpoint_addr_with_map_def)

lemma set_relay_urls_filter_advertisable:
  "u \<in> set (relay_urls (filter_advertisable_endpoint_addr_with_map a m)) \<longleftrightarrow> u \<in> set (relay_urls a)"
  by (auto simp: filter_advertisable_endpoint_addr_with_map_def)

lemma display_scan_reference:
  "display_scan skip b ss =
     (case find (\<lambda>ip. \<not> skip ip \<and> is_ipv4 ip) (map sock_ip ss) of
        Some ip \<Rightarrow> Some ip
      | None \<Rightarrow> (case b of Some ip \<Rightarrow> Some ip | None \<Rightarrow> find (\<lambda>ip. \<not> skip ip) (map sock_ip ss)))"
  by (induction ss arbitrary: b) (auto simp: Let_def split: option.splits)

section \<open>Address blocks\<close>

lemma drop_bit_u32_eq: "drop_bit k (a::u32) = drop_bit k b \<longleftrightarrow> unat a div 2 ^ k = unat b div 2 ^ k"
  by (simp only: word_unat_eq_iff unat_drop_bit_eq) (simp only: drop_bit_eq_div)

lemma ipv4_prefix_unat:
  "n \<le> 32 \<Longrightarrow> n \<le> common_prefix_bits (IpV4 a) (IpV4 b)
      \<longleftrightarrow> unat a div 2 ^ (32 - n) = unat b div 2 ^ (32 - n)"
  using le_leading_zeros_xor [of n a b] by (simp add: drop_bit_u32_eq)

lemma unat_u32_bound: "unat (a::u32) < 4294967296"
  using unsigned_less [of a] by simp

lemma ipv4_octet0: "ipv4_octet 0 a = unat a div 16777216"
  using unat_u32_bound [of a] by (simp add: ipv4_octet_def)

lemma div_split: "x div (k * m) = x div k div m" for x :: nat
  by (rule div_mult2_eq)

lemma ipv4_blocks_arith:
  "unat (a::u32) div 65536 = 43518 \<longleftrightarrow> unat a div 16777216 = 169 \<and> unat a div 65536 mod 256 = 254"
  "unat (a::u32) div 268435456 = 14 \<longleftrightarrow> 224 \<le> unat a div 16777216 \<and> unat a div 16777216 \<le> 239"
proof -
  have "y = 43518 \<longleftrightarrow> y div 256 = 169 \<and> y mod 256 = 254" for y :: nat
    using div_mult_mod_eq [of y 256] by (intro iffI) (simp, linarith)
  then show "unat a div 65536 = 43518 \<longleftrightarrow> unat a div 16777216 = 169 \<and> unat a div 65536 mod 256 = 254"
    using div_split [of "unat a" 65536 256] by simp
  have "y div 16 = 14 \<longleftrightarrow> 224 \<le> y \<and> y \<le> 239" for y :: nat by auto
  then show "unat a div 268435456 = 14 \<longleftrightarrow> 224 \<le> unat a div 16777216 \<and> unat a div 16777216 \<le> 239"
    using div_split [of "unat a" 16777216 16] by simp
qed

section \<open>Properties\<close>

text \<open>C40. The single address that is dialled: the scan of \<open>best_endpoint_addr_for_local\<close> with its
  running best candidate computes the reference choice, the first address of the remote (among
  those that are not local only, unless the local endpoint has local-only addresses alone) that
  maximises the pair of longest shared prefix and preferred family; with no local address, or no
  such remote address, the whole remote address is kept.\<close>

theorem best_endpoint_addr_reference:
  "best_endpoint_addr_for_local remote local = dial_choice remote local"
  by (rule best_endpoint_dial_choice)

text \<open>When the local endpoint and the remote both have a routable IP address, the dialled
  address is one routable address of the remote, and no routable address of the remote shares a
  longer prefix with the local addresses.\<close>

theorem best_endpoint_routable:
  assumes "l \<in> set (ip_addrs local)" and "\<not> is_local_only_ip (sock_ip l)"
    and "r \<in> set (ip_addrs remote)" and "\<not> is_local_only_ip (sock_ip r)"
  shows "\<exists>s \<in> set (ip_addrs remote).
           best_endpoint_addr_for_local remote local = from_parts (ea_id remote) [Ip s]
           \<and> \<not> is_local_only_ip (sock_ip s)
           \<and> best_prefix_score (sock_ip r) (local_ips_of local)
               \<le> best_prefix_score (sock_ip s) (local_ips_of local)"
proof -
  have mode: "\<not> local_only_mode_of local"
    using assms(1,2) by (auto simp: local_only_mode_of_def filter_empty_conv)
  with assms(3,4) have r: "r \<in> set (eligible remote local)" by (simp add: eligible_def)
  have "ip_addrs local \<noteq> []" using assms(1) by auto
  with r obtain s where s: "dial_choice remote local = from_parts (ea_id remote) [Ip s]"
      "s \<in> set (eligible remote local)" "dial_key local r \<le> dial_key local s"
    by (cases rule: dial_choice_cases [of remote local]) auto
  then have "best_prefix_score (sock_ip r) (local_ips_of local) \<le> best_prefix_score (sock_ip s) (local_ips_of local)"
    by (auto simp: dial_key_def)
  with s(1,2) mode show ?thesis
    unfolding best_endpoint_dial_choice by (auto simp: eligible_def)
qed

theorem best_endpoint_routable_witness:
  "\<exists>s \<in> set (ip_addrs (from_parts (EndpointId 2) [Ip (SockV4 0xC0A80114 7777)])).
     best_endpoint_addr_for_local (from_parts (EndpointId 2) [Ip (SockV4 0xC0A80114 7777)])
       (from_parts (EndpointId 1) [Ip (SockV4 0xC0A8010A 7777)]) = from_parts (EndpointId 2) [Ip s]
     \<and> \<not> is_local_only_ip (sock_ip s)"
  using best_endpoint_routable [of "SockV4 0xC0A8010A 7777" "from_parts (EndpointId 1) [Ip (SockV4 0xC0A8010A 7777)]"
      "SockV4 0xC0A80114 7777" "from_parts (EndpointId 2) [Ip (SockV4 0xC0A80114 7777)]"]
  by (simp add: is_local_only_ip_def ipv4_octet_def ipv4_is_link_local_def)

text \<open>\<open>common_prefix_bits\<close> counts the shared leading bits: it is at least \<open>n\<close> exactly when the
  addresses agree after dropping all but their first \<open>n\<close> bits, for both families, and it is 0
  across families.\<close>

theorem common_prefix_bits_prefix:
  assumes "n \<le> 32" and "m \<le> 128"
  shows "(n \<le> common_prefix_bits (IpV4 a) (IpV4 b) \<longleftrightarrow> drop_bit (32 - n) a = drop_bit (32 - n) b)
    \<and> (m \<le> common_prefix_bits (IpV6 c) (IpV6 d) \<longleftrightarrow> drop_bit (128 - m) c = drop_bit (128 - m) d)
    \<and> common_prefix_bits (IpV4 a) (IpV6 c) = 0"
  using assms le_leading_zeros_xor [of n a b] le_leading_zeros_xor [of m c d] by simp_all

theorem common_prefix_bits_prefix_witness:
  "24 \<le> common_prefix_bits (IpV4 0xC0A80114) (IpV4 0xC0A8010A)
   \<and> \<not> 28 \<le> common_prefix_bits (IpV4 0xC0A80114) (IpV4 0xC0A8010A)
   \<and> 127 \<le> common_prefix_bits (IpV6 2) (IpV6 3)"
  using common_prefix_bits_prefix [of 24 127 "0xC0A80114" "0xC0A8010A" 2 3]
    common_prefix_bits_prefix [of 28 127 "0xC0A80114" "0xC0A8010A" 2 3]
  by simp

text \<open>\<open>is_local_only_ip\<close> on IPv4 is membership in one of the blocks 127.0.0.0/8, 224.0.0.0/4,
  169.254.0.0/16, or the unspecified address.\<close>

theorem is_local_only_ipv4_blocks:
  "is_local_only_ip (IpV4 a) \<longleftrightarrow>
     8 \<le> common_prefix_bits (IpV4 a) (IpV4 0x7F000000)
     \<or> 4 \<le> common_prefix_bits (IpV4 a) (IpV4 0xE0000000)
     \<or> 16 \<le> common_prefix_bits (IpV4 a) (IpV4 0xA9FE0000)
     \<or> a = 0"
proof -
  have oct1: "ipv4_octet (Suc 0) a = unat a div 65536 mod 256"
    by (simp add: ipv4_octet_def)
  show ?thesis
    using ipv4_blocks_arith [of a]
    by (simp add: is_local_only_ip_def ipv4_is_link_local_def ipv4_prefix_unat ipv4_octet0 oct1
        del: common_prefix_bits.simps) blast
qed

text \<open>What a node advertises: every relay URL, and exactly the IP sockets whose address is
  neither local only by its class nor carried by local-only interfaces alone (loopback, down, or
  a virtual bridge by name).\<close>

theorem filter_advertisable_exact:
  "set (relay_urls (filter_advertisable_endpoint_addr ifaces addr)) = set (relay_urls addr) \<and>
   (s \<in> set (ip_addrs (filter_advertisable_endpoint_addr ifaces addr)) \<longleftrightarrow>
      s \<in> set (ip_addrs addr) \<and> \<not> is_local_only_ip (sock_ip s)
      \<and> \<not> ((\<exists>f \<in> set ifaces. sock_ip s \<in> set (iface_ips f))
           \<and> \<not> (\<exists>f \<in> set ifaces. sock_ip s \<in> set (iface_ips f) \<and> \<not> iface_local_only f)))"
  by (auto simp: filter_advertisable_endpoint_addr_def set_ip_addrs_filter_advertisable
      set_relay_urls_filter_advertisable local_only_interface_ip_map_spec)

end
