(* ===== verification/Domain_Node.thy ===== *)
theory Domain_Node
  imports Endpoint_Addr
begin

text \<open>
  \<open>src/domain/node.rs\<close>, \<open>src/domain/client.rs\<close> and \<open>src/domain/merge.rs\<close>: the node record, the
  client marker and status records, the merge of two records of one node and the removal of
  duplicate names. The results say which of two records wins, which addresses survive, that a
  history of updates is independent of their order, and which node keeps a contested name.
\<close>

section \<open>Records\<close>

record node =
  node_id :: endpoint_id
  node_invitor :: endpoint_id
  node_addr :: endpoint_addr
  node_domain :: string
  node_services :: "(string \<times> u32) list"   \<comment> \<open>the \<open>BTreeMap\<close>, in key order\<close>
  last_heartbeat :: u64

definition service_marker_client :: string where
  "service_marker_client = ''_p2p_ddns_client''"

definition service_value_client :: u32 where
  "service_value_client = 1"

definition has_client_marker :: "node \<Rightarrow> bool" where
  "has_client_marker n = bt_contains_key service_marker_client (node_services n)"

definition is_daemon_node :: "node \<Rightarrow> bool" where
  "is_daemon_node n = (\<not> has_client_marker n)"

record hosts_sync_status =
  hs_enabled :: bool
  hs_path :: "string option"
  hs_cleanup_on_shutdown :: bool
  hs_last_success :: "u64 option"
  hs_last_cleanup :: "u64 option"
  hs_last_error :: "string option"

record daemon_status =
  ds_running :: bool
  ds_paused :: bool
  ds_node_count :: nat
  ds_client_count :: nat
  ds_uptime_seconds :: u64
  ds_my_domain :: string
  ds_my_addr :: string
  ds_hosts_sync :: hosts_sync_status

record client_permissions =
  can_query :: bool
  can_add_node :: bool
  can_remove_node :: bool
  can_control :: bool

record client_info =
  ci_connected_at :: u64
  ci_ticket_used :: string
  ci_client_name :: "string option"
  ci_permissions :: client_permissions

text \<open>\<open>Node\<close> compares by its id alone.\<close>

definition node_eq :: "node \<Rightarrow> node \<Rightarrow> bool" where
  "node_eq a b = (node_id a = node_id b)"

section \<open>Merging\<close>

definition has_ip_addr :: "endpoint_addr \<Rightarrow> bool" where
  "has_ip_addr a = (ip_addrs a \<noteq> [])"

definition push_new :: "'a \<Rightarrow> 'a list \<Rightarrow> 'a list" where
  "push_new x xs = (if x \<in> set xs then xs else xs @ [x])"

definition merge_addr :: "endpoint_addr \<Rightarrow> endpoint_addr \<Rightarrow> endpoint_addr" where
  "merge_addr existing incoming =
     (if ea_id existing \<noteq> ea_id incoming then incoming
      else
        let ips = fold push_new (ip_addrs existing) [];
            ips = fold push_new (ip_addrs incoming) ips
        in if ips = [] then incoming else from_parts (ea_id existing) (map Ip ips))"

definition merge_node :: "node option \<Rightarrow> node \<Rightarrow> node \<times> bool" where
  "merge_node existing incoming =
     (case existing of
        None \<Rightarrow> (incoming, True)
      | Some existing \<Rightarrow>
          let should_take_incoming = last_heartbeat existing < last_heartbeat incoming;
              addr = (if should_take_incoming \<and> has_ip_addr (node_addr incoming)
                      then node_addr incoming
                      else merge_addr (node_addr existing) (node_addr incoming));
              merged = (if should_take_incoming then incoming\<lparr>node_addr := addr\<rparr>
                        else existing\<lparr>node_addr := addr\<rparr>)
          in (merged, True))"

definition note_domain :: "node \<Rightarrow> (string \<rightharpoonup> endpoint_id \<times> u64) \<Rightarrow> (string \<rightharpoonup> endpoint_id \<times> u64)" where
  "note_domain n by_domain =
     (case by_domain (node_domain n) of
        None \<Rightarrow> by_domain(node_domain n \<mapsto> (node_id n, last_heartbeat n))
      | Some (best_id, best_heartbeat) \<Rightarrow>
          if best_heartbeat < last_heartbeat n
          then by_domain(node_domain n \<mapsto> (node_id n, last_heartbeat n))
          else by_domain)"

definition ids_to_remove_for_duplicate_domains :: "node list \<Rightarrow> endpoint_id list" where
  "ids_to_remove_for_duplicate_domains nodes =
     (let by_domain = fold note_domain nodes Map.empty
      in map node_id
           (filter (\<lambda>n. case by_domain (node_domain n) of
                          Some (best_id, hb) \<Rightarrow> best_id \<noteq> node_id n
                        | None \<Rightarrow> False) nodes))"

section \<open>Lemmas on merging\<close>

lemma push_new_fold: "set (fold push_new xs ys) = set xs \<union> set ys \<and> (fold push_new xs ys = [] \<longleftrightarrow> xs = [] \<and> ys = [])"
  by (induction xs arbitrary: ys) (auto simp: push_new_def)

lemma merge_addr_id [simp]: "ea_id (merge_addr existing incoming) = ea_id incoming"
  by (simp add: merge_addr_def Let_def)

lemma merge_addr_ok: "ea_ok incoming \<Longrightarrow> ea_ok (merge_addr existing incoming)"
  by (simp add: merge_addr_def Let_def)

lemma merge_addr_ips:
  "ea_id existing = ea_id incoming \<Longrightarrow>
     set (ip_addrs (merge_addr existing incoming)) = set (ip_addrs existing) \<union> set (ip_addrs incoming)"
  by (auto simp: merge_addr_def Let_def push_new_fold set_ip_addrs)

lemma merge_addr_relays:
  "ea_id existing = ea_id incoming \<Longrightarrow>
     relay_urls (merge_addr existing incoming) =
       (if has_ip_addr existing \<or> has_ip_addr incoming then [] else relay_urls incoming)"
  by (auto simp: merge_addr_def Let_def push_new_fold has_ip_addr_def relay_urls_Nil_iff)

lemma merge_addr_idem:
  assumes "ea_ok a" and "relay_urls a = []"
  shows "merge_addr a a = a"
proof (cases "ip_addrs a = []")
  case True
  then show ?thesis by (simp add: merge_addr_def)
next
  case False
  have "t \<in> Ip ` set (ip_addrs a)" if "t \<in> set (ea_addrs a)" for t
  proof (cases t)
    case (Relay u)
    with that assms(2) show ?thesis by (simp add: relay_urls_Nil_iff)
  next
    case (Ip x)
    with that show ?thesis by (simp add: set_ip_addrs)
  qed
  then have "Ip ` set (ip_addrs a) = set (ea_addrs a)"
    by (auto simp: set_ip_addrs)
  with False assms(1) show ?thesis
    by (intro ea_eqI) (auto simp: merge_addr_def Let_def push_new_fold)
qed

lemma merge_node_None [simp]: "merge_node None n = (n, True)"
  by (simp add: merge_node_def)

lemma merge_node_fields:
  "last_heartbeat (fst (merge_node (Some e) n)) = max (last_heartbeat e) (last_heartbeat n)"
  "last_heartbeat e < last_heartbeat n \<Longrightarrow>
     fst (merge_node (Some e) n) = n\<lparr>node_addr := node_addr (fst (merge_node (Some e) n))\<rparr>"
  "\<not> last_heartbeat e < last_heartbeat n \<Longrightarrow>
     fst (merge_node (Some e) n) = e\<lparr>node_addr := merge_addr (node_addr e) (node_addr n)\<rparr>"
  by (auto simp: merge_node_def Let_def max_def)

lemma merge_node_id:
  "node_id e = node_id n \<Longrightarrow> node_id (fst (merge_node (Some e) n)) = node_id n"
  by (simp add: merge_node_def Let_def)

lemma merge_node_id_opt:
  "(\<And>e. existing = Some e \<Longrightarrow> node_id e = node_id n) \<Longrightarrow> node_id (fst (merge_node existing n)) = node_id n"
  by (cases existing) (simp_all add: merge_node_id)

lemma merge_node_daemon:
  "(\<And>e. existing = Some e \<Longrightarrow> is_daemon_node e) \<Longrightarrow> is_daemon_node n \<Longrightarrow>
     is_daemon_node (fst (merge_node existing n))"
  by (cases existing) (simp_all add: merge_node_def Let_def is_daemon_node_def has_client_marker_def)

lemma merge_node_addr_newer:
  "last_heartbeat e < last_heartbeat n \<Longrightarrow> has_ip_addr (node_addr n) \<Longrightarrow>
     node_addr (fst (merge_node (Some e) n)) = node_addr n"
  by (simp add: merge_node_def Let_def)

lemma merge_node_addr_other:
  "\<not> (last_heartbeat e < last_heartbeat n \<and> has_ip_addr (node_addr n)) \<Longrightarrow>
     node_addr (fst (merge_node (Some e) n)) = merge_addr (node_addr e) (node_addr n)"
  by (auto simp: merge_node_def Let_def)


section \<open>Histories\<close>

text \<open>What the handlers do with successive reports about one node: look up, merge, insert.\<close>

definition merge_history :: "node list \<Rightarrow> node option" where
  "merge_history ns = fold (\<lambda>n acc. Some (fst (merge_node acc n))) ns None"

text \<open>Everything a record says except its address.\<close>

definition node_ident :: "node \<Rightarrow> endpoint_id \<times> endpoint_id \<times> string \<times> (string \<times> u32) list \<times> u64" where
  "node_ident n = (node_id n, node_invitor n, node_domain n, node_services n, last_heartbeat n)"

lemma merge_node_ident:
  "node_ident (fst (merge_node (Some e) n)) =
     (if last_heartbeat e < last_heartbeat n then node_ident n else node_ident e)"
  by (simp add: merge_node_def Let_def node_ident_def)

lemma merge_history_snoc:
  "merge_history (ns @ [n]) = Some (fst (merge_node (merge_history ns) n))"
  by (simp add: merge_history_def)

lemma merge_history_ident:
  "map_option node_ident (merge_history ns) = map_option node_ident (first_max last_heartbeat ns)"
proof (induction ns rule: rev_induct)
  case (snoc n ns)
  show ?case
  proof (cases "first_max last_heartbeat ns")
    case None
    then have "ns = []" by simp
    then show ?thesis by (simp add: merge_history_def first_max_def)
  next
    case (Some b)
    with snoc obtain e where e: "merge_history ns = Some e" "node_ident e = node_ident b" by auto
    then have "last_heartbeat e = last_heartbeat b" by (simp add: node_ident_def)
    with e Some show ?thesis by (simp add: merge_history_snoc first_max_snoc merge_node_ident)
  qed
qed (simp add: merge_history_def)

lemma merge_addr_ips_sub:
  "set (ip_addrs (merge_addr a b)) \<subseteq> set (ip_addrs a) \<union> set (ip_addrs b)"
  by (cases "ea_id a = ea_id b") (simp add: merge_addr_ips, simp add: merge_addr_def)

lemma merge_node_ips_sub:
  "set (ip_addrs (node_addr (fst (merge_node (Some e) n)))) \<subseteq> set (ip_addrs (node_addr e)) \<union> set (ip_addrs (node_addr n))"
  using merge_addr_ips_sub by (auto simp: merge_node_def Let_def)

section \<open>Duplicate names\<close>

lemma note_domain_other: "node_domain n \<noteq> d \<Longrightarrow> note_domain n m d = m d"
  by (auto simp: note_domain_def split: option.splits)

lemma fold_note_domain:
  "fold note_domain ns Map.empty d =
     map_option (\<lambda>n. (node_id n, last_heartbeat n))
       (first_max last_heartbeat (filter (\<lambda>n. node_domain n = d) ns))"
proof (induction ns rule: rev_induct)
  case (snoc n ns)
  show ?case
  proof (cases "node_domain n = d")
    case True
    with snoc show ?thesis
      by (auto simp: note_domain_def first_max_snoc split: option.splits)
  next
    case False
    with snoc show ?thesis by (simp add: note_domain_other)
  qed
qed simp

lemma ids_to_remove_iff:
  assumes "distinct (map node_id nodes)" and "n \<in> set nodes"
  shows "node_id n \<in> set (ids_to_remove_for_duplicate_domains nodes) \<longleftrightarrow>
    first_max last_heartbeat (filter (\<lambda>m. node_domain m = node_domain n) nodes) \<noteq> Some n"
proof -
  have inj: "inj_on node_id (set nodes)" using assms(1) by (simp add: distinct_map)
  let ?best = "\<lambda>n. first_max last_heartbeat (filter (\<lambda>m. node_domain m = node_domain n) nodes)"
  have best: "\<exists>b \<in> set nodes. ?best x = Some b" if "x \<in> set nodes" for x
  proof -
    have "filter (\<lambda>m. node_domain m = node_domain x) nodes \<noteq> []"
      using that by (auto simp: filter_empty_conv)
    then obtain b where "?best x = Some b" using first_max_ex by blast
    with first_max_SomeD [OF this] show ?thesis by auto
  qed
  have cs: "(case map_option (\<lambda>n. (node_id n, last_heartbeat n)) r of
        None \<Rightarrow> False | Some (i, h) \<Rightarrow> i \<noteq> j) \<longleftrightarrow> (\<exists>b. r = Some b \<and> node_id b \<noteq> j)" for r j
    by (cases r) auto
  have "node_id n \<in> set (ids_to_remove_for_duplicate_domains nodes) \<longleftrightarrow>
      (\<exists>x \<in> set nodes. node_id x = node_id n \<and> (\<exists>b. ?best x = Some b \<and> node_id b \<noteq> node_id x))"
    unfolding ids_to_remove_for_duplicate_domains_def Let_def fold_note_domain cs
    by (auto simp: image_iff)
  also have "\<dots> \<longleftrightarrow> (\<exists>b. ?best n = Some b \<and> node_id b \<noteq> node_id n)"
    using assms(2) inj by (auto dest: inj_onD)
  also have "\<dots> \<longleftrightarrow> ?best n \<noteq> Some n"
    using best [OF assms(2)] inj assms(2) by (auto dest: inj_onD)
  finally show ?thesis .
qed

section \<open>Properties\<close>

text \<open>C28. Merging reports about one node is independent of the order in which they arrive: with
  pairwise different heartbeats, two histories of the same reports agree on the node's id,
  invitor, name, services and heartbeat, which are those of the report with the greatest
  heartbeat.\<close>

theorem merge_history_order_independent:
  assumes "set ns = set ms" and "inj_on last_heartbeat (set ns)" and "b \<in> set ns"
    and "\<forall>n \<in> set ns. last_heartbeat n \<le> last_heartbeat b"
  shows "map_option node_ident (merge_history ns) = Some (node_ident b)
    \<and> map_option node_ident (merge_history ms) = Some (node_ident b)"
proof -
  have "first_max last_heartbeat xs = Some b" if "set xs = set ns" for xs
  proof -
    have "xs \<noteq> []" using that assms(3) by auto
    then obtain c where c: "first_max last_heartbeat xs = Some c"
      using first_max_ex by blast
    with first_max_SomeD [OF this] that assms have "last_heartbeat c = last_heartbeat b"
      by (metis order_antisym)
    with c first_max_SomeD [OF c] that assms(2,3) show ?thesis by (auto dest: inj_onD)
  qed
  with assms(1) show ?thesis by (simp add: merge_history_ident)
qed

definition sample_node :: "256 word \<Rightarrow> u32 \<Rightarrow> string \<Rightarrow> u64 \<Rightarrow> node" where
  "sample_node i ip name hb =
     \<lparr>node_id = EndpointId i, node_invitor = EndpointId i,
      node_addr = from_parts (EndpointId i) [Ip (SockV4 ip 7777)], node_domain = name,
      node_services = [], last_heartbeat = hb\<rparr>"

theorem merge_history_order_independent_witness:
  "map_option node_ident (merge_history [sample_node 1 1 ''a'' 10, sample_node 1 2 ''b'' 30, sample_node 1 3 ''c'' 20])
     = Some (node_ident (sample_node 1 2 ''b'' 30))
   \<and> map_option node_ident (merge_history [sample_node 1 3 ''c'' 20, sample_node 1 1 ''a'' 10, sample_node 1 2 ''b'' 30])
     = Some (node_ident (sample_node 1 2 ''b'' 30))"
  by (rule merge_history_order_independent) (auto simp: sample_node_def)

text \<open>The address of a merged record: a strictly newer report that carries an IP address
  replaces the known address, so an old DHCP lease does not linger; in every other case, for two
  reports under one endpoint id, the IP addresses are exactly the union of both.\<close>

theorem merge_node_address:
  assumes "ea_id (node_addr e) = ea_id (node_addr n)"
  shows "(last_heartbeat e < last_heartbeat n \<and> has_ip_addr (node_addr n) \<longrightarrow>
           node_addr (fst (merge_node (Some e) n)) = node_addr n)
    \<and> (\<not> (last_heartbeat e < last_heartbeat n \<and> has_ip_addr (node_addr n)) \<longrightarrow>
           set (ip_addrs (node_addr (fst (merge_node (Some e) n))))
             = set (ip_addrs (node_addr e)) \<union> set (ip_addrs (node_addr n)))"
  using assms merge_node_addr_newer merge_node_addr_other merge_addr_ips by metis

theorem merge_node_address_witness:
  "node_addr (fst (merge_node (Some (sample_node 1 1 ''a'' 10)) (sample_node 1 2 ''a'' 20)))
     = node_addr (sample_node 1 2 ''a'' 20)
   \<and> set (ip_addrs (node_addr (fst (merge_node (Some (sample_node 1 1 ''a'' 10)) (sample_node 1 2 ''a'' 10)))))
     = {SockV4 1 7777, SockV4 2 7777}"
  using merge_node_address [of "sample_node 1 1 ''a'' 10" "sample_node 1 2 ''a'' 20"]
    merge_node_address [of "sample_node 1 1 ''a'' 10" "sample_node 1 2 ''a'' 10"]
  by (auto simp: sample_node_def has_ip_addr_def)

text \<open>Who keeps a contested name: with pairwise different node ids, a node is spared by
  \<open>ids_to_remove_for_duplicate_domains\<close> exactly when it is the first node, in iteration order, of
  those with the greatest heartbeat under its name; so every name keeps exactly one node.\<close>

theorem duplicate_domains_keep_freshest:
  assumes "distinct (map node_id nodes)" and "n \<in> set nodes"
  shows "(node_id n \<notin> set (ids_to_remove_for_duplicate_domains nodes) \<longleftrightarrow>
            first_max last_heartbeat (filter (\<lambda>m. node_domain m = node_domain n) nodes) = Some n)
    \<and> (\<exists>!k. k \<in> set nodes \<and> node_domain k = node_domain n
            \<and> node_id k \<notin> set (ids_to_remove_for_duplicate_domains nodes))"
proof -
  let ?same = "filter (\<lambda>m. node_domain m = node_domain n) nodes"
  have "?same \<noteq> []" using assms(2) by (auto simp: filter_empty_conv)
  then obtain b where b: "first_max last_heartbeat ?same = Some b"
    using first_max_ex by blast
  have bn: "b \<in> set nodes" "node_domain b = node_domain n"
    using first_max_SomeD [OF b] by auto
  have keep: "node_id k \<notin> set (ids_to_remove_for_duplicate_domains nodes) \<longleftrightarrow> k = b"
    if "k \<in> set nodes" "node_domain k = node_domain n" for k
    using ids_to_remove_iff [OF assms(1) that(1)] that(2) b by auto
  with bn have "\<exists>!k. k \<in> set nodes \<and> node_domain k = node_domain n
      \<and> node_id k \<notin> set (ids_to_remove_for_duplicate_domains nodes)"
    by (intro ex1I [of _ b]) auto
  with ids_to_remove_iff [OF assms] show ?thesis by simp
qed

theorem duplicate_domains_keep_freshest_witness:
  "node_id (sample_node 2 2 ''dup'' 20) \<notin>
     set (ids_to_remove_for_duplicate_domains [sample_node 1 1 ''dup'' 10, sample_node 2 2 ''dup'' 20, sample_node 3 3 ''x'' 5])
   \<and> node_id (sample_node 1 1 ''dup'' 10) \<in>
     set (ids_to_remove_for_duplicate_domains [sample_node 1 1 ''dup'' 10, sample_node 2 2 ''dup'' 20, sample_node 3 3 ''x'' 5])"
  using duplicate_domains_keep_freshest [of "[sample_node 1 1 ''dup'' 10, sample_node 2 2 ''dup'' 20, sample_node 3 3 ''x'' 5]" "sample_node 2 2 ''dup'' 20"]
    duplicate_domains_keep_freshest [of "[sample_node 1 1 ''dup'' 10, sample_node 2 2 ''dup'' 20, sample_node 3 3 ''x'' 5]" "sample_node 1 1 ''dup'' 10"]
  by (simp add: sample_node_def first_max_def)

end
