(* ===== verification/Net_Ticket.thy ===== *)
theory Net_Ticket
  imports Domain_Node
begin

text \<open>
  \<open>src/domain/ticket.rs\<close>: the bootstrap ticket behind its lock, as a value that operations return
  updated. Base64 and postcard are not in the repository and are the fields of \<open>ticket_lib\<close>;
  random bytes are arguments.
\<close>

record ticket =
  t_topic :: topic_id
  t_rnum :: bytes
  t_invitor :: node

record ticket_lib =
  b64_encode :: "bytes \<Rightarrow> string"
  b64_decode :: "string \<Rightarrow> bytes option"
  pc_enc_ticket :: "ticket \<Rightarrow> bytes option"
  pc_dec_ticket :: "bytes \<Rightarrow> ticket option"

definition ticket_lib_ok :: "ticket_lib \<Rightarrow> bool" where
  "ticket_lib_ok L \<longleftrightarrow>
     (\<forall>b. b64_decode L (b64_encode L b) = Some b)
     \<and> (\<forall>t b. pc_enc_ticket L t = Some b \<longrightarrow> pc_dec_ticket L b = Some t)"

datatype ticket_error = TicketBase64 | TicketPostcard

section \<open>Operations\<close>

definition ticket_new :: "bytes \<Rightarrow> topic_id \<Rightarrow> topic_id option \<Rightarrow> node \<Rightarrow> ticket" where
  "ticket_new random_rnum random_topic topic n =
     \<lparr>t_topic = (case topic of None \<Rightarrow> random_topic | Some t \<Rightarrow> t), t_rnum = random_rnum, t_invitor = n\<rparr>"

definition ticket_from_parts :: "topic_id \<Rightarrow> bytes \<Rightarrow> node \<Rightarrow> ticket" where
  "ticket_from_parts topic rnum invitor = \<lparr>t_topic = topic, t_rnum = rnum, t_invitor = invitor\<rparr>"

definition ticket_validate :: "ticket \<Rightarrow> topic_id \<Rightarrow> bytes \<Rightarrow> bool" where
  "ticket_validate t topic rnum = (t_topic t = topic \<and> t_rnum t = rnum)"

definition ticket_flatten :: "ticket \<Rightarrow> topic_id \<times> bytes \<times> node" where
  "ticket_flatten t = (t_topic t, t_rnum t, t_invitor t)"

definition ticket_refresh_with :: "bytes \<Rightarrow> ticket \<Rightarrow> node \<Rightarrow> endpoint_addr \<Rightarrow> u64 \<Rightarrow> ticket" where
  "ticket_refresh_with random_rnum t invitor addr now =
     t\<lparr>t_rnum := random_rnum,
       t_invitor := invitor\<lparr>node_addr := merge_addr (node_addr (t_invitor t)) addr, last_heartbeat := now\<rparr>\<rparr>"

definition ticket_refresh_from :: "bytes \<Rightarrow> u64 \<Rightarrow> ticket \<Rightarrow> node \<Rightarrow> endpoint_addr \<Rightarrow> ticket" where
  "ticket_refresh_from random_rnum time_now t invitor addr = ticket_refresh_with random_rnum t invitor addr time_now"

definition ticket_to_string :: "ticket_lib \<Rightarrow> ticket \<Rightarrow> string" where
  "ticket_to_string L t =
     (case pc_enc_ticket L t of
        Some text \<Rightarrow> b64_encode L text
      | None \<Rightarrow> ''<ticket-encode-error>'')"

definition ticket_from_str :: "ticket_lib \<Rightarrow> string \<Rightarrow> (ticket_error, ticket) result" where
  "ticket_from_str L s =
     (case b64_decode L s of
        None \<Rightarrow> Inl TicketBase64
      | Some b \<Rightarrow> (case pc_dec_ticket L b of None \<Rightarrow> Inl TicketPostcard | Some t \<Rightarrow> Inr t))"

lemma ticket_flatten_from_parts [simp]:
  "ticket_flatten (ticket_from_parts topic rnum n) = (topic, rnum, n)"
  by (simp add: ticket_flatten_def ticket_from_parts_def)

lemma ticket_validate_own [simp]: "ticket_validate t (t_topic t) (t_rnum t)"
  by (simp add: ticket_validate_def)

section \<open>Properties\<close>

text \<open>A ticket that postcard can encode is printed to a string that parses back to the same
  ticket, which therefore validates against the original's topic and secret.\<close>

theorem ticket_roundtrip:
  assumes "ticket_lib_ok L" and "pc_enc_ticket L t = Some b"
  shows "ticket_from_str L (ticket_to_string L t) = Inr t \<and> ticket_validate t (t_topic t) (t_rnum t)"
  using assms by (simp add: ticket_lib_ok_def ticket_from_str_def ticket_to_string_def)

definition demo_ticket :: ticket where
  "demo_ticket = ticket_from_parts (TopicId 9) [1, 2, 3] (sample_node 1 1 ''a'' 10)"

definition demo_ticket_lib :: ticket_lib where
  "demo_ticket_lib =
     \<lparr>b64_encode = map (\<lambda>b. char_of (unat b)), b64_decode = (\<lambda>s. Some (map (\<lambda>c. of_nat (of_char c)) s)),
      pc_enc_ticket = (\<lambda>t. if t = demo_ticket then Some [1] else None),
      pc_dec_ticket = (\<lambda>b. if b = [1] then Some demo_ticket else None)\<rparr>"

lemma demo_ticket_lib_ok: "ticket_lib_ok demo_ticket_lib"
  by (auto simp: ticket_lib_ok_def demo_ticket_lib_def comp_def split: if_splits)

theorem ticket_roundtrip_witness:
  "ticket_from_str demo_ticket_lib (ticket_to_string demo_ticket_lib demo_ticket) = Inr demo_ticket"
  using ticket_roundtrip [OF demo_ticket_lib_ok, of demo_ticket "[1]"]
  by (simp add: demo_ticket_lib_def)

text \<open>Refreshing a ticket keeps its topic, replaces its secret, so the old secret is refused
  whenever the new random bytes differ from it, and leaves an invitor with the new heartbeat and,
  under one endpoint id, the IP addresses of the old invitor and the new address together.\<close>

theorem ticket_refresh:
  assumes "rnd \<noteq> t_rnum t" and "ea_id (node_addr (t_invitor t)) = ea_id addr"
  shows "\<not> ticket_validate (ticket_refresh_with rnd t n addr now) (t_topic t) (t_rnum t)
    \<and> ticket_validate (ticket_refresh_with rnd t n addr now) (t_topic t) rnd
    \<and> last_heartbeat (t_invitor (ticket_refresh_with rnd t n addr now)) = now
    \<and> set (ip_addrs (node_addr (t_invitor (ticket_refresh_with rnd t n addr now))))
        = set (ip_addrs (node_addr (t_invitor t))) \<union> set (ip_addrs addr)"
  using assms by (simp add: ticket_validate_def ticket_refresh_with_def merge_addr_ips)

theorem ticket_refresh_witness:
  "\<not> ticket_validate (ticket_refresh_with [4] demo_ticket (sample_node 1 1 ''a'' 10) (ea_new (EndpointId 1)) 20)
      (TopicId 9) [1, 2, 3]"
  using ticket_refresh [of "[4]" demo_ticket "ea_new (EndpointId 1)" "sample_node 1 1 ''a'' 10" 20]
  by (simp add: demo_ticket_def ticket_from_parts_def sample_node_def)

end
