(* ===== verification/Signed_Message.thy ===== *)
theory Signed_Message
  imports Domain_Node
begin

text \<open>
  \<open>src/domain/message.rs\<close>: the protocol messages, their signed envelope and its freshness window.
  The postcard codec and the Ed25519 keys of the iroh crate are not in the repository: they are the
  fields of \<open>wire_lib\<close>, an argument of the operations that use them. What the code relies on is
  \<open>wire_lib_ok\<close> (decoding inverts encoding, a signature verifies under its own key) and
  \<open>signatures_bind\<close> (a signature made for some bytes verifies no other bytes).
\<close>

section \<open>Messages\<close>

datatype message =
    Invited topic_id bytes endpoint_addr string "(string \<times> u32) list" endpoint_id
  | AboutMe endpoint_addr string "(string \<times> u32) list" endpoint_id
  | Introduce endpoint_id
  | SyncRequest "node list"
  | SyncResponse "node list"
  | Heartbeat
  | Left

datatype secret_key = SecretKey "256 word"

record signed_message =
  sm_from :: endpoint_id
  sm_data :: bytes
  sm_signature :: bytes
  sm_timestamp :: u64

record wire_lib =
  pc_enc_message :: "message \<Rightarrow> bytes option"
  pc_dec_message :: "bytes \<Rightarrow> message option"
  pc_enc_payload :: "bytes \<times> u64 \<Rightarrow> bytes option"
  pc_enc_signed :: "signed_message \<Rightarrow> bytes option"
  pc_dec_signed :: "bytes \<Rightarrow> signed_message option"
  key_public :: "secret_key \<Rightarrow> endpoint_id"
  key_sign :: "secret_key \<Rightarrow> bytes \<Rightarrow> bytes"
  key_verify :: "endpoint_id \<Rightarrow> bytes \<Rightarrow> bytes \<Rightarrow> bool"

definition wire_lib_ok :: "wire_lib \<Rightarrow> bool" where
  "wire_lib_ok L \<longleftrightarrow>
     (\<forall>m b. pc_enc_message L m = Some b \<longrightarrow> pc_dec_message L b = Some m)
     \<and> (\<forall>s b. pc_enc_signed L s = Some b \<longrightarrow> pc_dec_signed L b = Some s)
     \<and> (\<forall>k b. key_verify L (key_public L k) b (key_sign L k b))"

definition signatures_bind :: "wire_lib \<Rightarrow> bool" where
  "signatures_bind L \<longleftrightarrow>
     (\<forall>k b b'. key_verify L (key_public L k) b' (key_sign L k b) \<longrightarrow> b' = b)
     \<and> (\<forall>p q b. pc_enc_payload L p = Some b \<and> pc_enc_payload L q = Some b \<longrightarrow> p = q)"

section \<open>The envelope\<close>

datatype wire_error = EncodeError | DecodeError | SignatureError

definition or_err :: "'e \<Rightarrow> 'a option \<Rightarrow> ('e, 'a) result" where
  "or_err e r = (case r of None \<Rightarrow> Inl e | Some x \<Rightarrow> Inr x)"

definition signing_bytes :: "wire_lib \<Rightarrow> bytes \<Rightarrow> u64 \<Rightarrow> (wire_error, bytes) result" where
  "signing_bytes L data timestamp = or_err EncodeError (pc_enc_payload L (data, timestamp))"

definition sm_decode :: "wire_lib \<Rightarrow> bytes \<Rightarrow> (wire_error, signed_message) result" where
  "sm_decode L b = or_err DecodeError (pc_dec_signed L b)"

definition verify_and_decode_message ::
    "wire_lib \<Rightarrow> signed_message \<Rightarrow> (wire_error, endpoint_id \<times> message) result" where
  "verify_and_decode_message L sm =
     res_bind (signing_bytes L (sm_data sm) (sm_timestamp sm)) (\<lambda>sb.
       if \<not> key_verify L (sm_from sm) sb (sm_signature sm) then Inl SignatureError
       else res_bind (or_err DecodeError (pc_dec_message L (sm_data sm)))
              (\<lambda>m. Inr (sm_from sm, m)))"

definition max_age_secs :: u64 where "max_age_secs = 60"
definition max_future_skew_secs :: u64 where "max_future_skew_secs = 10"

definition is_fresh :: "signed_message \<Rightarrow> u64 \<Rightarrow> bool" where
  "is_fresh sm now =
     (if saturating_add now max_future_skew_secs < sm_timestamp sm then False
      else saturating_sub now (sm_timestamp sm) \<le> max_age_secs)"

definition sign_and_encode_with_timestamp ::
    "wire_lib \<Rightarrow> secret_key \<Rightarrow> message \<Rightarrow> u64 \<Rightarrow> (wire_error, bytes) result" where
  "sign_and_encode_with_timestamp L sk m timestamp =
     res_bind (or_err EncodeError (pc_enc_message L m)) (\<lambda>data.
     res_bind (signing_bytes L data timestamp) (\<lambda>sb.
       or_err EncodeError (pc_enc_signed L
         \<lparr>sm_from = key_public L sk, sm_data = data,
          sm_signature = key_sign L sk sb, sm_timestamp = timestamp\<rparr>)))"

text \<open>\<open>sign_and_encode\<close> stamps the message with the current time.\<close>

definition sign_and_encode :: "wire_lib \<Rightarrow> u64 \<Rightarrow> secret_key \<Rightarrow> message \<Rightarrow> (wire_error, bytes) result" where
  "sign_and_encode L time_now sk m = sign_and_encode_with_timestamp L sk m time_now"

lemma or_err_Inr [simp]: "or_err e r = Inr x \<longleftrightarrow> r = Some x"
  by (auto simp: or_err_def split: option.splits)

lemma sign_and_encode_InrD:
  assumes "sign_and_encode_with_timestamp L sk m ts = Inr enc"
  obtains data sb where "pc_enc_message L m = Some data" "pc_enc_payload L (data, ts) = Some sb"
    "pc_enc_signed L \<lparr>sm_from = key_public L sk, sm_data = data,
        sm_signature = key_sign L sk sb, sm_timestamp = ts\<rparr> = Some enc"
  using assms by (auto simp: sign_and_encode_with_timestamp_def res_bind_Inr_iff signing_bytes_def)

lemma verify_and_decode_InrD:
  assumes "verify_and_decode_message L sm = Inr (from, m)"
  shows "from = sm_from sm \<and> pc_dec_message L (sm_data sm) = Some m
    \<and> (\<exists>sb. pc_enc_payload L (sm_data sm, sm_timestamp sm) = Some sb
          \<and> key_verify L (sm_from sm) sb (sm_signature sm))"
  using assms
  by (auto simp: verify_and_decode_message_def res_bind_Inr_iff signing_bytes_def split: if_splits)

text \<open>A concrete library for the witnesses: it encodes the heartbeat alone.\<close>

definition demo_envelope :: signed_message where
  "demo_envelope = \<lparr>sm_from = EndpointId 7, sm_data = [5], sm_signature = [7, 5, 100], sm_timestamp = 100\<rparr>"

definition demo_lib :: wire_lib where
  "demo_lib =
     \<lparr>pc_enc_message = (\<lambda>m. if m = Heartbeat then Some [5] else None),
      pc_dec_message = (\<lambda>b. if b = [5] then Some Heartbeat else None),
      pc_enc_payload = (\<lambda>(d, t). if t = 100 then Some (d @ [100]) else if t = 101 then Some (d @ [101]) else None),
      pc_enc_signed = (\<lambda>s. if s = demo_envelope then Some [1] else None),
      pc_dec_signed = (\<lambda>b. if b = [1] then Some demo_envelope else None),
      key_public = (\<lambda>k. EndpointId 7),
      key_sign = (\<lambda>k b. 7 # b),
      key_verify = (\<lambda>p b s. s = 7 # b)\<rparr>"

lemma demo_lib_ok: "wire_lib_ok demo_lib" "signatures_bind demo_lib"
  by (auto simp: wire_lib_ok_def signatures_bind_def demo_lib_def split: if_splits)

section \<open>Properties\<close>

text \<open>A message that is signed and encoded is decoded and verified to the same message, from
  the signer's key, with the timestamp it was given.\<close>

theorem signed_message_roundtrip:
  assumes "wire_lib_ok L" and "sign_and_encode_with_timestamp L sk m ts = Inr enc"
  shows "\<exists>sm. sm_decode L enc = Inr sm \<and> sm_timestamp sm = ts
    \<and> verify_and_decode_message L sm = Inr (key_public L sk, m)"
proof -
  obtain data sb where d: "pc_enc_message L m = Some data" and p: "pc_enc_payload L (data, ts) = Some sb"
    and e: "pc_enc_signed L \<lparr>sm_from = key_public L sk, sm_data = data,
        sm_signature = key_sign L sk sb, sm_timestamp = ts\<rparr> = Some enc"
    using assms(2) by (rule sign_and_encode_InrD)
  from d e assms(1) have "pc_dec_message L data = Some m"
    and "pc_dec_signed L enc = Some \<lparr>sm_from = key_public L sk, sm_data = data,
        sm_signature = key_sign L sk sb, sm_timestamp = ts\<rparr>"
    and "key_verify L (key_public L sk) sb (key_sign L sk sb)"
    by (simp_all add: wire_lib_ok_def)
  with p show ?thesis
    by (auto simp: sm_decode_def verify_and_decode_message_def signing_bytes_def or_err_def)
qed

theorem signed_message_roundtrip_witness:
  "\<exists>sm. sm_decode demo_lib [1] = Inr sm \<and> sm_timestamp sm = 100
    \<and> verify_and_decode_message demo_lib sm = Inr (EndpointId 7, Heartbeat)"
  using signed_message_roundtrip [OF demo_lib_ok(1), of "SecretKey 0" Heartbeat 100 "[1]"]
  by (simp add: sign_and_encode_with_timestamp_def signing_bytes_def demo_lib_def or_err_def demo_envelope_def)

text \<open>The freshness window: an envelope is fresh exactly when its timestamp is at most 10
  seconds ahead of the clock (never past the greatest u64) and at most 60 seconds behind it.\<close>

theorem is_fresh_window:
  "is_fresh sm now \<longleftrightarrow>
     unat (sm_timestamp sm) \<le> min (unat now + 10) (2 ^ 64 - 1) \<and> unat now \<le> unat (sm_timestamp sm) + 60"
proof -
  have a: "sm_timestamp sm \<le> saturating_add now 10 \<longleftrightarrow>
      unat (sm_timestamp sm) \<le> min (unat now + 10) (2 ^ 64 - 1)"
    by (simp add: word_le_nat_alt unat_saturating_add)
  have b: "saturating_sub now (sm_timestamp sm) \<le> 60 \<longleftrightarrow> unat now \<le> unat (sm_timestamp sm) + 60"
    by (simp add: word_le_nat_alt) arith
  show ?thesis
    unfolding is_fresh_def max_age_secs_def max_future_skew_secs_def a [symmetric] b
    by (auto simp: not_less)
qed

text \<open>An envelope made by the holder of a key does not verify once its payload or its timestamp
  is changed: the signature covers both.\<close>

theorem tampered_envelope_rejected:
  assumes "signatures_bind L"
    and "pc_enc_payload L (sm_data sm, sm_timestamp sm) = Some sb"
    and "sm_from sm = key_public L sk" and "sm_signature sm = key_sign L sk sb"
    and "(data', ts') \<noteq> (sm_data sm, sm_timestamp sm)"
  shows "verify_and_decode_message L (sm\<lparr>sm_data := data', sm_timestamp := ts'\<rparr>) \<in> {Inl EncodeError, Inl SignatureError}"
proof (cases "pc_enc_payload L (data', ts')")
  case None
  then show ?thesis by (simp add: verify_and_decode_message_def signing_bytes_def or_err_def)
next
  case (Some sb')
  with assms(1,2,5) have "sb' \<noteq> sb" unfolding signatures_bind_def by metis
  with assms(1,3,4) have "\<not> key_verify L (sm_from sm) sb' (sm_signature sm)"
    unfolding signatures_bind_def by metis
  with Some show ?thesis by (simp add: verify_and_decode_message_def signing_bytes_def or_err_def)
qed

theorem tampered_envelope_rejected_witness:
  "verify_and_decode_message demo_lib (demo_envelope\<lparr>sm_data := [5], sm_timestamp := 101\<rparr>) \<in> {Inl EncodeError, Inl SignatureError}"
  by (rule tampered_envelope_rejected [OF demo_lib_ok(2), of _ "[5, 100]" "SecretKey 0"])
    (simp_all add: demo_lib_def demo_envelope_def)

end
