(* ===== verification/Redb_Storage.thy ===== *)
theory Redb_Storage
  imports Signed_Message
begin

text \<open>
  \<open>src/storage/mod.rs\<close>: the embedded database. redb is not in the repository; the model keeps what
  it documents and the code relies on, its data: three tables, each absent until a write
  transaction opens it, in key order, where a write transaction that is not committed changes
  nothing. Which of its calls fail is the argument \<open>fails\<close>, so that every \<open>?\<close> of the source is a
  branch. Codecs and key printing are the fields of \<open>store_lib\<close>.
\<close>

record storage =
  st_nodes :: "(string \<times> bytes) list option"
  st_secret :: "(string \<times> string) list option"
  st_config :: "(string \<times> bytes) list option"

definition storage_ok :: "storage \<Rightarrow> bool" where
  "storage_ok st \<longleftrightarrow> pred_option bt_ok (st_nodes st) \<and> pred_option bt_ok (st_secret st)
     \<and> pred_option bt_ok (st_config st)"

datatype table = NodesTable | SecretTable | ConfigTable

datatype db_call =
    BeginRead | BeginWrite | Commit
  | OpenTable table | FirstEntry table | RangeFrom table | EntryAt table string
  | GetKey table string | InsertKey table string | RemoveKey table string | DeleteTable table

datatype storage_error = DbError | CodecError | KeyError

record store_lib =
  id_string :: "endpoint_id \<Rightarrow> string"
  enc_node :: "node \<Rightarrow> bytes option"
  dec_node :: "bytes \<Rightarrow> node option"
  b64_enc_key :: "bytes \<Rightarrow> string"
  b64_dec_key :: "string \<Rightarrow> bytes option"
  sk_to_bytes :: "secret_key \<Rightarrow> bytes"
  sk_from_bytes :: "bytes \<Rightarrow> secret_key"
  sk_public :: "secret_key \<Rightarrow> endpoint_id"

definition store_lib_ok :: "store_lib \<Rightarrow> bool" where
  "store_lib_ok L \<longleftrightarrow>
     inj (id_string L)
     \<and> (\<forall>n b. enc_node L n = Some b \<longrightarrow> dec_node L b = Some n)
     \<and> (\<forall>b. b64_dec_key L (b64_enc_key L b) = Some b)
     \<and> (\<forall>k. length (sk_to_bytes L k) = 32 \<and> sk_from_bytes L (sk_to_bytes L k) = k)"

type_synonym faults = "db_call \<Rightarrow> bool"

section \<open>Transactions\<close>

definition try_call :: "faults \<Rightarrow> db_call \<Rightarrow> (storage_error, 'a) result \<Rightarrow> (storage_error, 'a) result" where
  "try_call fails c r = (if fails c then Inl DbError else r)"

definition write_txn ::
    "faults \<Rightarrow> storage \<Rightarrow> (storage_error, storage) result \<Rightarrow> storage \<times> (storage_error, unit) result" where
  "write_txn fails st body =
     (case try_call fails BeginWrite (res_bind body (\<lambda>st'. try_call fails Commit (Inr st'))) of
        Inl e \<Rightarrow> (st, Inl e)
      | Inr st' \<Rightarrow> (st', Inr ()))"

definition opened :: "('k \<times> 'v) list option \<Rightarrow> ('k \<times> 'v) list" where
  "opened t = (case t of None \<Rightarrow> [] | Some m \<Rightarrow> m)"

lemma opened_simps [simp]: "opened (Some m) = m" "opened None = []"
  by (simp_all add: opened_def)

section \<open>Nodes\<close>

fun decode_entries :: "store_lib \<Rightarrow> faults \<Rightarrow> (string \<times> bytes) list \<Rightarrow> (storage_error, node list) result" where
  "decode_entries L fails [] = Inr []"
| "decode_entries L fails ((k, v) # es) =
     try_call fails (EntryAt NodesTable k)
       (res_bind (or_err CodecError (dec_node L v)) (\<lambda>n.
        res_bind (decode_entries L fails es) (\<lambda>ns. Inr (n # ns))))"

definition load_nodes :: "store_lib \<Rightarrow> faults \<Rightarrow> storage \<Rightarrow> (storage_error, node list) result" where
  "load_nodes L fails st =
     try_call fails BeginRead
       (case st_nodes st of
          None \<Rightarrow> Inr []
        | Some m \<Rightarrow>
            if fails (OpenTable NodesTable) then Inr []
            else try_call fails (FirstEntry NodesTable)
                   (if m = [] then Inr []
                    else try_call fails (RangeFrom NodesTable) (decode_entries L fails m)))"

definition insert_node ::
    "store_lib \<Rightarrow> faults \<Rightarrow> node \<Rightarrow> (string \<times> bytes) list \<Rightarrow> (storage_error, (string \<times> bytes) list) result" where
  "insert_node L fails n m =
     res_bind (or_err CodecError (enc_node L n)) (\<lambda>v.
       try_call fails (InsertKey NodesTable (id_string L (node_id n)))
         (Inr (bt_insert (id_string L (node_id n)) v m)))"

definition save_node :: "store_lib \<Rightarrow> faults \<Rightarrow> storage \<Rightarrow> node \<Rightarrow> storage \<times> (storage_error, unit) result" where
  "save_node L fails st n =
     write_txn fails st
       (try_call fails (OpenTable NodesTable)
          (res_bind (insert_node L fails n (opened (st_nodes st))) (\<lambda>m. Inr (st\<lparr>st_nodes := Some m\<rparr>))))"

fun insert_nodes ::
    "store_lib \<Rightarrow> faults \<Rightarrow> node list \<Rightarrow> (string \<times> bytes) list \<Rightarrow> (storage_error, (string \<times> bytes) list) result" where
  "insert_nodes L fails [] m = Inr m"
| "insert_nodes L fails (n # ns) m = res_bind (insert_node L fails n m) (insert_nodes L fails ns)"

definition batch_save_nodes ::
    "store_lib \<Rightarrow> faults \<Rightarrow> storage \<Rightarrow> node list \<Rightarrow> storage \<times> (storage_error, unit) result" where
  "batch_save_nodes L fails st ns =
     write_txn fails st
       (try_call fails (OpenTable NodesTable)
          (res_bind (insert_nodes L fails ns (opened (st_nodes st))) (\<lambda>m. Inr (st\<lparr>st_nodes := Some m\<rparr>))))"

definition remove_node :: "store_lib \<Rightarrow> faults \<Rightarrow> storage \<Rightarrow> endpoint_id \<Rightarrow> storage \<times> (storage_error, unit) result" where
  "remove_node L fails st i =
     write_txn fails st
       (try_call fails (OpenTable NodesTable)
          (try_call fails (RemoveKey NodesTable (id_string L i))
             (Inr (st\<lparr>st_nodes := Some (bt_remove (id_string L i) (opened (st_nodes st)))\<rparr>))))"

section \<open>The secret key\<close>

definition save_secret :: "store_lib \<Rightarrow> faults \<Rightarrow> storage \<Rightarrow> secret_key \<Rightarrow> storage \<times> (storage_error, unit) result" where
  "save_secret L fails st sk =
     write_txn fails st
       (try_call fails (OpenTable SecretTable)
          (try_call fails (InsertKey SecretTable ''sk'')
             (Inr (st\<lparr>st_secret := Some (bt_insert ''sk'' (b64_enc_key L (sk_to_bytes L sk)) (opened (st_secret st)))\<rparr>))))"

definition load_secret ::
    "store_lib \<Rightarrow> faults \<Rightarrow> storage \<Rightarrow> (storage_error, (endpoint_id \<times> secret_key) option) result" where
  "load_secret L fails st =
     try_call fails BeginRead
       (case st_secret st of
          None \<Rightarrow> Inr None
        | Some m \<Rightarrow>
            if fails (OpenTable SecretTable) then Inr None
            else try_call fails (GetKey SecretTable ''sk'')
              (case bt_get ''sk'' m of
                 None \<Rightarrow> Inr None
               | Some s \<Rightarrow>
                   res_bind (or_err CodecError (b64_dec_key L s)) (\<lambda>b.
                     if length b = 32
                     then Inr (Some (sk_public L (sk_from_bytes L b), sk_from_bytes L b))
                     else Inl KeyError)))"

section \<open>Configuration values\<close>

definition save_config ::
    "('a \<Rightarrow> bytes option) \<Rightarrow> faults \<Rightarrow> storage \<Rightarrow> string \<Rightarrow> 'a \<Rightarrow> storage \<times> (storage_error, unit) result" where
  "save_config enc fails st key value =
     write_txn fails st
       (res_bind (or_err CodecError (enc value)) (\<lambda>v.
          try_call fails (OpenTable ConfigTable)
            (try_call fails (InsertKey ConfigTable key)
               (Inr (st\<lparr>st_config := Some (bt_insert key v (opened (st_config st)))\<rparr>)))))"

text \<open>\<open>save_config_trival\<close> opens the table before it encodes.\<close>

definition save_config_trival ::
    "('a \<Rightarrow> bytes option) \<Rightarrow> faults \<Rightarrow> storage \<Rightarrow> string \<Rightarrow> 'a \<Rightarrow> storage \<times> (storage_error, unit) result" where
  "save_config_trival enc fails st key value =
     write_txn fails st
       (try_call fails (OpenTable ConfigTable)
          (res_bind (or_err CodecError (enc value)) (\<lambda>v.
             try_call fails (InsertKey ConfigTable key)
               (Inr (st\<lparr>st_config := Some (bt_insert key v (opened (st_config st)))\<rparr>)))))"

definition load_config ::
    "(bytes \<Rightarrow> 'a option) \<Rightarrow> faults \<Rightarrow> storage \<Rightarrow> string \<Rightarrow> (storage_error, 'a option) result" where
  "load_config dec fails st key =
     try_call fails BeginRead
       (case st_config st of
          None \<Rightarrow> Inr None
        | Some m \<Rightarrow>
            if fails (OpenTable ConfigTable) then Inr None
            else try_call fails (GetKey ConfigTable key)
              (case bt_get key m of
                 None \<Rightarrow> Inr None
               | Some v \<Rightarrow> res_bind (or_err CodecError (dec v)) (\<lambda>x. Inr (Some x))))"

definition remove_config :: "faults \<Rightarrow> storage \<Rightarrow> string \<Rightarrow> storage \<times> (storage_error, unit) result" where
  "remove_config fails st key =
     write_txn fails st
       (try_call fails (OpenTable ConfigTable)
          (try_call fails (RemoveKey ConfigTable key)
             (Inr (st\<lparr>st_config := Some (bt_remove key (opened (st_config st)))\<rparr>))))"

definition clear_storage :: "faults \<Rightarrow> storage \<Rightarrow> storage \<times> (storage_error, unit) result" where
  "clear_storage fails st =
     write_txn fails st
       (try_call fails (DeleteTable NodesTable)
          (try_call fails (DeleteTable SecretTable)
             (try_call fails (DeleteTable ConfigTable)
                (Inr \<lparr>st_nodes = None, st_secret = None, st_config = None\<rparr>))))"


section \<open>Lemmas\<close>

lemma try_call_Inr [simp]: "try_call fails c r = Inr x \<longleftrightarrow> \<not> fails c \<and> r = Inr x"
  by (simp add: try_call_def)

lemma write_txn_cases:
  "write_txn fails st body = (st', r) \<Longrightarrow> (\<exists>e. r = Inl e \<and> st' = st) \<or> (r = Inr () \<and> body = Inr st')"
  by (auto simp: write_txn_def try_call_def res_bind_def split: sum.splits if_splits)

lemma write_txn_Ok: "write_txn fails st body = (st', Inr ()) \<Longrightarrow> body = Inr st'"
  by (auto dest: write_txn_cases)

lemma write_txn_Err: "write_txn fails st body = (st', Inl e) \<Longrightarrow> st' = st"
  by (auto dest: write_txn_cases)

lemmas writer_defs = save_node_def batch_save_nodes_def remove_node_def save_secret_def
  save_config_def save_config_trival_def remove_config_def clear_storage_def

lemma insert_nodes_fold:
  "insert_nodes L fails ns m = Inr m' \<Longrightarrow>
     (\<forall>n \<in> set ns. enc_node L n \<noteq> None)
     \<and> m' = fold (\<lambda>n. bt_insert (id_string L (node_id n)) (the (enc_node L n))) ns m"
  by (induction ns arbitrary: m) (auto simp: insert_node_def res_bind_Inr_iff)

lemma decode_entries_ok:
  "(\<forall>e \<in> set es. dec_node L (snd e) \<noteq> None) \<Longrightarrow>
     decode_entries L (\<lambda>c. False) es = Inr (map (\<lambda>e. the (dec_node L (snd e))) es)"
  by (induction es) (auto simp: try_call_def or_err_def)

lemma load_nodes_ok:
  "(\<forall>e \<in> set (opened (st_nodes st)). dec_node L (snd e) \<noteq> None) \<Longrightarrow>
     load_nodes L (\<lambda>c. False) st = Inr (map (\<lambda>e. the (dec_node L (snd e))) (opened (st_nodes st)))"
  using decode_entries_ok [of "opened (st_nodes st)" L]
  by (cases "st_nodes st") (simp_all add: load_nodes_def try_call_def opened_def)

lemma bt_ok_opened: "pred_option bt_ok t \<Longrightarrow> bt_ok (opened t)"
  by (cases t) (simp_all add: opened_def)

text \<open>The node records on disk, by the printed id they are filed under.\<close>

definition node_table :: "store_lib \<Rightarrow> storage \<Rightarrow> (string \<rightharpoonup> node)" where
  "node_table L st k = Option.bind (bt_get k (opened (st_nodes st))) (dec_node L)"

definition decodable :: "store_lib \<Rightarrow> storage \<Rightarrow> bool" where
  "decodable L st \<longleftrightarrow> (\<forall>e \<in> set (opened (st_nodes st)). dec_node L (snd e) \<noteq> None)"

lemma load_nodes_ran:
  assumes "storage_ok st" and "decodable L st"
  shows "\<exists>ns. load_nodes L (\<lambda>c. False) st = Inr ns \<and> set ns = ran (node_table L st)"
proof -
  let ?m = "opened (st_nodes st)"
  have ok: "bt_ok ?m" using assms(1) by (simp add: storage_ok_def bt_ok_opened)
  have "(\<lambda>e. the (dec_node L (snd e))) ` set ?m = ran (node_table L st)" (is "?l = ?r")
  proof
    show "?l \<subseteq> ?r"
    proof
      fix n assume "n \<in> ?l"
      then obtain k v where kv: "(k, v) \<in> set ?m" "n = the (dec_node L v)" by auto
      with assms(2) have "dec_node L v = Some n" by (force simp: decodable_def)
      with kv(1) ok have "node_table L st k = Some n" by (simp add: node_table_def bt_get_mem)
      then show "n \<in> ?r" by (rule ranI)
    qed
    show "?r \<subseteq> ?l"
      using bt_get_mem [OF ok] by (force simp: ran_def node_table_def bind_eq_Some_conv)
  qed
  then show ?thesis
    using assms(2) load_nodes_ok [of st L] by (auto simp: decodable_def)
qed

lemma node_table_batch_save:
  assumes "store_lib_ok L" and "storage_ok st" and "distinct (map node_id ns)"
    and "batch_save_nodes L fails st ns = (st', Inr ())"
  shows "node_table L st' k =
    (case find (\<lambda>n. id_string L (node_id n) = k) ns of Some n \<Rightarrow> Some n | None \<Rightarrow> node_table L st k)"
proof -
  let ?m = "opened (st_nodes st)" and ?key = "\<lambda>n. id_string L (node_id n)"
  let ?m' = "fold (\<lambda>n. bt_insert (?key n) (the (enc_node L n))) ns ?m"
  have ok: "bt_ok ?m" using assms(2) by (simp add: storage_ok_def bt_ok_opened)
  from write_txn_Ok [OF assms(4) [unfolded batch_save_nodes_def]]
  have enc: "\<forall>n \<in> set ns. enc_node L n \<noteq> None" and nodes': "st_nodes st' = Some ?m'"
    by (auto simp: res_bind_Inr_iff dest!: insert_nodes_fold)
  have inj: "distinct (map ?key ns)"
    using assms(1,3) by (simp add: store_lib_ok_def distinct_map inj_on_def)
  show ?thesis
  proof (cases "find (\<lambda>n. ?key n = k) ns")
    case None
    then have "k \<notin> ?key ` set ns" by (auto simp: find_None_iff)
    then have "bt_get k ?m' = bt_get k ?m" by (rule bt.get_fold_ins_other [OF ok])
    with None nodes' show ?thesis by (simp add: node_table_def opened_def)
  next
    case (Some n)
    then have n: "n \<in> set ns" "?key n = k" by (auto simp: find_Some_iff)
    with bt.get_fold_ins [OF ok inj n(1), of "\<lambda>n. the (enc_node L n)"] enc
    obtain v where "bt_get k ?m' = Some v" "enc_node L n = Some v" by auto
    with assms(1) nodes' Some show ?thesis by (simp add: node_table_def opened_def store_lib_ok_def)
  qed
qed

lemma storage_ok_writers:
  assumes "storage_ok st"
  shows "storage_ok (fst (save_node L fails st n))" "storage_ok (fst (batch_save_nodes L fails st ns))"
    "storage_ok (fst (remove_node L fails st i))" "storage_ok (fst (save_secret L fails st sk))"
    "storage_ok (fst (save_config enc fails st key v))" "storage_ok (fst (save_config_trival enc fails st key v))"
    "storage_ok (fst (remove_config fails st key))" "storage_ok (fst (clear_storage fails st))"
proof -
  have txn: "storage_ok (fst (write_txn fails st body))" if "\<And>st'. body = Inr st' \<Longrightarrow> storage_ok st'" for body
    using write_txn_cases [of fails st body "fst (write_txn fails st body)" "snd (write_txn fails st body)"]
      that assms by auto
  have ins: "bt_ok m'" if "insert_nodes L fails ns m = Inr m'" "bt_ok m" for m m'
    using insert_nodes_fold [OF that(1)] that(2) by (simp add: bt.ok_fold_ins)
  note ok = assms [unfolded storage_ok_def]
  show "storage_ok (fst (batch_save_nodes L fails st ns))"
    unfolding batch_save_nodes_def
    by (rule txn) (use ok in \<open>auto simp: storage_ok_def res_bind_Inr_iff bt_ok_opened dest: ins\<close>)
qed (use assms in \<open>auto simp: writer_defs storage_ok_def write_txn_def try_call_def res_bind_def insert_node_def
      bt_ok_insert bt_ok_remove bt_ok_opened split: sum.splits\<close>)

text \<open>What a step that writes only the table of nodes leaves: the key and the configuration.\<close>

definition only_nodes :: "storage \<Rightarrow> storage \<Rightarrow> bool" where
  "only_nodes st st' \<longleftrightarrow> st_secret st' = st_secret st \<and> st_config st' = st_config st \<and> (storage_ok st \<longrightarrow> storage_ok st')"

lemma only_nodes_refl [simp]: "only_nodes st st"
  by (simp add: only_nodes_def)

lemma only_nodes_trans: "only_nodes a b \<Longrightarrow> only_nodes b c \<Longrightarrow> only_nodes a c"
  by (simp add: only_nodes_def)

lemma only_nodes_writers:
  "only_nodes st (fst (save_node L fails st n))" "only_nodes st (fst (batch_save_nodes L fails st ns))"
  "only_nodes st (fst (remove_node L fails st i))"
  using storage_ok_writers(1-3) [of st]
  by (auto simp: only_nodes_def save_node_def batch_save_nodes_def remove_node_def write_txn_def try_call_def
      res_bind_def split: sum.splits)


lemma set_bt_insert_sub: "set (bt_insert k v m) \<subseteq> insert (k, v) (set m)"
  by (induction m) auto

lemma decodable_fold_insert:
  assumes "store_lib_ok L" and "\<forall>n \<in> set ns. enc_node L n \<noteq> None"
    and "\<forall>e \<in> set m. dec_node L (snd e) \<noteq> None"
  shows "\<forall>e \<in> set (fold (\<lambda>n. bt_insert (id_string L (node_id n)) (the (enc_node L n))) ns m).
           dec_node L (snd e) \<noteq> None"
  using assms(2,3)
proof (induction ns arbitrary: m)
  case (Cons n ns)
  then obtain v where "enc_node L n = Some v" by auto
  moreover from this assms(1) have "dec_node L v = Some n" by (simp add: store_lib_ok_def)
  ultimately have "\<forall>e \<in> set (bt_insert (id_string L (node_id n)) (the (enc_node L n)) m). dec_node L (snd e) \<noteq> None"
    using Cons.prems(2) set_bt_insert_sub [of "id_string L (node_id n)" v m] by fastforce
  with Cons show ?case by simp
qed simp

lemma decodable_batch_save:
  assumes "store_lib_ok L" and "decodable L st" and "batch_save_nodes L fails st ns = (st', Inr ())"
  shows "decodable L st'"
proof -
  from write_txn_Ok [OF assms(3) [unfolded batch_save_nodes_def]]
  have enc: "\<forall>n \<in> set ns. enc_node L n \<noteq> None"
    and m': "st_nodes st' = Some (fold (\<lambda>n. bt_insert (id_string L (node_id n)) (the (enc_node L n))) ns (opened (st_nodes st)))"
    by (auto simp: res_bind_Inr_iff dest!: insert_nodes_fold)
  show ?thesis
    unfolding decodable_def m' opened_simps
    by (rule decodable_fold_insert [OF assms(1) enc]) (use assms(2) in \<open>simp only: decodable_def\<close>)
qed

lemma node_table_save:
  assumes "store_lib_ok L" and "storage_ok st" and "save_node L fails st n = (st', Inr ())"
  shows "node_table L st' = (node_table L st)(id_string L (node_id n) \<mapsto> n)"
proof -
  have ok: "bt_ok (opened (st_nodes st))" using assms(2) by (simp add: storage_ok_def bt_ok_opened)
  have "\<exists>b. enc_node L n = Some b
      \<and> st_nodes st' = Some (bt_insert (id_string L (node_id n)) b (opened (st_nodes st)))"
    using write_txn_Ok [OF assms(3) [unfolded save_node_def]]
    by (auto simp: res_bind_Inr_iff insert_node_def or_err_def split: option.splits)
  then obtain b where b: "enc_node L n = Some b"
    "st_nodes st' = Some (bt_insert (id_string L (node_id n)) b (opened (st_nodes st)))" by blast
  have "dec_node L b = Some n" using assms(1) b(1) by (simp add: store_lib_ok_def)
  with b(2) ok show ?thesis by (auto simp: node_table_def bt_get_insert)
qed

lemma node_table_remove:
  assumes "remove_node L fails st i = (st', Inr ())"
  shows "node_table L st' = (node_table L st)(id_string L i := None)"
proof -
  have "st_nodes st' = Some (bt_remove (id_string L i) (opened (st_nodes st)))"
    using write_txn_Ok [OF assms [unfolded remove_node_def]] by auto
  then show ?thesis by (auto simp: node_table_def bt_get_remove)
qed

lemma find_key_unique:
  "inj_on f (set xs) \<Longrightarrow> x \<in> set xs \<Longrightarrow> find (\<lambda>y. f y = f x) xs = Some x"
  by (induction xs) (auto simp: inj_on_def)

lemma ran_node_table_batch_save:
  assumes "store_lib_ok L" and "storage_ok st" and "distinct (map node_id ns)"
    and "batch_save_nodes L fails st ns = (st', Inr ())"
  shows "ran (node_table L st') =
    set ns \<union> ran (node_table L st |` (- (\<lambda>n. id_string L (node_id n)) ` set ns))"
proof -
  let ?key = "\<lambda>n. id_string L (node_id n)"
  have inj: "inj_on ?key (set ns)"
    using assms(1,3) by (simp add: store_lib_ok_def distinct_map inj_on_def)
  have none: "find (\<lambda>n. ?key n = k) ns = None \<longleftrightarrow> k \<notin> ?key ` set ns" for k
    by (auto simp: find_None_iff)
  have tab: "node_table L st' k = (if k \<in> ?key ` set ns then find (\<lambda>n. ?key n = k) ns else node_table L st k)" for k
    using node_table_batch_save [OF assms, of k] none [of k]
    by (cases "find (\<lambda>n. ?key n = k) ns") auto
  have found: "node_table L st' (?key x) = Some x" if "x \<in> set ns" for x
    using that find_key_unique [OF inj that] by (simp add: tab)
  have "x \<in> set ns" if "find (\<lambda>n. ?key n = k) ns = Some x" for x k
    using that by (auto simp: find_Some_iff)
  then have "ran (node_table L st') \<subseteq> set ns \<union> ran (node_table L st |` (- ?key ` set ns))"
    by (auto simp: ran_def tab restrict_map_def split: if_splits)
  moreover have "set ns \<subseteq> ran (node_table L st')"
    using found by (auto intro: ranI)
  moreover have "ran (node_table L st |` (- ?key ` set ns)) \<subseteq> ran (node_table L st')"
    by (auto simp: ran_def tab restrict_map_def split: if_splits)
  ultimately show ?thesis by blast
qed

text \<open>A concrete library for the witnesses: it encodes one node.\<close>

definition demo_node :: node where
  "demo_node = sample_node 1 1 ''a'' 10"

definition demo_store_lib :: store_lib where
  "demo_store_lib =
     \<lparr>id_string = (\<lambda>i. case i of EndpointId w \<Rightarrow> replicate (unat w) CHR ''x''),
      enc_node = (\<lambda>n. if n = demo_node then Some [1] else None),
      dec_node = (\<lambda>b. if b = [1] then Some demo_node else None),
      b64_enc_key = map (\<lambda>b. char_of (unat b)), b64_dec_key = (\<lambda>s. Some (map (\<lambda>c. of_nat (of_char c)) s)),
      sk_to_bytes = (\<lambda>k. case k of SecretKey w \<Rightarrow> le_bytes 32 (unat w)), sk_from_bytes = (\<lambda>b. SecretKey (of_nat (le_value b))),
      sk_public = (\<lambda>k. case k of SecretKey w \<Rightarrow> EndpointId w)\<rparr>"

definition empty_storage :: storage where
  "empty_storage = \<lparr>st_nodes = None, st_secret = None, st_config = None\<rparr>"

lemma demo_store_lib_ok: "store_lib_ok demo_store_lib"
proof -
  have "inj (id_string demo_store_lib)"
    by (rule injI) (auto simp: demo_store_lib_def word_unat_eq_iff split: endpoint_id.splits
        dest: arg_cong [where f = length])
  moreover have "sk_from_bytes demo_store_lib (sk_to_bytes demo_store_lib k) = k" for k
  proof (cases k)
    case (SecretKey w)
    have "unat w < 2 ^ LENGTH(256)" by (rule unsigned_less)
    with SecretKey show ?thesis by (simp add: demo_store_lib_def)
  qed
  ultimately show ?thesis
    by (auto simp: store_lib_ok_def demo_store_lib_def comp_def
        split: secret_key.splits if_splits)
qed

lemma batch_save_loads:
  assumes "store_lib_ok L" and "storage_ok st" and "decodable L st" and "distinct (map node_id ns)"
    and "batch_save_nodes L fails st ns = (st', Inr ())"
  shows "\<exists>loaded. load_nodes L (\<lambda>c. False) st' = Inr loaded
    \<and> set loaded = set ns \<union> ran (node_table L st |` (- (\<lambda>n. id_string L (node_id n)) ` set ns))"
  using load_nodes_ran [of st' L] decodable_batch_save [OF assms(1,3,5)]
    ran_node_table_batch_save [OF assms(1,2,4,5)] storage_ok_writers(2) [OF assms(2), of L fails ns] assms(5)
  by auto

section \<open>Properties\<close>

text \<open>Persisting nodes refines updating the table of node records: after a successful
  \<open>batch_save_nodes\<close> of nodes with different ids, loading (when no call fails and the old records
  decode) yields exactly the saved nodes and the old records filed under other ids.\<close>

theorem batch_save_then_load:
  assumes "store_lib_ok L" and "storage_ok st" and "decodable L st" and "distinct (map node_id ns)"
    and "batch_save_nodes L fails st ns = (st', Inr ())"
  shows "\<exists>loaded. load_nodes L (\<lambda>c. False) st' = Inr loaded
    \<and> set loaded = set ns \<union> ran (node_table L st |` (- (\<lambda>n. id_string L (node_id n)) ` set ns))"
  using assms by (rule batch_save_loads)

theorem batch_save_then_load_witness:
  "\<exists>loaded. load_nodes demo_store_lib (\<lambda>c. False)
       (fst (batch_save_nodes demo_store_lib (\<lambda>c. False) empty_storage [demo_node])) = Inr loaded
    \<and> set loaded = {demo_node}"
  using batch_save_then_load [OF demo_store_lib_ok, of empty_storage "[demo_node]" "\<lambda>c. False"
      "fst (batch_save_nodes demo_store_lib (\<lambda>c. False) empty_storage [demo_node])"]
  by (auto simp: empty_storage_def storage_ok_def decodable_def batch_save_nodes_def write_txn_def
      try_call_def insert_node_def demo_store_lib_def or_err_def ran_def node_table_def restrict_map_def bt_get_def)

text \<open>Every write is all or nothing: when a write operation reports an error, whichever call or
  encoding failed, the database is the one it started from.\<close>

theorem failed_write_changes_nothing:
  "(snd (save_node L fails st n) \<noteq> Inr () \<longrightarrow> fst (save_node L fails st n) = st)
   \<and> (snd (batch_save_nodes L fails st ns) \<noteq> Inr () \<longrightarrow> fst (batch_save_nodes L fails st ns) = st)
   \<and> (snd (remove_node L fails st i) \<noteq> Inr () \<longrightarrow> fst (remove_node L fails st i) = st)
   \<and> (snd (save_secret L fails st sk) \<noteq> Inr () \<longrightarrow> fst (save_secret L fails st sk) = st)
   \<and> (snd (save_config enc fails st key v) \<noteq> Inr () \<longrightarrow> fst (save_config enc fails st key v) = st)
   \<and> (snd (remove_config fails st key) \<noteq> Inr () \<longrightarrow> fst (remove_config fails st key) = st)
   \<and> (snd (clear_storage fails st) \<noteq> Inr () \<longrightarrow> fst (clear_storage fails st) = st)"
proof -
  have "snd (write_txn fails st body) \<noteq> Inr () \<Longrightarrow> fst (write_txn fails st body) = st" for body
    using write_txn_cases [of fails st body "fst (write_txn fails st body)" "snd (write_txn fails st body)"] by auto
  then show ?thesis unfolding writer_defs by blast
qed

theorem failed_write_changes_nothing_witness:
  "fst (save_node demo_store_lib (\<lambda>c. c = Commit) empty_storage demo_node) = empty_storage
   \<and> snd (save_node demo_store_lib (\<lambda>c. c = Commit) empty_storage demo_node) = Inl DbError"
proof -
  have "snd (save_node demo_store_lib (\<lambda>c. c = Commit) empty_storage demo_node) = Inl DbError"
    by (simp add: save_node_def write_txn_def try_call_def insert_node_def demo_store_lib_def or_err_def empty_storage_def)
  with failed_write_changes_nothing [of demo_store_lib "\<lambda>c. c = Commit" empty_storage demo_node "[]" "EndpointId 0"
      "SecretKey 0" "\<lambda>b. Some b" "''k''" "[]"]
  show ?thesis by simp
qed

text \<open>The persisted secret key: after a successful \<open>save_secret\<close>, \<open>load_secret\<close> returns that key
  and its public key, and clearing the storage makes every load come back empty.\<close>

theorem secret_roundtrip_and_clear:
  assumes "store_lib_ok L" and "storage_ok st"
    and "save_secret L fails st sk = (st', Inr ())" and "clear_storage fails' st' = (st'', Inr ())"
  shows "load_secret L (\<lambda>c. False) st' = Inr (Some (sk_public L sk, sk))
    \<and> load_secret L (\<lambda>c. False) st'' = Inr None
    \<and> load_nodes L (\<lambda>c. False) st'' = Inr []
    \<and> load_config dec (\<lambda>c. False) st'' key = Inr None"
proof -
  have ok: "bt_ok (opened (st_secret st))" using assms(2) by (simp add: storage_ok_def bt_ok_opened)
  from write_txn_Ok [OF assms(3) [unfolded save_secret_def]]
  have s': "st_secret st' = Some (bt_insert ''sk'' (b64_enc_key L (sk_to_bytes L sk)) (opened (st_secret st)))"
    by auto
  from write_txn_Ok [OF assms(4) [unfolded clear_storage_def]]
  have "st'' = \<lparr>st_nodes = None, st_secret = None, st_config = None\<rparr>" by auto
  moreover have "load_secret L (\<lambda>c. False) st' = Inr (Some (sk_public L sk, sk))"
    using assms(1) by (simp add: load_secret_def try_call_def s' bt_get_insert [OF ok] store_lib_ok_def or_err_def)
  ultimately show ?thesis
    by (simp add: load_secret_def load_nodes_def load_config_def try_call_def)
qed

theorem secret_roundtrip_and_clear_witness:
  "load_secret demo_store_lib (\<lambda>c. False)
     (fst (save_secret demo_store_lib (\<lambda>c. False) empty_storage (SecretKey 5)))
     = Inr (Some (EndpointId 5, SecretKey 5))"
proof -
  let ?st' = "fst (save_secret demo_store_lib (\<lambda>c. False) empty_storage (SecretKey 5))"
  have save: "save_secret demo_store_lib (\<lambda>c. False) empty_storage (SecretKey 5) = (?st', Inr ())"
    by (simp add: save_secret_def write_txn_def try_call_def)
  have clear: "clear_storage (\<lambda>c. False) ?st' = (empty_storage, Inr ())"
    by (simp add: clear_storage_def write_txn_def try_call_def empty_storage_def)
  have "storage_ok empty_storage" by (simp add: storage_ok_def empty_storage_def)
  from secret_roundtrip_and_clear [OF demo_store_lib_ok this save clear]
  have "load_secret demo_store_lib (\<lambda>c. False) ?st' = Inr (Some (sk_public demo_store_lib (SecretKey 5), SecretKey 5))"
    by blast
  also have "sk_public demo_store_lib (SecretKey 5) = EndpointId 5" by (simp add: demo_store_lib_def)
  finally show ?thesis .
qed

end
