(* ===== verification/Daemon_Args.thy ===== *)
theory Daemon_Args
  imports DDNS_Prelude
begin

text \<open>
  \<open>src/cli/args.rs\<close>: the daemon's arguments and the textual forms of the log level and the relay
  mode. Paths are strings. Parsing the command line itself is clap's.
\<close>

datatype log_level = LogTrace | LogDebug | LogInfo | LogWarn | LogError | LogOff

datatype relay_mode_arg = RelayDisabled | RelayDefault | RelayStaging

record daemon_args =
  arg_daemon :: bool
  arg_primary :: bool
  arg_domain :: "string option"
  arg_ticket :: "string option"
  arg_config :: "string option"
  arg_log :: log_level
  arg_bind :: "string option"
  arg_bind_interface :: "string option"
  arg_no_mdns :: bool
  arg_dht :: bool
  arg_admin_http :: "string option"
  arg_hosts_sync :: bool
  arg_hosts_path :: "string option"
  arg_hosts_suffix :: "string option"
  arg_relay_mode :: relay_mode_arg
  arg_relay_url :: "string list"
  arg_reset_storage :: bool

definition default_args :: daemon_args where
  "default_args =
     \<lparr>arg_daemon = False, arg_primary = False, arg_domain = None, arg_ticket = None, arg_config = None,
      arg_log = LogInfo, arg_bind = None, arg_bind_interface = None, arg_no_mdns = False, arg_dht = False,
      arg_admin_http = None, arg_hosts_sync = False, arg_hosts_path = None, arg_hosts_suffix = None,
      arg_relay_mode = RelayDisabled, arg_relay_url = [], arg_reset_storage = False\<rparr>"

fun log_level_to_string :: "log_level \<Rightarrow> string" where
  "log_level_to_string LogTrace = ''trace''"
| "log_level_to_string LogDebug = ''debug''"
| "log_level_to_string LogInfo = ''info''"
| "log_level_to_string LogWarn = ''warn''"
| "log_level_to_string LogError = ''error''"
| "log_level_to_string LogOff = ''off''"

definition log_level_from_str :: "string \<Rightarrow> (string, log_level) result" where
  "log_level_from_str s =
     (if s = ''trace'' then Inr LogTrace
      else if s = ''debug'' then Inr LogDebug
      else if s = ''info'' then Inr LogInfo
      else if s = ''warn'' then Inr LogWarn
      else if s = ''error'' then Inr LogError
      else if s = ''off'' then Inr LogOff
      else Inl (''Invalid log level: '' @ s))"

fun relay_mode_to_string :: "relay_mode_arg \<Rightarrow> string" where
  "relay_mode_to_string RelayDisabled = ''disabled''"
| "relay_mode_to_string RelayDefault = ''default''"
| "relay_mode_to_string RelayStaging = ''staging''"

definition relay_mode_from_str :: "string \<Rightarrow> (string, relay_mode_arg) result" where
  "relay_mode_from_str s =
     (if s = ''disabled'' then Inr RelayDisabled
      else if s = ''default'' then Inr RelayDefault
      else if s = ''staging'' then Inr RelayStaging
      else Inl (''Invalid relay mode: '' @ s))"

text \<open>What a textual form promises: parsing inverts printing and accepts nothing else.\<close>

locale text_form =
  fixes to_str :: "'a \<Rightarrow> string"
    and from_str :: "string \<Rightarrow> (string, 'a) result"
  assumes from_to: "from_str (to_str x) = Inr x"
    and to_from: "from_str s = Inr x \<Longrightarrow> to_str x = s"
begin

lemma to_str_inj: "to_str x = to_str y \<longleftrightarrow> x = y"
  by (metis from_to sum.inject(2))

lemma from_str_iff: "from_str s = Inr x \<longleftrightarrow> s = to_str x"
  using from_to to_from by blast

lemma from_str_total: "s \<notin> range to_str \<Longrightarrow> \<exists>e. from_str s = Inl e"
  using from_str_iff by (cases "from_str s") auto

end

interpretation log_level_text: text_form log_level_to_string log_level_from_str
proof
  fix x show "log_level_from_str (log_level_to_string x) = Inr x"
    by (cases x) (simp_all add: log_level_from_str_def)
qed (auto simp: log_level_from_str_def split: if_splits)

interpretation relay_mode_text: text_form relay_mode_to_string relay_mode_from_str
proof
  fix x show "relay_mode_from_str (relay_mode_to_string x) = Inr x"
    by (cases x) (simp_all add: relay_mode_from_str_def)
qed (auto simp: relay_mode_from_str_def split: if_splits)

section \<open>Properties\<close>

text \<open>The textual forms of the log level and of the relay mode: parsing accepts exactly the
  printed names, each as the value it names.\<close>

theorem level_and_mode_text:
  "(log_level_from_str s = Inr l \<longleftrightarrow> s = log_level_to_string l)
   \<and> (relay_mode_from_str s = Inr m \<longleftrightarrow> s = relay_mode_to_string m)"
  by (simp add: log_level_text.from_str_iff relay_mode_text.from_str_iff)

end
