(* ===== verification/Daemon_Context.thy ===== *)
theory Daemon_Context
  imports Addr_Select Net_Ticket Redb_Storage Daemon_Args
begin

text \<open>
  \<open>src/net/mod.rs\<close>, the daemon's shared \<open>Context\<close>: the table of active nodes, the table of trusted
  nodes, and the handlers that the event loop runs on them. One definition per method; a handler
  takes the context and returns it updated. Calls to the crates around it (gossip, endpoint, static
  discovery) are appended to \<open>cx_effects\<close> in order; what it reads from them, and the clock, is in
  \<open>env\<close>. \<open>clock E i\<close> is the \<open>i\<close>-th reading of the clock in one handler.
\<close>

section \<open>State and environment\<close>

datatype connection_type =
    ConnDirect socket_addr
  | ConnMixed socket_addr string
  | ConnRelay string
  | ConnNone

record env =
  clock :: "nat \<Rightarrow> u64"
  conn_type :: "endpoint_id \<Rightarrow> connection_type option"
  handle_addr :: endpoint_addr
  env_ifaces :: "iface list"
  broadcast_ok :: bool
  iter_nodes :: "(endpoint_id \<rightharpoonup> node) \<Rightarrow> (endpoint_id \<times> node) list"

text \<open>Iterating a map with finitely many entries visits each entry once.\<close>

definition env_ok :: "env \<Rightarrow> bool" where
  "env_ok E \<longleftrightarrow> (\<forall>m. finite (dom m) \<longrightarrow> snapshot_of (iter_nodes E m) m)"

datatype effect =
    StaticAdd endpoint_addr
  | StaticSet endpoint_addr
  | Broadcast message
  | BroadcastNeighbors message
  | SendMsg endpoint_addr message
  | NetworkChange
  | RouterShutdown
  | EndpointClose

record ctx =
  cx_me :: node
  cx_nodes :: "endpoint_id \<rightharpoonup> node"
  cx_trusted :: "endpoint_id \<rightharpoonup> node"
  cx_ticket :: ticket
  cx_args :: daemon_args
  cx_storage :: storage
  cx_started_at :: u64
  cx_join_announced :: bool
  cx_paused :: bool
  cx_hosts_sync :: hosts_sync_status
  cx_effects :: "effect list"

record verify_status =
  vs_trusted :: bool
  vs_fresh :: bool

definition vs_passed :: "verify_status \<Rightarrow> bool" where
  "vs_passed s = (vs_trusted s \<and> vs_fresh s)"

definition stale_node_ttl_secs :: u64 where "stale_node_ttl_secs = 90"

definition emit :: "effect \<Rightarrow> ctx \<Rightarrow> ctx" where
  "emit e c = c\<lparr>cx_effects := cx_effects c @ [e]\<rparr>"

section \<open>Own address and state\<close>

definition should_filter_advertised_addrs :: "daemon_args \<Rightarrow> bool" where
  "should_filter_advertised_addrs a = (arg_bind a = None \<and> arg_bind_interface a = None)"

definition advertised_endpoint_addr :: "iface list \<Rightarrow> endpoint_addr \<Rightarrow> daemon_args \<Rightarrow> endpoint_addr" where
  "advertised_endpoint_addr ifaces addr a =
     (if \<not> should_filter_advertised_addrs a then addr
      else
        let filtered = filter_advertisable_endpoint_addr ifaces addr
        in if ip_addrs filtered \<noteq> [] \<or> relay_urls filtered \<noteq> [] then filtered else addr)"

definition current_node_state :: "env \<Rightarrow> nat \<Rightarrow> ctx \<Rightarrow> node" where
  "current_node_state E i c =
     (cx_me c)\<lparr>node_addr := advertised_endpoint_addr (env_ifaces E) (handle_addr E) (cx_args c),
               last_heartbeat := clock E i\<rparr>"

definition is_node_trusted :: "ctx \<Rightarrow> endpoint_id \<Rightarrow> bool" where
  "is_node_trusted c i = (cx_trusted c i \<noteq> None)"

definition decode_and_verify ::
    "wire_lib \<Rightarrow> u64 \<Rightarrow> ctx \<Rightarrow> bytes \<Rightarrow> (wire_error, endpoint_id \<times> message \<times> verify_status) result" where
  "decode_and_verify L now c b =
     res_bind (sm_decode L b) (\<lambda>signed.
     res_bind (verify_and_decode_message L signed) (\<lambda>(from, m).
       Inr (from, m, \<lparr>vs_trusted = is_node_trusted c from, vs_fresh = is_fresh signed now\<rparr>)))"

section \<open>Sender addresses\<close>

definition observed_direct_addr :: "env \<Rightarrow> endpoint_id \<Rightarrow> endpoint_addr option" where
  "observed_direct_addr E i =
     (case conn_type E i of
        None \<Rightarrow> None
      | Some (ConnDirect a) \<Rightarrow> Some (from_parts i [Ip a])
      | Some (ConnMixed a u) \<Rightarrow> Some (from_parts i [Ip a])
      | Some (ConnRelay u) \<Rightarrow> None
      | Some ConnNone \<Rightarrow> None)"

definition sender_message_addr :: "env \<Rightarrow> endpoint_id \<Rightarrow> endpoint_addr \<Rightarrow> endpoint_addr" where
  "sender_message_addr E i addr =
     (let addr = (if ea_id addr = i then addr else ea_new i)
      in case observed_direct_addr E i of None \<Rightarrow> addr | Some a \<Rightarrow> a)"

section \<open>The two tables\<close>

definition upsert_active_node :: "ctx \<Rightarrow> node \<Rightarrow> ctx" where
  "upsert_active_node c n =
     (if node_id n = node_id (cx_me c) then c
      else
        let c = (if \<not> ea_is_empty (node_addr n) then emit (StaticAdd (node_addr n)) c else c)
        in c\<lparr>cx_nodes := (cx_nodes c)(node_id n \<mapsto> n)\<rparr>)"

definition trust_daemon_node :: "ctx \<Rightarrow> node \<Rightarrow> ctx" where
  "trust_daemon_node c n =
     (if node_id n = node_id (cx_me c) \<or> \<not> is_daemon_node n then c
      else
        let merged = fst (merge_node (cx_trusted c (node_id n)) n)
        in c\<lparr>cx_trusted := (cx_trusted c)(node_id merged \<mapsto> merged)\<rparr>)"

definition untrust_node :: "ctx \<Rightarrow> endpoint_id \<Rightarrow> ctx" where
  "untrust_node c i = c\<lparr>cx_trusted := (cx_trusted c)(i := None)\<rparr>"

definition trusted_node_domain :: "ctx \<Rightarrow> endpoint_id \<Rightarrow> string option" where
  "trusted_node_domain c i = map_option node_domain (cx_trusted c i)"

definition refresh_sender_observed_addr :: "env \<Rightarrow> ctx \<Rightarrow> endpoint_id \<Rightarrow> ctx \<times> bool" where
  "refresh_sender_observed_addr E c i =
     (case observed_direct_addr E i of
        None \<Rightarrow> (c, False)
      | Some addr \<Rightarrow>
          (case cx_nodes c i of
             None \<Rightarrow> (c, False)
           | Some existing \<Rightarrow>
               let merged = existing\<lparr>node_addr := addr, last_heartbeat := clock E 0\<rparr>;
                   c = (if is_node_trusted c i \<and> is_daemon_node merged
                        then c\<lparr>cx_trusted := (cx_trusted c)(i \<mapsto> merged)\<rparr> else c)
               in (upsert_active_node c merged, True)))"

section \<open>Messages out\<close>

definition send_message_to :: "env \<Rightarrow> ctx \<Rightarrow> endpoint_id \<Rightarrow> message \<Rightarrow> ctx" where
  "send_message_to E c i m =
     (if i = node_id (cx_me c) then c
      else
        let local = advertised_endpoint_addr (env_ifaces E) (handle_addr E) (cx_args c);
            target = (case cx_nodes c i of
                        Some n \<Rightarrow> best_endpoint_addr_for_local (node_addr n) local
                      | None \<Rightarrow> ea_new i)
        in emit (SendMsg target m) c)"

definition broadcast_state_update :: "env \<Rightarrow> ctx \<Rightarrow> ctx" where
  "broadcast_state_update E c =
     (let me = current_node_state E 0 c
      in emit (Broadcast (AboutMe (node_addr me) (node_domain me) (node_services me) (node_invitor me))) c)"

definition request_neighbor_sync :: "ctx \<Rightarrow> ctx" where
  "request_neighbor_sync c = emit (BroadcastNeighbors (SyncRequest [])) c"

definition announce_join :: "env \<Rightarrow> ctx \<Rightarrow> ctx" where
  "announce_join E c =
     (if cx_join_announced c then c
      else if \<not> arg_daemon (cx_args c) \<or> arg_primary (cx_args c) then c
      else
        let me = current_node_state E 0 c;
            c = emit (Broadcast (Invited (t_topic (cx_ticket c)) (t_rnum (cx_ticket c)) (node_addr me)
                       (node_domain me) (node_services me) (node_invitor me))) c
        in if broadcast_ok E then c\<lparr>cx_join_announced := True\<rparr> else c)"

section \<open>Messages in\<close>

text \<open>A message that passed refreshes the sender: its observed address, else its heartbeat alone.\<close>

definition touch_sender :: "env \<Rightarrow> ctx \<Rightarrow> endpoint_id \<Rightarrow> verify_status \<Rightarrow> ctx" where
  "touch_sender E c from status =
     (if \<not> vs_passed status then c
      else
        let (c', refreshed) = refresh_sender_observed_addr E c from
        in if refreshed then c'
           else (case cx_nodes c' from of
                   None \<Rightarrow> c'
                 | Some n \<Rightarrow> c'\<lparr>cx_nodes := (cx_nodes c')(from \<mapsto> n\<lparr>last_heartbeat := clock E 0\<rparr>)\<rparr>))"

text \<open>\<open>Invited\<close> and \<open>AboutMe\<close> carry the sender's own record; both merge and store it.\<close>

definition learn_sender ::
    "env \<Rightarrow> ctx \<Rightarrow> endpoint_id \<Rightarrow> endpoint_addr \<Rightarrow> string \<Rightarrow> (string \<times> u32) list \<Rightarrow> endpoint_id \<Rightarrow> ctx" where
  "learn_sender E c from addr alias services invitor =
     (let incoming = \<lparr>node_id = from, node_invitor = invitor,
                      node_addr = sender_message_addr E from addr, node_domain = alias,
                      node_services = services, last_heartbeat = clock E 1\<rparr>;
          n = fst (merge_node (cx_nodes c from) incoming)
      in upsert_active_node (trust_daemon_node c n) n)"

text \<open>One iteration of the loops over \<open>nodes\<close> in \<open>SyncRequest\<close> and \<open>SyncResponse\<close>.\<close>

definition absorb_node :: "env \<Rightarrow> endpoint_id \<Rightarrow> node \<Rightarrow> ctx \<Rightarrow> ctx" where
  "absorb_node E from n c =
     (if node_id n = node_id (cx_me c) \<or> \<not> is_daemon_node n then c
      else
        let n = (if node_id n = from then n\<lparr>node_addr := sender_message_addr E from (node_addr n)\<rparr> else n);
            existing = cx_nodes c (node_id n);
            should_update = (case existing of None \<Rightarrow> True | Some e \<Rightarrow> last_heartbeat e < last_heartbeat n)
        in if should_update
           then let merged = fst (merge_node existing n)
                in upsert_active_node (trust_daemon_node c merged) merged
           else c)"

definition absorb_nodes :: "env \<Rightarrow> endpoint_id \<Rightarrow> node list \<Rightarrow> ctx \<Rightarrow> ctx" where
  "absorb_nodes E from ns c = fold (absorb_node E from) ns c"

definition sync_nodes :: "env \<Rightarrow> ctx \<Rightarrow> node list" where
  "sync_nodes E c =
     map snd (filter (\<lambda>e. is_daemon_node (snd e)) (iter_nodes E (cx_nodes c))) @ [current_node_state E 1 c]"

definition process_message :: "env \<Rightarrow> ctx \<Rightarrow> endpoint_id \<Rightarrow> message \<Rightarrow> verify_status \<Rightarrow> ctx" where
  "process_message E c0 from m status =
     (let passed = vs_passed status;
          c = touch_sender E c0 from status
      in case m of
           Invited topic rnum addr alias services invitor \<Rightarrow>
             if \<not> vs_fresh status then c
             else if \<not> ticket_validate (cx_ticket c) topic rnum then c
             else emit NetworkChange (learn_sender E c from addr alias services invitor)
         | AboutMe addr alias services invitor \<Rightarrow>
             if \<not> passed then c
             else emit NetworkChange (learn_sender E c from addr alias services invitor)
         | Introduce invited \<Rightarrow> emit NetworkChange c
         | Heartbeat \<Rightarrow> emit NetworkChange c
         | Left \<Rightarrow>
             if \<not> passed then c
             else emit NetworkChange (c\<lparr>cx_nodes := (cx_nodes c)(from := None)\<rparr>)
         | SyncRequest nodes \<Rightarrow>
             let c1 = (if \<not> arg_daemon (cx_args c) \<or> passed then absorb_nodes E from nodes c else c);
                 c2 = (if arg_daemon (cx_args c1)
                       then send_message_to E c1 from (SyncResponse (sync_nodes E c1)) else c1)
             in emit NetworkChange c2
         | SyncResponse nodes \<Rightarrow>
             let c1 = (if \<not> arg_daemon (cx_args c) \<or> passed then absorb_nodes E from nodes c else c)
             in emit NetworkChange c1)"

section \<open>Housekeeping\<close>

definition stale_node_ids :: "u64 \<Rightarrow> (endpoint_id \<times> node) list \<Rightarrow> endpoint_id list" where
  "stale_node_ids now entries =
     map fst (filter (\<lambda>(k, n). \<not> has_client_marker n
                              \<and> stale_node_ttl_secs < saturating_sub now (last_heartbeat n)) entries)"

definition cleanup :: "env \<Rightarrow> ctx \<Rightarrow> ctx" where
  "cleanup E c =
     (let stale = stale_node_ids (clock E 0) (iter_nodes E (cx_nodes c));
          nodes1 = remove_all stale (cx_nodes c);
          dups = ids_to_remove_for_duplicate_domains (map snd (iter_nodes E nodes1))
      in emit NetworkChange (c\<lparr>cx_nodes := remove_all dups nodes1\<rparr>))"

definition save_trusted ::
    "store_lib \<Rightarrow> faults \<Rightarrow> env \<Rightarrow> ctx \<Rightarrow> ctx \<times> (storage_error, unit) result" where
  "save_trusted L fails E c =
     (let entries = filter (\<lambda>e. fst e \<noteq> node_id (cx_me c) \<and> is_daemon_node (snd e)) (iter_nodes E (cx_trusted c));
          (st, r) = batch_save_nodes L fails (cx_storage c) (map snd entries)
      in (c\<lparr>cx_storage := st\<rparr>, r))"

definition set_paused :: "ctx \<Rightarrow> bool \<Rightarrow> ctx" where
  "set_paused c p = c\<lparr>cx_paused := p\<rparr>"

definition uptime_seconds :: "u64 \<Rightarrow> ctx \<Rightarrow> u64" where
  "uptime_seconds time_now c = saturating_sub time_now (cx_started_at c)"

end
