(* ===== verification/Context_Invariant.thy ===== *)
theory Context_Invariant
  imports Daemon_Context
begin

text \<open>
  What the handlers of \<open>Daemon_Context\<close> keep. \<open>ctx_inv\<close> says that both tables are finite and filed
  under the node ids, that only daemon nodes are trusted and that the daemon never trusts itself.
  The locale \<open>table_op\<close> is the contract of the steps that only work on the tables: they keep the
  invariant and the rest of the context, and no trusted node is lost. Its lemmas lift the contract
  to loops over such steps; it is interpreted on every such step of the source.
\<close>

section \<open>The invariant and the frame\<close>

definition ctx_inv :: "ctx \<Rightarrow> bool" where
  "ctx_inv c \<longleftrightarrow>
     finite (dom (cx_nodes c)) \<and> finite (dom (cx_trusted c))
     \<and> (\<forall>k n. cx_nodes c k = Some n \<longrightarrow> node_id n = k)
     \<and> (\<forall>k n. cx_trusted c k = Some n \<longrightarrow> node_id n = k \<and> is_daemon_node n)
     \<and> cx_trusted c (node_id (cx_me c)) = None"

text \<open>The fields that are no table and no effect.\<close>

definition frame_of :: "ctx \<Rightarrow> ctx" where
  "frame_of c = c\<lparr>cx_nodes := Map.empty, cx_trusted := Map.empty, cx_effects := []\<rparr>"

lemma frame_of_iff:
  "frame_of c = frame_of d \<longleftrightarrow>
     cx_me c = cx_me d \<and> cx_ticket c = cx_ticket d \<and> cx_args c = cx_args d \<and> cx_storage c = cx_storage d
     \<and> cx_started_at c = cx_started_at d \<and> cx_join_announced c = cx_join_announced d
     \<and> cx_paused c = cx_paused d \<and> cx_hosts_sync c = cx_hosts_sync d"
  by (cases c; cases d) (auto simp: frame_of_def)

lemma frame_of_updates [simp]:
  "frame_of (c\<lparr>cx_nodes := m\<rparr>) = frame_of c" "frame_of (c\<lparr>cx_trusted := m\<rparr>) = frame_of c"
  "frame_of (emit e c) = frame_of c"
  by (simp_all add: frame_of_iff emit_def)

lemma ctx_inv_nodesD: "ctx_inv c \<Longrightarrow> cx_nodes c k = Some n \<Longrightarrow> node_id n = k"
  by (simp add: ctx_inv_def)

lemma ctx_inv_trustedD:
  "ctx_inv c \<Longrightarrow> cx_trusted c k = Some n \<Longrightarrow> node_id n = k \<and> is_daemon_node n \<and> k \<noteq> node_id (cx_me c)"
  by (auto simp: ctx_inv_def)

lemma ctx_inv_put_node: "ctx_inv c \<Longrightarrow> node_id n = k \<Longrightarrow> ctx_inv (c\<lparr>cx_nodes := (cx_nodes c)(k \<mapsto> n)\<rparr>)"
  by (auto simp: ctx_inv_def)

lemma ctx_inv_put_trusted:
  "ctx_inv c \<Longrightarrow> node_id n = k \<Longrightarrow> is_daemon_node n \<Longrightarrow> k \<noteq> node_id (cx_me c) \<Longrightarrow>
   ctx_inv (c\<lparr>cx_trusted := (cx_trusted c)(k \<mapsto> n)\<rparr>)"
  by (auto simp: ctx_inv_def)

lemma ctx_inv_drop_nodes:
  assumes "ctx_inv c" and sub: "\<And>k n. m k = Some n \<Longrightarrow> cx_nodes c k = Some n"
  shows "ctx_inv (c\<lparr>cx_nodes := m\<rparr>)"
proof -
  have "dom m \<subseteq> dom (cx_nodes c)" using sub by blast
  with assms(1) have "finite (dom m)" unfolding ctx_inv_def by (metis finite_subset)
  with assms show ?thesis by (simp add: ctx_inv_def)
qed

lemma ctx_inv_drop_trusted: "ctx_inv c \<Longrightarrow> ctx_inv (c\<lparr>cx_trusted := (cx_trusted c)(k := None)\<rparr>)"
  by (auto simp: ctx_inv_def)

lemma ctx_inv_other [simp]:
  "ctx_inv (emit e c) = ctx_inv c"
  "ctx_inv (c\<lparr>cx_storage := s\<rparr>) = ctx_inv c"
  "ctx_inv (c\<lparr>cx_join_announced := b\<rparr>) = ctx_inv c"
  "ctx_inv (c\<lparr>cx_paused := b\<rparr>) = ctx_inv c"
  "ctx_inv (c\<lparr>cx_hosts_sync := h\<rparr>) = ctx_inv c"
  "ctx_inv (c\<lparr>cx_ticket := t\<rparr>) = ctx_inv c"
  by (simp_all add: ctx_inv_def emit_def)

lemma emit_fields [simp]:
  "cx_nodes (emit e c) = cx_nodes c" "cx_trusted (emit e c) = cx_trusted c" "cx_me (emit e c) = cx_me c"
  "cx_ticket (emit e c) = cx_ticket c" "cx_args (emit e c) = cx_args c" "cx_storage (emit e c) = cx_storage c"
  "cx_started_at (emit e c) = cx_started_at c" "cx_join_announced (emit e c) = cx_join_announced c"
  "cx_paused (emit e c) = cx_paused c" "cx_hosts_sync (emit e c) = cx_hosts_sync c"
  "cx_effects (emit e c) = cx_effects c @ [e]"
  by (simp_all add: emit_def)

section \<open>The contract of a step on the tables\<close>

locale table_op =
  fixes step :: "'a \<Rightarrow> ctx \<Rightarrow> ctx"
  assumes frame: "frame_of (step x c) = frame_of c"
    and inv: "ctx_inv c \<Longrightarrow> ctx_inv (step x c)"
    and grows: "dom (cx_trusted c) \<subseteq> dom (cx_trusted (step x c))"
    and sends_nothing: "set (cx_effects (step x c)) \<subseteq> set (cx_effects c) \<union> range StaticAdd"
begin

lemma loop_frame: "frame_of (fold step xs c) = frame_of c"
  by (induction xs arbitrary: c) (simp_all add: frame)

lemma loop_inv: "ctx_inv c \<Longrightarrow> ctx_inv (fold step xs c)"
  by (induction xs arbitrary: c) (simp_all add: inv)

lemma loop_grows: "dom (cx_trusted c) \<subseteq> dom (cx_trusted (fold step xs c))"
proof (induction xs arbitrary: c)
  case (Cons x xs)
  show ?case using grows [of c x] Cons [of "step x c"] by auto
qed simp

lemma loop_sends_nothing: "set (cx_effects (fold step xs c)) \<subseteq> set (cx_effects c) \<union> range StaticAdd"
proof (induction xs arbitrary: c)
  case (Cons x xs)
  show ?case using sends_nothing [of x c] Cons [of "step x c"] by auto
qed simp

lemma keeps:
  "cx_me (step x c) = cx_me c" "cx_ticket (step x c) = cx_ticket c" "cx_args (step x c) = cx_args c"
  "cx_storage (step x c) = cx_storage c" "cx_join_announced (step x c) = cx_join_announced c"
  "cx_paused (step x c) = cx_paused c"
  using frame [of x c] by (simp_all add: frame_of_iff)

lemma loop_keeps:
  "cx_me (fold step xs c) = cx_me c" "cx_args (fold step xs c) = cx_args c"
  "cx_ticket (fold step xs c) = cx_ticket c"
  using loop_frame [of xs c] by (simp_all add: frame_of_iff)

end

subsection \<open>Its instances\<close>

lemma upsert_active_node_simps:
  "cx_trusted (upsert_active_node c n) = cx_trusted c"
  "cx_nodes (upsert_active_node c n) =
     (if node_id n = node_id (cx_me c) then cx_nodes c else (cx_nodes c)(node_id n \<mapsto> n))"
  by (simp_all add: upsert_active_node_def Let_def)

lemma trust_daemon_node_simps:
  "cx_nodes (trust_daemon_node c n) = cx_nodes c"
  "cx_effects (trust_daemon_node c n) = cx_effects c"
  "ctx_inv c \<Longrightarrow> cx_trusted (trust_daemon_node c n) =
     (if node_id n = node_id (cx_me c) \<or> \<not> is_daemon_node n then cx_trusted c
      else (cx_trusted c)(node_id n \<mapsto> fst (merge_node (cx_trusted c (node_id n)) n)))"
  apply (simp_all add: trust_daemon_node_def Let_def)
  by (metis ctx_inv_trustedD merge_node_id_opt)

interpretation upsert: table_op "\<lambda>n c. upsert_active_node c n"
proof unfold_locales
  fix n c
  show "frame_of (upsert_active_node c n) = frame_of c"
    by (simp add: upsert_active_node_def Let_def)
  show "ctx_inv (upsert_active_node c n)" if "ctx_inv c"
    using that ctx_inv_put_node [of c n] ctx_inv_put_node [of "emit (StaticAdd (node_addr n)) c" n]
    by (simp add: upsert_active_node_def Let_def)
  show "dom (cx_trusted c) \<subseteq> dom (cx_trusted (upsert_active_node c n))"
    by (simp add: upsert_active_node_simps)
  show "set (cx_effects (upsert_active_node c n)) \<subseteq> set (cx_effects c) \<union> range StaticAdd"
    by (simp add: upsert_active_node_def Let_def)
qed


interpretation trust: table_op "\<lambda>n c. trust_daemon_node c n"
proof unfold_locales
  fix n c
  show "frame_of (trust_daemon_node c n) = frame_of c"
    by (simp add: trust_daemon_node_def Let_def)
  show "ctx_inv (trust_daemon_node c n)" if c: "ctx_inv c"
  proof (cases "node_id n = node_id (cx_me c) \<or> \<not> is_daemon_node n")
    case False
    let ?m = "fst (merge_node (cx_trusted c (node_id n)) n)"
    have "node_id ?m = node_id n" and "is_daemon_node ?m"
      using False ctx_inv_trustedD [OF c] by (auto intro!: merge_node_id_opt merge_node_daemon)
    with False show ?thesis
      using ctx_inv_put_trusted [OF c, of ?m "node_id n"] by (simp add: trust_daemon_node_def Let_def)
  qed (simp add: trust_daemon_node_def c)
  show "dom (cx_trusted c) \<subseteq> dom (cx_trusted (trust_daemon_node c n))"
    by (auto simp: trust_daemon_node_def Let_def)
  show "set (cx_effects (trust_daemon_node c n)) \<subseteq> set (cx_effects c) \<union> range StaticAdd"
    by (auto simp: trust_daemon_node_simps)
qed

lemma trust_upsert_sends_nothing:
  "set (cx_effects (upsert_active_node (trust_daemon_node c m) n)) \<subseteq> set (cx_effects c) \<union> range StaticAdd"
  using upsert.sends_nothing [where x = n and c = "trust_daemon_node c m"] by (simp add: trust_daemon_node_simps)

interpretation absorb: table_op "\<lambda>n. absorb_node E src n" for E src
proof unfold_locales
  fix n c
  show "frame_of (absorb_node E src n c) = frame_of c"
    by (simp add: absorb_node_def Let_def upsert.frame trust.frame)
  show "ctx_inv (absorb_node E src n c)" if "ctx_inv c"
    using that by (simp add: absorb_node_def Let_def upsert.inv trust.inv)
  show "dom (cx_trusted c) \<subseteq> dom (cx_trusted (absorb_node E src n c))"
    using trust.grows [of c] by (simp add: absorb_node_def Let_def upsert_active_node_simps)
  show "set (cx_effects (absorb_node E src n c)) \<subseteq> set (cx_effects c) \<union> range StaticAdd"
    by (simp add: absorb_node_def Let_def trust_upsert_sends_nothing)
qed

definition learn_from :: "env \<Rightarrow> endpoint_id \<Rightarrow> endpoint_addr \<times> string \<times> (string \<times> u32) list \<times> endpoint_id \<Rightarrow> ctx \<Rightarrow> ctx" where
  "learn_from E src x c = (case x of (addr, al, services, invitor) \<Rightarrow> learn_sender E c src addr al services invitor)"

interpretation learn: table_op "learn_from E src" for E src
proof unfold_locales
  fix x c
  show "frame_of (learn_from E src x c) = frame_of c"
    by (simp add: learn_from_def learn_sender_def Let_def upsert.frame trust.frame split: prod.split)
  show "ctx_inv (learn_from E src x c)" if "ctx_inv c"
    using that by (simp add: learn_from_def learn_sender_def Let_def upsert.inv trust.inv split: prod.split)
  show "dom (cx_trusted c) \<subseteq> dom (cx_trusted (learn_from E src x c))"
    using trust.grows [of c] by (simp add: learn_from_def learn_sender_def Let_def upsert_active_node_simps split: prod.split)
  show "set (cx_effects (learn_from E src x c)) \<subseteq> set (cx_effects c) \<union> range StaticAdd"
    by (simp add: learn_from_def learn_sender_def Let_def trust_upsert_sends_nothing split: prod.split)
qed

lemma is_daemon_node_update [simp]:
  "is_daemon_node (n\<lparr>node_addr := a\<rparr>) = is_daemon_node n"
  "is_daemon_node (n\<lparr>last_heartbeat := h\<rparr>) = is_daemon_node n"
  "is_daemon_node (n\<lparr>node_addr := a, last_heartbeat := h\<rparr>) = is_daemon_node n"
  by (simp_all add: is_daemon_node_def has_client_marker_def)

interpretation touch: table_op "\<lambda>status c. touch_sender E c src status" for E src
proof unfold_locales
  fix s c
  have r: "frame_of (fst (refresh_sender_observed_addr E c src)) = frame_of c"
    by (simp add: refresh_sender_observed_addr_def upsert.frame Let_def split: option.split)
  have t: "dom (cx_trusted c) \<subseteq> dom (cx_trusted (fst (refresh_sender_observed_addr E c src)))"
    by (auto simp: refresh_sender_observed_addr_def upsert_active_node_simps Let_def split: option.split)
  have i: "ctx_inv (fst (refresh_sender_observed_addr E c src))" if c: "ctx_inv c"
  proof (cases "cx_nodes c src")
    case (Some n)
    have "ctx_inv (c\<lparr>cx_trusted := (cx_trusted c)(src \<mapsto> n\<lparr>node_addr := a, last_heartbeat := h\<rparr>)\<rparr>)"
      if "is_node_trusted c src" and "is_daemon_node n" for a h
      using that ctx_inv_trustedD [OF c, of src] ctx_inv_nodesD [OF c Some]
      by (intro ctx_inv_put_trusted [OF c]) (auto simp: is_node_trusted_def)
    then show ?thesis
      using c Some by (auto simp: refresh_sender_observed_addr_def upsert.inv Let_def split: option.split)
  qed (simp add: refresh_sender_observed_addr_def c split: option.split)
  have e: "set (cx_effects (fst (refresh_sender_observed_addr E c src))) \<subseteq> set (cx_effects c) \<union> range StaticAdd"
    by (auto simp: refresh_sender_observed_addr_def upsert_active_node_def Let_def split: option.split)
  show "frame_of (touch_sender E c src s) = frame_of c"
    using r by (auto simp: touch_sender_def Let_def case_prod_beta split: option.split)
  show "dom (cx_trusted c) \<subseteq> dom (cx_trusted (touch_sender E c src s))"
    using t by (auto simp: touch_sender_def Let_def case_prod_beta split: option.split)
  show "set (cx_effects (touch_sender E c src s)) \<subseteq> set (cx_effects c) \<union> range StaticAdd"
    using e by (auto simp: touch_sender_def Let_def case_prod_beta split: option.split)
  show "ctx_inv (touch_sender E c src s)" if "ctx_inv c"
    using i [OF that] that
    by (auto simp: touch_sender_def Let_def case_prod_beta split: option.split
        intro!: ctx_inv_put_node dest: ctx_inv_nodesD)
qed


section \<open>The handlers\<close>

lemma learn_sender_keeps:
  "frame_of (learn_sender E c src addr al services invitor) = frame_of c"
  "ctx_inv c \<Longrightarrow> ctx_inv (learn_sender E c src addr al services invitor)"
  "dom (cx_trusted c) \<subseteq> dom (cx_trusted (learn_sender E c src addr al services invitor))"
  using learn.frame [where c = c and E = E and src = src and x = "(addr, al, services, invitor)"] learn.inv [where c = c and E = E and src = src and x = "(addr, al, services, invitor)"]
    learn.grows [where c = c and E = E and src = src and x = "(addr, al, services, invitor)"]
  by (simp_all add: learn_from_def)

lemma send_message_to_fields [simp]:
  "cx_nodes (send_message_to E c i m) = cx_nodes c" "cx_trusted (send_message_to E c i m) = cx_trusted c"
  "frame_of (send_message_to E c i m) = frame_of c" "ctx_inv (send_message_to E c i m) = ctx_inv c"
  by (simp_all add: send_message_to_def Let_def)

lemma send_message_to_other:
  assumes "i \<noteq> node_id (cx_me c)"
  obtains target where "send_message_to E c i m = emit (SendMsg target m) c"
    and "ea_id target = (case cx_nodes c i of Some n \<Rightarrow> ea_id (node_addr n) | None \<Rightarrow> i)"
  using assms by (cases "cx_nodes c i") (auto simp: send_message_to_def Let_def ea_new_def)

lemma process_message_frame: "frame_of (process_message E c src m s) = frame_of c"
  using touch.frame [where c = c and E = E and src = src and x = s]
  by (simp add: process_message_def Let_def learn_sender_keeps absorb_nodes_def absorb.loop_frame split: message.split)

lemma process_message_inv: "ctx_inv c \<Longrightarrow> ctx_inv (process_message E c src m s)"
  using touch.inv [where c = c and E = E and src = src and x = s]
  by (auto simp: process_message_def Let_def learn_sender_keeps absorb_nodes_def absorb.loop_inv
      split: message.split intro!: ctx_inv_drop_nodes split: if_splits)

lemma process_message_trusted_grows: "dom (cx_trusted c) \<subseteq> dom (cx_trusted (process_message E c src m s))"
proof -
  let ?t = "touch_sender E c src s"
  have t: "dom (cx_trusted c) \<subseteq> dom (cx_trusted ?t)" by (rule touch.grows)
  have l: "dom (cx_trusted ?t) \<subseteq> dom (cx_trusted (learn_sender E ?t src a al se i))" for a al se i
    by (rule learn_sender_keeps)
  have f: "dom (cx_trusted ?t) \<subseteq> dom (cx_trusted (fold (absorb_node E src) ns ?t))" for ns
    by (rule absorb.loop_grows)
  show ?thesis
  proof (cases m)
    case (Invited topic rnum a al se i)
    then show ?thesis using t l [of a al se i] by (simp add: process_message_def Let_def) blast
  next
    case (AboutMe a al se i)
    then show ?thesis using t l [of a al se i] by (simp add: process_message_def Let_def) blast
  next
    case (SyncRequest ns)
    then show ?thesis using t f [of ns] by (simp add: process_message_def Let_def absorb_nodes_def) blast
  next
    case (SyncResponse ns)
    then show ?thesis using t f [of ns] by (simp add: process_message_def Let_def absorb_nodes_def) blast
  qed (use t in \<open>simp_all add: process_message_def Let_def\<close>)
qed

lemma cleanup_fields:
  "cx_trusted (cleanup E c) = cx_trusted c" "frame_of (cleanup E c) = frame_of c"
  "ctx_inv c \<Longrightarrow> ctx_inv (cleanup E c)"
  by (auto simp: cleanup_def Let_def remove_all_apply intro!: ctx_inv_drop_nodes split: if_splits)

lemma save_trusted_fields:
  "cx_nodes (fst (save_trusted L fails E c)) = cx_nodes c" "cx_trusted (fst (save_trusted L fails E c)) = cx_trusted c"
  "cx_me (fst (save_trusted L fails E c)) = cx_me c" "ctx_inv (fst (save_trusted L fails E c)) = ctx_inv c"
  by (simp_all add: save_trusted_def Let_def case_prod_beta)

lemma announce_join_fields:
  "cx_nodes (announce_join E c) = cx_nodes c" "cx_trusted (announce_join E c) = cx_trusted c"
  "cx_me (announce_join E c) = cx_me c" "ctx_inv (announce_join E c) = ctx_inv c"
  by (simp_all add: announce_join_def Let_def)

lemma untrust_node_inv: "ctx_inv c \<Longrightarrow> ctx_inv (untrust_node c i)"
  by (simp add: untrust_node_def ctx_inv_drop_trusted)

lemma set_paused_inv: "ctx_inv (set_paused c b) = ctx_inv c"
  by (simp add: set_paused_def)


section \<open>Absorbing a list of nodes\<close>

definition relevant :: "ctx \<Rightarrow> node \<Rightarrow> bool" where
  "relevant c n = (node_id n \<noteq> node_id (cx_me c) \<and> is_daemon_node n)"

text \<open>The table already has a report about \<open>n\<close>'s node that is at least as fresh.\<close>

definition covers :: "ctx \<Rightarrow> node \<Rightarrow> bool" where
  "covers c n = (\<exists>e. cx_nodes c (node_id n) = Some e \<and> last_heartbeat n \<le> last_heartbeat e)"

lemma absorb_node_noop: "\<not> relevant c n \<or> covers c n \<Longrightarrow> absorb_node E src n c = c"
  by (auto simp: absorb_node_def relevant_def covers_def)

lemma merge_node_heartbeat: "last_heartbeat n \<le> last_heartbeat (fst (merge_node existing n))"
  by (cases existing) (simp_all add: merge_node_fields)

lemma absorb_node_eq:
  assumes c: "ctx_inv c" and "relevant c n" and "\<not> covers c n"
  obtains m where "absorb_node E src n c = upsert_active_node (trust_daemon_node c m) m"
    and "node_id m = node_id n" and "last_heartbeat n \<le> last_heartbeat m"
    and "cx_nodes c (node_id n) = None \<Longrightarrow> is_daemon_node m"
proof -
  let ?n = "if node_id n = src then n\<lparr>node_addr := sender_message_addr E src (node_addr n)\<rparr> else n"
  let ?m = "fst (merge_node (cx_nodes c (node_id n)) ?n)"
  have id: "node_id ?n = node_id n" and hb: "last_heartbeat ?n = last_heartbeat n" by simp_all
  have "node_id ?m = node_id n"
    using ctx_inv_nodesD [OF c] id by (metis merge_node_id_opt)
  moreover have "(case cx_nodes c (node_id n) of None \<Rightarrow> True | Some e \<Rightarrow> last_heartbeat e < last_heartbeat n)"
    using assms(3) by (auto simp: covers_def split: option.split)
  then have "absorb_node E src n c = upsert_active_node (trust_daemon_node c ?m) ?m"
    using assms(2) unfolding absorb_node_def relevant_def Let_def id hb by simp
  moreover have "last_heartbeat n \<le> last_heartbeat ?m" using merge_node_heartbeat [of ?n] hb by simp
  moreover have "is_daemon_node ?m" if "cx_nodes c (node_id n) = None"
    using that assms(2) by (simp add: relevant_def)
  ultimately show ?thesis by (intro that)
qed

lemma absorb_node_update:
  assumes "ctx_inv c" and "relevant c n" and "\<not> covers c n"
  obtains e where "cx_nodes (absorb_node E src n c) = (cx_nodes c)(node_id n \<mapsto> e)"
    and "last_heartbeat n \<le> last_heartbeat e"
proof -
  obtain m where m: "absorb_node E src n c = upsert_active_node (trust_daemon_node c m) m"
    "node_id m = node_id n" "last_heartbeat n \<le> last_heartbeat m" using assms by (rule absorb_node_eq)
  moreover have "cx_me (trust_daemon_node c m) = cx_me c" by (rule trust.keeps)
  ultimately have "cx_nodes (absorb_node E src n c) = (cx_nodes c)(node_id n \<mapsto> m)"
    using assms(2) by (simp add: upsert_active_node_simps trust_daemon_node_simps relevant_def)
  with m(3) show ?thesis by (intro that)
qed

lemma relevant_absorb [simp]: "relevant (absorb_node E src n c) = relevant c"
  by (rule ext) (simp add: relevant_def absorb.keeps)

lemma covers_absorb_self: "ctx_inv c \<Longrightarrow> relevant c n \<Longrightarrow> covers (absorb_node E src n c) n"
proof (cases "covers c n")
  case False
  assume "ctx_inv c" "relevant c n"
  then obtain e where "cx_nodes (absorb_node E src n c) = (cx_nodes c)(node_id n \<mapsto> e)"
    "last_heartbeat n \<le> last_heartbeat e" using False by (rule absorb_node_update)
  then show ?thesis by (simp add: covers_def)
qed (simp add: absorb_node_noop)

lemma covers_absorb_mono: "ctx_inv c \<Longrightarrow> covers c k \<Longrightarrow> covers (absorb_node E src n c) k"
proof (cases "relevant c n \<and> \<not> covers c n")
  case True
  assume c: "ctx_inv c" and k: "covers c k"
  obtain e where e: "cx_nodes (absorb_node E src n c) = (cx_nodes c)(node_id n \<mapsto> e)"
    "last_heartbeat n \<le> last_heartbeat e" using c True by (auto elim: absorb_node_update)
  have "last_heartbeat k \<le> last_heartbeat n" if "node_id k = node_id n"
    using k True that by (fastforce simp: covers_def)
  with e k show ?thesis by (auto simp: covers_def)
qed (auto simp: absorb_node_noop)

lemma covers_loop_mono: "ctx_inv c \<Longrightarrow> covers c k \<Longrightarrow> covers (fold (absorb_node E src) ns c) k"
  by (induction ns arbitrary: c) (simp_all add: covers_absorb_mono absorb.inv)

lemma covers_loop: "ctx_inv c \<Longrightarrow> n \<in> set ns \<Longrightarrow> relevant c n \<Longrightarrow> covers (fold (absorb_node E src) ns c) n"
  by (induction ns arbitrary: c) (auto simp: covers_absorb_self absorb.inv intro: covers_loop_mono)

lemma absorb_loop_noop: "(\<And>n. n \<in> set ns \<Longrightarrow> relevant c n \<Longrightarrow> covers c n) \<Longrightarrow> fold (absorb_node E src) ns c = c"
proof (induction ns arbitrary: c)
  case (Cons n ns)
  have "absorb_node E src n c = c" using Cons.prems [of n] by (auto intro: absorb_node_noop)
  with Cons show ?case by simp
qed simp

text \<open>Only reports in the list make a node trusted.\<close>

lemma absorb_node_trusted_new:
  assumes c: "ctx_inv c" and i: "i \<in> dom (cx_trusted (absorb_node E src n c))" "i \<notin> dom (cx_trusted c)"
  shows "i = node_id n \<and> is_daemon_node n"
proof (cases "relevant c n \<and> \<not> covers c n")
  case True
  then obtain m where m: "absorb_node E src n c = upsert_active_node (trust_daemon_node c m) m"
    "node_id m = node_id n" using c by (auto elim: absorb_node_eq)
  have "dom (cx_trusted (absorb_node E src n c)) \<subseteq> insert (node_id n) (dom (cx_trusted c))"
    using m by (auto simp add: upsert_active_node_simps trust_daemon_node_simps c)
  with True i show ?thesis by (auto simp: relevant_def)
next
  case False
  then have "absorb_node E src n c = c" by (intro absorb_node_noop) blast
  with i show ?thesis by simp
qed

lemma absorb_loop_trusted_new:
  "ctx_inv c \<Longrightarrow> i \<in> dom (cx_trusted (fold (absorb_node E src) ns c)) \<Longrightarrow> i \<notin> dom (cx_trusted c) \<Longrightarrow>
   \<exists>n \<in> set ns. node_id n = i \<and> is_daemon_node n"
proof (induction ns arbitrary: c)
  case (Cons n ns)
  show ?case
  proof (cases "i \<in> dom (cx_trusted (absorb_node E src n c))")
    case True
    with Cons.prems absorb_node_trusted_new [of c i E src n] show ?thesis by auto
  next
    case False
    then have "\<exists>k \<in> set ns. node_id k = i \<and> is_daemon_node k"
      using Cons.prems by (intro Cons.IH [of "absorb_node E src n c"]) (simp_all add: absorb.inv)
    then show ?thesis by auto
  qed
qed simp


lemma touch_sender_trusted_dom: "dom (cx_trusted (touch_sender E c src s)) = dom (cx_trusted c)"
proof -
  have "dom (cx_trusted (fst (refresh_sender_observed_addr E c src))) = dom (cx_trusted c)"
    by (auto simp: refresh_sender_observed_addr_def upsert_active_node_simps is_node_trusted_def Let_def
        split: option.split)
  then show ?thesis
    by (auto simp: touch_sender_def Let_def case_prod_beta split: option.split)
qed

lemma learn_sender_eq:
  assumes c: "ctx_inv c"
  obtains m where "learn_sender E c src addr al services invitor = upsert_active_node (trust_daemon_node c m) m"
    and "node_id m = src"
proof -
  let ?n = "\<lparr>node_id = src, node_invitor = invitor, node_addr = sender_message_addr E src addr,
      node_domain = al, node_services = services, last_heartbeat = clock E 1\<rparr>"
  have "node_id (fst (merge_node (cx_nodes c src) ?n)) = src"
    using merge_node_id_opt [of "cx_nodes c src" ?n] ctx_inv_nodesD [OF c, of src] by simp
  then show ?thesis by (intro that) (simp_all add: learn_sender_def Let_def)
qed

lemma learn_sender_trusted_new:
  assumes c: "ctx_inv c"
  shows "dom (cx_trusted (learn_sender E c src addr al services invitor)) \<subseteq> insert src (dom (cx_trusted c))"
proof -
  obtain m where "learn_sender E c src addr al services invitor = upsert_active_node (trust_daemon_node c m) m"
    and "node_id m = src" using c by (rule learn_sender_eq)
  then show ?thesis by (auto simp: upsert_active_node_simps trust_daemon_node_simps c)
qed

lemma touch_sender_unpassed [simp]: "\<not> vs_passed s \<Longrightarrow> touch_sender E c src s = c"
  by (simp add: touch_sender_def)


lemma touch_sender_other: "ctx_inv c \<Longrightarrow> k \<noteq> src \<Longrightarrow> cx_nodes (touch_sender E c src s) k = cx_nodes c k"
  using ctx_inv_nodesD [of c src]
  by (auto simp: touch_sender_def refresh_sender_observed_addr_def upsert_active_node_simps Let_def split: option.split)

text \<open>A message that passed stamps the sender's record with the time of its arrival.\<close>

lemma touch_sender_stamp:
  assumes "ctx_inv c" and "vs_passed s" and "src \<noteq> node_id (cx_me c)" and n: "cx_nodes c src = Some n"
  obtains a where "cx_nodes (touch_sender E c src s) src = Some (n\<lparr>node_addr := a, last_heartbeat := clock E 0\<rparr>)"
proof -
  have id: "node_id n = src" using assms(1) n by (rule ctx_inv_nodesD)
  show ?thesis
  proof (cases "observed_direct_addr E src")
    case None
    with assms have "cx_nodes (touch_sender E c src s) src = Some (n\<lparr>node_addr := node_addr n, last_heartbeat := clock E 0\<rparr>)"
      by (simp add: touch_sender_def refresh_sender_observed_addr_def)
    then show ?thesis by (rule that)
  next
    case (Some a)
    with assms id have "cx_nodes (touch_sender E c src s) src = Some (n\<lparr>node_addr := a, last_heartbeat := clock E 0\<rparr>)"
      by (simp add: touch_sender_def refresh_sender_observed_addr_def upsert_active_node_simps Let_def)
    then show ?thesis by (rule that)
  qed
qed

lemma touch_sender_unknown: "cx_nodes c src = None \<Longrightarrow> cx_nodes (touch_sender E c src s) = cx_nodes c"
  by (simp add: touch_sender_def refresh_sender_observed_addr_def split: option.split)


section \<open>Cleaning up and saving\<close>

definition expired :: "u64 \<Rightarrow> node \<Rightarrow> bool" where
  "expired now n \<longleftrightarrow> is_daemon_node n \<and> unat (last_heartbeat n) + 90 < unat now"

lemma in_stale_node_ids:
  assumes "snapshot_of xs m"
  shows "k \<in> set (stale_node_ids now xs) \<longleftrightarrow> (\<exists>n. m k = Some n \<and> expired now n)"
proof -
  have ttl: "stale_node_ttl_secs < saturating_sub now (last_heartbeat n) \<longleftrightarrow> unat (last_heartbeat n) + 90 < unat now" for n
    by (simp add: word_less_nat_alt stale_node_ttl_secs_def) arith
  have "set (stale_node_ids now xs) = fst ` {e \<in> set xs. expired now (snd e)}"
    by (simp add: stale_node_ids_def expired_def is_daemon_node_def case_prod_beta ttl)
  then have "k \<in> set (stale_node_ids now xs) \<longleftrightarrow> (\<exists>n. (k, n) \<in> set xs \<and> expired now n)"
    by force
  then show ?thesis using snapshot_of_mem [OF assms] by simp
qed

definition survivors :: "env \<Rightarrow> ctx \<Rightarrow> endpoint_id \<rightharpoonup> node" where
  "survivors E c = (\<lambda>k. case cx_nodes c k of None \<Rightarrow> None
     | Some n \<Rightarrow> if expired (clock E 0) n then None else Some n)"

lemma cleanup_nodes:
  assumes c: "ctx_inv c" and E: "env_ok E"
  shows "cx_nodes (cleanup E c) k =
    (case survivors E c k of None \<Rightarrow> None
     | Some n \<Rightarrow> if first_max last_heartbeat
            (filter (\<lambda>m. node_domain m = node_domain n) (map snd (iter_nodes E (survivors E c)))) = Some n
         then Some n else None)"
proof -
  have fin: "finite (dom (cx_nodes c))" using c by (simp add: ctx_inv_def)
  then have s0: "snapshot_of (iter_nodes E (cx_nodes c)) (cx_nodes c)" using E by (simp add: env_ok_def)
  have stage1: "remove_all (stale_node_ids (clock E 0) (iter_nodes E (cx_nodes c))) (cx_nodes c) = survivors E c"
    by (rule ext) (auto simp: remove_all_apply in_stale_node_ids [OF s0] survivors_def split: option.split)
  have "dom (survivors E c) \<subseteq> dom (cx_nodes c)"
    by (auto simp: survivors_def split: option.splits)
  then have s1: "snapshot_of (iter_nodes E (survivors E c)) (survivors E c)"
    using E finite_subset [OF _ fin] by (simp add: env_ok_def)
  have key: "node_id n = j" if "survivors E c j = Some n" for j n
    using that ctx_inv_nodesD [OF c] by (auto simp: survivors_def split: option.splits if_splits)
  let ?xs = "map snd (iter_nodes E (survivors E c))"
  have ids: "map node_id ?xs = map fst (iter_nodes E (survivors E c))"
    using snapshot_of_mem [OF s1] key by auto
  then have dist: "distinct (map node_id ?xs)" unfolding ids using s1 by (simp only: snapshot_of_def)
  show ?thesis
  proof (cases "survivors E c k")
    case (Some n)
    then have n: "n \<in> set ?xs" and id: "node_id n = k"
      using snapshot_of_mem [OF s1, of k n] key by force+
    show ?thesis
      using ids_to_remove_iff [OF dist n] Some unfolding id
      by (simp add: cleanup_def Let_def stage1 remove_all_apply id)
  qed (simp add: cleanup_def Let_def stage1 remove_all_apply)
qed


lemma survivorsD:
  "survivors E c k = Some n \<longleftrightarrow> cx_nodes c k = Some n \<and> \<not> expired (clock E 0) n"
  by (auto simp: survivors_def split: option.split)

lemma ran_survivors: "ran (survivors E c) = {n \<in> ran (cx_nodes c). \<not> expired (clock E 0) n}"
  by (auto simp: ran_def survivorsD)

text \<open>The winner of a name, in the order of the iteration.\<close>

definition name_winner :: "env \<Rightarrow> ctx \<Rightarrow> string \<Rightarrow> node option" where
  "name_winner E c d = first_max last_heartbeat
     (filter (\<lambda>m. node_domain m = d) (map snd (iter_nodes E (survivors E c))))"

lemma survivors_entries:
  assumes "ctx_inv c" and "env_ok E"
  shows "set (map snd (iter_nodes E (survivors E c))) = ran (survivors E c)"
proof -
  have "finite (dom (cx_nodes c))" using assms(1) by (simp add: ctx_inv_def)
  moreover have "dom (survivors E c) \<subseteq> dom (cx_nodes c)" by (auto simp: survivorsD)
  ultimately have "finite (dom (survivors E c))" by (metis finite_subset)
  then have "snapshot_of (iter_nodes E (survivors E c)) (survivors E c)"
    using assms(2) by (simp add: env_ok_def)
  from snapshot_of_mem [OF this] show ?thesis by (force simp: ran_def)
qed

lemma cleanup_iff:
  assumes "ctx_inv c" and "env_ok E"
  shows "cx_nodes (cleanup E c) k = Some n \<longleftrightarrow>
    survivors E c k = Some n \<and> name_winner E c (node_domain n) = Some n"
  by (auto simp: cleanup_nodes [OF assms] name_winner_def split: option.split)

lemma name_winner_mem:
  assumes "ctx_inv c" and "env_ok E" and "name_winner E c d = Some w"
  shows "w \<in> ran (survivors E c)" and "node_domain w = d"
    and "m \<in> ran (survivors E c) \<Longrightarrow> node_domain m = d \<Longrightarrow> last_heartbeat m \<le> last_heartbeat w"
  using first_max_SomeD [OF assms(3) [unfolded name_winner_def]]
  unfolding survivors_entries [OF assms(1,2), symmetric] by auto

lemma name_winner_ex:
  assumes "ctx_inv c" and "env_ok E" and "n \<in> ran (survivors E c)"
  obtains w where "name_winner E c (node_domain n) = Some w"
proof -
  have "filter (\<lambda>m. node_domain m = node_domain n) (map snd (iter_nodes E (survivors E c))) \<noteq> []"
    using assms(3) survivors_entries [OF assms(1,2)] unfolding filter_empty_conv by auto
  then show ?thesis using first_max_ex that unfolding name_winner_def by metis
qed

lemma ran_cleanup:
  assumes "ctx_inv c" and "env_ok E"
  shows "ran (cx_nodes (cleanup E c)) = {w. \<exists>d. name_winner E c d = Some w}"
proof
  show "ran (cx_nodes (cleanup E c)) \<subseteq> {w. \<exists>d. name_winner E c d = Some w}"
    by (auto simp: ran_def cleanup_iff [OF assms])
  show "{w. \<exists>d. name_winner E c d = Some w} \<subseteq> ran (cx_nodes (cleanup E c))"
  proof
    fix w assume "w \<in> {w. \<exists>d. name_winner E c d = Some w}"
    then obtain d where d: "name_winner E c d = Some w" by blast
    note w = name_winner_mem [OF assms d]
    then obtain k where "survivors E c k = Some w" by (auto simp: ran_def)
    with d w(2) have "cx_nodes (cleanup E c) k = Some w" by (simp add: cleanup_iff [OF assms])
    then show "w \<in> ran (cx_nodes (cleanup E c))" by (auto simp: ran_def)
  qed
qed


section \<open>Listed implies trusted\<close>

text \<open>A daemon that enters the table through a list is trusted.\<close>

definition listed_trusted :: "endpoint_id \<Rightarrow> ctx \<Rightarrow> bool" where
  "listed_trusted j c \<longleftrightarrow> (cx_nodes c j = None \<or> j \<in> dom (cx_trusted c))"

lemma absorb_listed_trusted: "ctx_inv c \<Longrightarrow> listed_trusted j c \<Longrightarrow> listed_trusted j (absorb_node E src n c)"
proof (cases "relevant c n \<and> \<not> covers c n")
  case True
  assume c: "ctx_inv c" and j: "listed_trusted j c"
  from True c obtain m where m: "absorb_node E src n c = upsert_active_node (trust_daemon_node c m) m"
    "node_id m = node_id n" "cx_nodes c (node_id n) = None \<Longrightarrow> is_daemon_node m"
    using absorb_node_eq by metis
  have me: "cx_me (trust_daemon_node c m) = cx_me c" by (rule trust.keeps)
  show ?thesis
    using j m(2,3) True
    by (auto simp: m(1) listed_trusted_def upsert_active_node_simps trust_daemon_node_simps c me relevant_def)
next
  case False
  assume "listed_trusted j c"
  with False show ?thesis by (metis absorb_node_noop)
qed

lemma loop_listed_trusted: "ctx_inv c \<Longrightarrow> listed_trusted j c \<Longrightarrow> listed_trusted j (fold (absorb_node E src) ns c)"
  by (induction ns arbitrary: c) (simp_all add: absorb_listed_trusted absorb.inv)

end
