(* ===== verification/Addr_Text.thy ===== *)
theory Addr_Text
  imports Endpoint_Addr
begin

text \<open>
  How the standard library prints an IP address (\<open>impl Display for Ipv4Addr\<close> and \<open>Ipv6Addr\<close>): the
  dotted decimal form, and the compressed form of RFC 5952, where the first longest run of at
  least two zero segments becomes \<open>::\<close> and an IPv4-mapped address ends in its dotted form.
\<close>

definition hex_digit :: "nat \<Rightarrow> char" where
  "hex_digit d = (if d < 10 then char_of (48 + d) else char_of (87 + d))"

fun show_hex :: "nat \<Rightarrow> string" where
  "show_hex n = (if n < 16 then [hex_digit n] else show_hex (n div 16) @ [hex_digit (n mod 16)])"

declare show_hex.simps [simp del]

definition show_ipv4 :: "u32 \<Rightarrow> string" where
  "show_ipv4 a = join ''.'' (map (\<lambda>i. show_nat (ipv4_octet i a)) [0, 1, 2, 3])"

text \<open>The scan for the longest run: the current run, the best so far, each as start and length.\<close>

fun zero_run :: "nat \<Rightarrow> nat \<times> nat \<Rightarrow> nat \<times> nat \<Rightarrow> nat list \<Rightarrow> nat \<times> nat" where
  "zero_run i cur best [] = best"
| "zero_run i cur best (s # ss) =
     (if s = 0
      then let cur = (if snd cur = 0 then (i, 1) else (fst cur, snd cur + 1));
               best = (if snd best < snd cur then cur else best)
           in zero_run (i + 1) cur best ss
      else zero_run (i + 1) (0, 0) best ss)"

definition show_segments :: "nat list \<Rightarrow> string" where
  "show_segments ss = join '':'' (map show_hex ss)"

definition show_ipv6 :: "u128 \<Rightarrow> string" where
  "show_ipv6 a =
     (if unat a div 2 ^ 32 = 0xFFFF then ''::ffff:'' @ show_ipv4 (of_nat (unat a mod 2 ^ 32))
      else
        let segments = map (\<lambda>i. ipv6_segment i a) [0, 1, 2, 3, 4, 5, 6, 7];
            (start, len) = zero_run 0 (0, 0) (0, 0) segments
        in if 1 < len
           then show_segments (take start segments) @ ''::'' @ show_segments (drop (start + len) segments)
           else show_segments segments)"

fun show_ip :: "ip_addr \<Rightarrow> string" where
  "show_ip (IpV4 a) = show_ipv4 a"
| "show_ip (IpV6 a) = show_ipv6 a"

text \<open>\<open>Display\<close> of a socket address; a scope id of zero is left out.\<close>

fun show_socket_addr :: "socket_addr \<Rightarrow> string" where
  "show_socket_addr (SockV4 a p) = show_ip (IpV4 a) @ '':'' @ show_nat (unat p)"
| "show_socket_addr (SockV6 a p f sc) =
     ''['' @ show_ip (IpV6 a) @ (if sc = 0 then [] else ''%'' @ show_nat (unat sc)) @ '']:'' @ show_nat (unat p)"

text \<open>The characters it uses.\<close>

definition ip_char :: "char \<Rightarrow> bool" where
  "ip_char c \<longleftrightarrow> is_ascii_digit c \<or> code_in 97 102 c \<or> c = CHR ''.'' \<or> c = CHR '':''"

lemma digit_char_ip: "d < 10 \<Longrightarrow> ip_char (digit_char d)"
  by (simp add: ip_char_def digit_char_def is_ascii_digit_def code_in_def)

lemma hex_digit_ip: "d < 16 \<Longrightarrow> ip_char (hex_digit d)"
  by (simp add: ip_char_def hex_digit_def is_ascii_digit_def code_in_def)

lemma show_nat_ip: "list_all ip_char (show_nat n)"
proof (induction n rule: show_nat.induct)
  case (1 n)
  then show ?case by (subst show_nat.simps) (simp add: digit_char_ip)
qed

lemma show_hex_ip: "list_all ip_char (show_hex n)"
proof (induction n rule: show_hex.induct)
  case (1 n)
  then show ?case by (subst show_hex.simps) (simp add: hex_digit_ip)
qed

lemma list_all_join: "list_all P sep \<Longrightarrow> (\<And>x. x \<in> set xs \<Longrightarrow> list_all P x) \<Longrightarrow> list_all P (join sep xs)"
  by (induction sep xs rule: join.induct) auto

lemma show_ip_chars: "list_all ip_char (show_ip a)"
proof -
  have sep: "ip_char (CHR ''.'')" "ip_char (CHR '':'')" "list_all ip_char ''::ffff:''"
    by (simp_all add: ip_char_def code_in_def)
  have v4: "list_all ip_char (show_ipv4 w)" for w
    unfolding show_ipv4_def using sep by (intro list_all_join) (auto simp: show_nat_ip)
  have seg: "list_all ip_char (show_segments ss)" for ss
    unfolding show_segments_def using sep by (intro list_all_join) (auto simp: show_hex_ip)
  show ?thesis
    using sep by (cases a) (simp_all add: v4 seg show_ipv6_def Let_def case_prod_beta)
qed

lemma show_nat_not_Nil: "show_nat n \<noteq> []"
  by (subst show_nat.simps) simp

lemma show_hex_not_Nil: "show_hex n \<noteq> []"
  by (subst show_hex.simps) simp

lemma join_Cons_not_Nil: "x \<noteq> [] \<Longrightarrow> join sep (x # xs) \<noteq> []"
  by (cases xs) simp_all

lemma show_ip_not_Nil: "show_ip a \<noteq> []"
proof (cases a)
  case (IpV4 w)
  then show ?thesis by (simp add: show_ipv4_def join_Cons_not_Nil show_nat_not_Nil del: join.simps)
next
  case (IpV6 w)
  have "show_segments (x # xs) \<noteq> []" for x xs
    by (simp add: show_segments_def join_Cons_not_Nil show_hex_not_Nil)
  then have "show_ipv6 w \<noteq> []"
    unfolding show_ipv6_def Let_def case_prod_beta list.map
    by (simp only: split: if_split) simp
  with IpV6 show ?thesis by simp
qed

end
