(* ===== verification/Client_Admin.thy ===== *)
theory Client_Admin
  imports Context_Invariant Addr_Text
begin

text \<open>
  \<open>src/admin/protocol.rs\<close>, \<open>src/admin/authz.rs\<close> and \<open>src/admin/handler.rs\<close>: the messages between
  an admin client and the daemon, the registry of clients and what a command does. Base64, the
  parser and the printer of endpoint ids, the printers that only end up in texts for
  the user and Unicode lowercasing are the fields of \<open>admin_lib\<close>.
\<close>

section \<open>Protocol\<close>

record auth_request =
  ar_ticket :: string
  ar_client_public_key :: "string option"
  ar_client_name :: "string option"

record auth_response =
  as_success :: bool
  as_error :: "string option"
  as_daemon_public_key :: "string option"

datatype client_command =
    Query | AddNode string | RemoveNode string | Status | GetTicket | Pause | Resume | Shutdown

datatype client_response =
    Nodes "node list" | StatusIs daemon_status | TicketIs string | Ack string | ErrorIs string

record admin_command_request =
  acr_auth :: auth_request
  acr_command :: client_command

section \<open>The registry of clients\<close>

record client_registry =
  cr_clients :: "endpoint_id \<rightharpoonup> client_info"

definition registry_new :: client_registry where
  "registry_new = \<lparr>cr_clients = Map.empty\<rparr>"

definition add_client :: "client_registry \<Rightarrow> endpoint_id \<Rightarrow> client_info \<Rightarrow> client_registry" where
  "add_client r i info = r\<lparr>cr_clients := (cr_clients r)(i \<mapsto> info)\<rparr>"

definition remove_client :: "client_registry \<Rightarrow> endpoint_id \<Rightarrow> client_registry" where
  "remove_client r i = r\<lparr>cr_clients := (cr_clients r)(i := None)\<rparr>"

definition is_client_node :: "client_registry \<Rightarrow> endpoint_id \<Rightarrow> bool" where
  "is_client_node r i = (cr_clients r i \<noteq> None)"

definition check_permission :: "client_registry \<Rightarrow> endpoint_id \<Rightarrow> string \<Rightarrow> bool" where
  "check_permission r i perm =
     (case cr_clients r i of
        Some info \<Rightarrow>
          (if perm = ''query'' then can_query (ci_permissions info)
           else if perm = ''add_node'' then can_add_node (ci_permissions info)
           else if perm = ''remove_node'' then can_remove_node (ci_permissions info)
           else if perm = ''control'' then can_control (ci_permissions info)
           else False)
      | None \<Rightarrow> False)"

definition client_count :: "client_registry \<Rightarrow> nat" where
  "client_count r = card (dom (cr_clients r))"

section \<open>Handlers\<close>

datatype admin_action = ActShutdown

datatype auth_mode = RequireTicket | AllowLocalTicketless

record command_outcome =
  co_response :: client_response
  co_action :: "admin_action option"

record admin_lib =
  al_ticket :: ticket_lib
  al_store :: store_lib
  key_b64_decode :: "string \<Rightarrow> bytes option"
  key_b64_encode :: "bytes \<Rightarrow> string"
  key_from_bytes :: "bytes \<Rightarrow> endpoint_id option"
  key_as_bytes :: "endpoint_id \<Rightarrow> bytes"
  id_from_str :: "string \<Rightarrow> endpoint_id option"
  to_lowercase :: "string \<Rightarrow> string"
  debug_addr :: "endpoint_addr \<Rightarrow> string"
  show_ticket_error :: "ticket_error \<Rightarrow> string"
  show_storage_error :: "storage_error \<Rightarrow> string"

text \<open>The nested matches on the client's key: any failure along the way counts as no key.\<close>

definition client_key :: "admin_lib \<Rightarrow> auth_request \<Rightarrow> endpoint_id option" where
  "client_key L req =
     (case ar_client_public_key req of
        Some s \<Rightarrow>
          (case key_b64_decode L s of
             Some b \<Rightarrow> (if length b = 32 then key_from_bytes L b else None)
           | None \<Rightarrow> None)
      | None \<Rightarrow> None)"

definition accepted :: "admin_lib \<Rightarrow> ctx \<Rightarrow> auth_response" where
  "accepted L c = \<lparr>as_success = True, as_error = None,
     as_daemon_public_key = Some (key_b64_encode L (key_as_bytes L (node_id (cx_me c))))\<rparr>"

definition client_node :: "admin_lib \<Rightarrow> env \<Rightarrow> auth_request \<Rightarrow> ctx \<Rightarrow> endpoint_id \<Rightarrow> node" where
  "client_node L E req c pk =
     \<lparr>node_id = pk, node_invitor = node_id (cx_me c), node_addr = ea_new pk,
      node_domain = (case ar_client_name req of
                       Some n \<Rightarrow> n
                     | None \<Rightarrow> ''client-'' @ id_string (al_store L) pk),
      node_services = bt_insert service_marker_client service_value_client [],
      last_heartbeat = clock E 0\<rparr>"

definition new_client_info :: "env \<Rightarrow> auth_request \<Rightarrow> client_info" where
  "new_client_info E req =
     \<lparr>ci_connected_at = clock E 1, ci_ticket_used = ar_ticket req, ci_client_name = ar_client_name req,
      ci_permissions = \<lparr>can_query = True, can_add_node = True, can_remove_node = True, can_control = True\<rparr>\<rparr>"

definition authenticate_and_register ::
    "admin_lib \<Rightarrow> env \<Rightarrow> auth_mode \<Rightarrow> auth_request \<Rightarrow> ctx \<Rightarrow> client_registry
     \<Rightarrow> ctx \<times> client_registry \<times> auth_response \<times> endpoint_id option" where
  "authenticate_and_register L E mode req c r =
     (let ticket_valid = (case ticket_from_str (al_ticket L) (ar_ticket req) of
                            Inr t \<Rightarrow> ticket_validate t (t_topic (cx_ticket c)) (t_rnum (cx_ticket c))
                          | Inl e \<Rightarrow> False);
          auth_allowed = (ticket_valid \<or> mode = AllowLocalTicketless)
      in if \<not> auth_allowed
         then (c, r, \<lparr>as_success = False, as_error = Some ''Invalid ticket'', as_daemon_public_key = None\<rparr>, None)
         else
           case client_key L req of
             Some pk \<Rightarrow>
               if is_client_node r pk then (c, r, accepted L c, Some pk)
               else
                 (c\<lparr>cx_nodes := (cx_nodes c)(pk \<mapsto> client_node L E req c pk)\<rparr>,
                  add_client r pk (new_client_info E req), accepted L c, Some pk)
           | None \<Rightarrow> (c, r, accepted L c, None))"

fun required_permission :: "client_command \<Rightarrow> string" where
  "required_permission Query = ''query''"
| "required_permission (AddNode t) = ''add_node''"
| "required_permission (RemoveNode i) = ''remove_node''"
| "required_permission Status = ''query''"
| "required_permission GetTicket = ''query''"
| "required_permission Pause = ''control''"
| "required_permission Resume = ''control''"
| "required_permission Shutdown = ''control''"

definition reply :: "client_response \<Rightarrow> command_outcome" where
  "reply resp = \<lparr>co_response = resp, co_action = None\<rparr>"

definition id_has_prefix :: "admin_lib \<Rightarrow> string \<Rightarrow> endpoint_id \<Rightarrow> bool" where
  "id_has_prefix L pre i = starts_with pre (to_lowercase L (id_string (al_store L) i))"

definition trusted_node_ids_with_prefix :: "admin_lib \<Rightarrow> env \<Rightarrow> ctx \<Rightarrow> string \<Rightarrow> endpoint_id list" where
  "trusted_node_ids_with_prefix L E c pre =
     map fst (filter (\<lambda>e. id_has_prefix L pre (fst e)) (iter_nodes E (cx_trusted c)))"

text \<open>\<open>if !matches.contains(&id) { matches.push(id) }\<close> is \<open>push_new\<close>.\<close>

definition prefix_matches :: "admin_lib \<Rightarrow> env \<Rightarrow> ctx \<Rightarrow> client_registry \<Rightarrow> string \<Rightarrow> endpoint_id list" where
  "prefix_matches L E c r pre =
     fold push_new (trusted_node_ids_with_prefix L E c pre)
       (map fst (filter (\<lambda>e. id_has_prefix L pre (fst e))
                   (filter (\<lambda>e. \<not> is_client_node r (fst e)) (iter_nodes E (cx_nodes c)))))"

definition resolve_node_id :: "admin_lib \<Rightarrow> env \<Rightarrow> ctx \<Rightarrow> client_registry \<Rightarrow> string \<Rightarrow> (string, endpoint_id) result" where
  "resolve_node_id L E c r i =
     (case id_from_str L i of
        Some j \<Rightarrow> Inr j
      | None \<Rightarrow>
          (case prefix_matches L E c r (to_lowercase L i) of
             [] \<Rightarrow> Inl (''No node found matching prefix '' @ [CHR 0x27] @ i @ [CHR 0x27])
           | [j] \<Rightarrow> Inr j
           | ms \<Rightarrow> Inl (''Ambiguous prefix '' @ [CHR 0x27] @ i @ [CHR 0x27] @ '': matches ''
                        @ show_nat (length ms) @ '' nodes. Provide more characters.'')))"

definition query_nodes :: "env \<Rightarrow> ctx \<Rightarrow> client_registry \<Rightarrow> node list" where
  "query_nodes E c r = map snd (filter (\<lambda>e. \<not> is_client_node r (fst e)) (iter_nodes E (cx_nodes c)))"

definition add_node :: "admin_lib \<Rightarrow> faults \<Rightarrow> ctx \<Rightarrow> string \<Rightarrow> ctx \<times> command_outcome" where
  "add_node L fails c text =
     (case ticket_from_str (al_ticket L) text of
        Inl e \<Rightarrow> (c, reply (ErrorIs (''Invalid ticket: '' @ show_ticket_error L e)))
      | Inr parsed \<Rightarrow>
          let (topic, rnum, n) = ticket_flatten parsed
          in if topic \<noteq> t_topic (cx_ticket c)
             then (c, reply (ErrorIs (''Ticket topic does not match this daemon'' @ [CHR 0x27] @ ''s network'')))
             else
               let c = upsert_active_node (trust_daemon_node c n) n;
                   (st, res) = save_node (al_store L) fails (cx_storage c) n;
                   c = c\<lparr>cx_storage := st\<rparr>
               in case res of
                    Inl e \<Rightarrow> (c, reply (ErrorIs (''Failed to persist node: '' @ show_storage_error L e)))
                  | Inr u \<Rightarrow> (c, reply (Ack (''Node added: '' @ node_domain n))))"

definition remove_node_cmd ::
    "admin_lib \<Rightarrow> faults \<Rightarrow> env \<Rightarrow> ctx \<Rightarrow> client_registry \<Rightarrow> string \<Rightarrow> ctx \<times> client_registry \<times> command_outcome" where
  "remove_node_cmd L fails E c r i =
     (case resolve_node_id L E c r i of
        Inl msg \<Rightarrow> (c, r, reply (ErrorIs msg))
      | Inr j \<Rightarrow>
          if j = node_id (cx_me c) then (c, r, reply (ErrorIs ''Refusing to remove self''))
          else
            let domain = (case map_option node_domain (cx_nodes c j) of
                            None \<Rightarrow> trusted_node_domain c j | Some d \<Rightarrow> Some d);
                r = remove_client r j;
                c = untrust_node (c\<lparr>cx_nodes := (cx_nodes c)(j := None)\<rparr>) j;
                (st, res) = remove_node (al_store L) fails (cx_storage c) j;
                c = c\<lparr>cx_storage := st\<rparr>
            in case res of
                 Inl e \<Rightarrow> (c, r, reply (ErrorIs (''Failed to remove from storage: '' @ show_storage_error L e)))
               | Inr u \<Rightarrow> (c, r, reply (Ack (case domain of
                     Some d \<Rightarrow> ''Node removed: '' @ d @ '' ('' @ id_string (al_store L) j @ '')''
                   | None \<Rightarrow> ''Node removed: '' @ id_string (al_store L) j))))"

definition status_of :: "admin_lib \<Rightarrow> env \<Rightarrow> ctx \<Rightarrow> client_registry \<Rightarrow> daemon_status" where
  "status_of L E c r =
     (let ip = (if should_filter_advertised_addrs (cx_args c)
                then best_local_ip_for_display (env_ifaces E) (handle_addr E)
                else best_ip_for_display (handle_addr E));
          my_addr = (case ip of Some a \<Rightarrow> show_ip a | None \<Rightarrow> debug_addr L (handle_addr E))
      in \<lparr>ds_running = True, ds_paused = cx_paused c, ds_node_count = card (dom (cx_nodes c)),
          ds_client_count = client_count r, ds_uptime_seconds = uptime_seconds (clock E 0) c,
          ds_my_domain = node_domain (cx_me c), ds_my_addr = my_addr, ds_hosts_sync = cx_hosts_sync c\<rparr>)"

fun handle_command ::
    "admin_lib \<Rightarrow> faults \<Rightarrow> env \<Rightarrow> client_command \<Rightarrow> ctx \<Rightarrow> client_registry \<Rightarrow> ctx \<times> client_registry \<times> command_outcome" where
  "handle_command L fails E Query c r = (c, r, reply (Nodes (query_nodes E c r)))"
| "handle_command L fails E (AddNode ticket) c r =
     (let (c', out) = add_node L fails c ticket in (c', r, out))"
| "handle_command L fails E (RemoveNode i) c r = remove_node_cmd L fails E c r i"
| "handle_command L fails E Status c r = (c, r, reply (StatusIs (status_of L E c r)))"
| "handle_command L fails E GetTicket c r = (c, r, reply (TicketIs (ticket_to_string (al_ticket L) (cx_ticket c))))"
| "handle_command L fails E Pause c r = (set_paused c True, r, reply (Ack ''Daemon paused''))"
| "handle_command L fails E Resume c r = (set_paused c False, r, reply (Ack ''Daemon resumed''))"
| "handle_command L fails E Shutdown c r =
     (c, r, \<lparr>co_response = Ack ''Daemon shutting down'', co_action = Some ActShutdown\<rparr>)"

section \<open>One command of an authenticated client\<close>

text \<open>The body of the loop in \<open>server.rs\<close>, and the end of the \<open>/command\<close> branch of \<open>http.rs\<close>, up to
  what is written to the client.\<close>

definition run_command ::
    "admin_lib \<Rightarrow> faults \<Rightarrow> env \<Rightarrow> endpoint_id \<Rightarrow> client_command \<Rightarrow> ctx \<Rightarrow> client_registry
     \<Rightarrow> ctx \<times> client_registry \<times> command_outcome" where
  "run_command L fails E pk cmd c r =
     (if \<not> check_permission r pk (required_permission cmd)
      then (c, r, reply (ErrorIs ''Permission denied''))
      else handle_command L fails E cmd c r)"

end
