(* ===== verification/Text_Lines.thy ===== *)
theory Text_Lines
  imports DDNS_Prelude
begin

text \<open>
  Files and streams as text, the way the standard library reads and writes them: UTF-8 validation
  (\<open>str::from_utf8\<close>), \<open>BufRead::lines\<close> with its treatment of carriage returns and of a missing final
  newline, and \<open>writeln!\<close>. The last part is the round trip between writing and reading lines.
\<close>

section \<open>UTF-8\<close>

text \<open>
  The well-formed sequences of the Unicode standard (table 3-7), as an automaton: the state holds the
  ranges that the bytes still missing from the current character must be in.
\<close>

definition utf8_lead :: "char \<Rightarrow> (nat \<times> nat) list option" where
  "utf8_lead c =
     (if code_in 0 127 c then Some []
      else if code_in 194 223 c then Some [(128, 191)]
      else if code_in 224 224 c then Some [(160, 191), (128, 191)]
      else if code_in 237 237 c then Some [(128, 159), (128, 191)]
      else if code_in 225 239 c then Some [(128, 191), (128, 191)]
      else if code_in 240 240 c then Some [(144, 191), (128, 191), (128, 191)]
      else if code_in 244 244 c then Some [(128, 143), (128, 191), (128, 191)]
      else if code_in 241 243 c then Some [(128, 191), (128, 191), (128, 191)]
      else None)"

fun utf8_step :: "(nat \<times> nat) list option \<Rightarrow> char \<Rightarrow> (nat \<times> nat) list option" where
  "utf8_step None c = None"
| "utf8_step (Some []) c = utf8_lead c"
| "utf8_step (Some (r # rs)) c = (if code_in (fst r) (snd r) c then Some rs else None)"

definition utf8_ok :: "string \<Rightarrow> bool" where
  "utf8_ok s = (foldl utf8_step (Some []) s = Some [])"

definition is_ascii :: "char \<Rightarrow> bool" where
  "is_ascii c = code_in 0 127 c"

lemma utf8_ok_ascii: "list_all is_ascii s \<Longrightarrow> utf8_ok s"
  unfolding utf8_ok_def by (induction s) (simp_all add: is_ascii_def utf8_lead_def)

lemma utf8_ok_Nil [simp]: "utf8_ok []"
  by (simp add: utf8_ok_def)

lemma utf8_step_high: "(\<And>rs. st = Some rs \<Longrightarrow> \<forall>r \<in> set rs. 128 \<le> fst r) \<Longrightarrow>
    utf8_step st c = Some rs \<Longrightarrow> \<forall>r \<in> set rs. 128 \<le> fst r"
  by (induction st c rule: utf8_step.induct) (auto simp: utf8_lead_def split: if_splits)

lemma utf8_states_high: "foldl utf8_step (Some []) s = Some rs \<Longrightarrow> \<forall>r \<in> set rs. 128 \<le> fst r"
proof (induction s arbitrary: rs rule: rev_induct)
  case (snoc c s)
  show ?case by (rule utf8_step_high [of "foldl utf8_step (Some []) s" c]) (use snoc in auto)
qed simp

text \<open>A valid text stays valid without a final ASCII character.\<close>

lemma utf8_ok_snoc_ascii:
  assumes "utf8_ok (s @ [c])" and "is_ascii c"
  shows "utf8_ok s"
proof (cases "foldl utf8_step (Some []) s")
  case None
  with assms(1) show ?thesis by (simp add: utf8_ok_def)
next
  case (Some rs)
  show ?thesis
  proof (cases rs)
    case (Cons r rs')
    then have "128 \<le> fst r" using utf8_states_high [OF Some] by simp
    with Some Cons assms show ?thesis by (simp add: utf8_ok_def is_ascii_def code_in_def split: if_splits)
  qed (use Some in \<open>simp add: utf8_ok_def\<close>)
qed

section \<open>Lines\<close>

abbreviation LF :: char where "LF \<equiv> CHR 0x0A"
abbreviation CR :: char where "CR \<equiv> CHR 0x0D"

definition strip_cr :: "string \<Rightarrow> string" where
  "strip_cr l = (if l \<noteq> [] \<and> last l = CR then butlast l else l)"

definition buf_lines :: "string \<Rightarrow> string list" where
  "buf_lines s =
     (let ps = split_on LF s
      in map strip_cr (butlast ps) @ (if last ps = [] then [] else [last ps]))"

text \<open>\<open>lines().map(|line| line.unwrap()).collect()\<close>: a line that is not UTF-8 panics.\<close>

definition lines_unwrap :: "string \<Rightarrow> string list option" where
  "lines_unwrap s = (if list_all utf8_ok (split_on LF s) then Some (buf_lines s) else None)"

text \<open>One \<open>writeln!\<close> per line.\<close>

definition write_lines :: "string list \<Rightarrow> string" where
  "write_lines ls = concat (map (\<lambda>l. l @ [LF]) ls)"

lemma split_on_not_Nil [simp]: "split_on c s \<noteq> []"
  by (cases s) (auto split: list.split)

lemma split_on_no [simp]: "c \<notin> set x \<Longrightarrow> split_on c x = [x]"
  by (induction x) auto

lemma split_on_append: "c \<notin> set x \<Longrightarrow> split_on c (x @ c # y) = x # split_on c y"
  by (induction x) auto

lemma split_on_parts: "p \<in> set (split_on c s) \<Longrightarrow> c \<notin> set p"
proof (induction s arbitrary: p)
  case (Cons x xs)
  show ?case
  proof (cases "x = c")
    case False
    obtain y ys where ys: "split_on c xs = y # ys" by (cases "split_on c xs") auto
    then have IH: "c \<notin> set q" if "q \<in> set (y # ys)" for q using Cons.IH that by metis
    have "split_on c (x # xs) = (x # y) # ys" using False ys by simp
    with Cons.prems consider "p = x # y" | "p \<in> set ys" by auto
    then show ?thesis using IH False by cases auto
  qed (use Cons in auto)
qed simp

lemma split_on_chars: "p \<in> set (split_on c s) \<Longrightarrow> set p \<subseteq> set s"
proof (induction s arbitrary: p)
  case (Cons x xs)
  obtain y ys where ys: "split_on c xs = y # ys" by (cases "split_on c xs") auto
  then have IH: "set q \<subseteq> set xs" if "q \<in> set (y # ys)" for q using Cons.IH that by metis
  show ?case
  proof (cases "x = c")
    case True
    with Cons.prems consider "p = []" | "p \<in> set (y # ys)" using ys by auto
    then show ?thesis using IH by cases auto
  next
    case False
    with Cons.prems ys consider "p = x # y" | "p \<in> set ys" by auto
    then show ?thesis using IH [of y] IH [of p] by cases auto
  qed
qed simp

lemma split_on_write_lines: "\<forall>l \<in> set ls. LF \<notin> set l \<Longrightarrow> split_on LF (write_lines ls) = ls @ [[]]"
  by (induction ls) (simp_all add: write_lines_def split_on_append)

lemma buf_lines_no_LF: "l \<in> set (buf_lines s) \<Longrightarrow> LF \<notin> set l"
proof -
  assume "l \<in> set (buf_lines s)"
  then consider p where "p \<in> set (split_on LF s)" "l = strip_cr p" | "l \<in> set (split_on LF s)"
    by (auto simp: buf_lines_def Let_def dest: in_set_butlastD split: if_splits)
  then show ?thesis
    by cases (auto simp: strip_cr_def dest: split_on_parts in_set_butlastD)
qed

lemma buf_lines_write_lines: "\<forall>l \<in> set ls. LF \<notin> set l \<Longrightarrow> buf_lines (write_lines ls) = map strip_cr ls"
  by (simp add: buf_lines_def split_on_write_lines)

lemma utf8_strip_cr: "utf8_ok l \<Longrightarrow> utf8_ok (strip_cr l)"
proof -
  assume ok: "utf8_ok l"
  show ?thesis
  proof (cases "l \<noteq> [] \<and> last l = CR")
    case True
    then have "l = butlast l @ [CR]" by (metis append_butlast_last_id)
    with ok have "utf8_ok (butlast l @ [CR])" by simp
    then have "utf8_ok (butlast l)" by (rule utf8_ok_snoc_ascii) (simp add: is_ascii_def code_in_def)
    with True show ?thesis by (simp add: strip_cr_def)
  qed (auto simp: strip_cr_def ok)
qed

lemma lines_unwrap_utf8: "lines_unwrap s = Some ls \<Longrightarrow> l \<in> set ls \<Longrightarrow> utf8_ok l"
proof -
  assume "lines_unwrap s = Some ls" and l: "l \<in> set ls"
  then have ok: "list_all utf8_ok (split_on LF s)" and ls: "ls = buf_lines s"
    by (auto simp: lines_unwrap_def split: if_splits)
  from l ls consider p where "p \<in> set (split_on LF s)" "l = strip_cr p" | "l \<in> set (split_on LF s)"
    by (auto simp: buf_lines_def Let_def dest: in_set_butlastD split: if_splits)
  then show ?thesis using ok by cases (auto simp: list_all_iff utf8_strip_cr)
qed

text \<open>What was written as lines is read back as those lines, up to a final carriage return.\<close>

lemma lines_write_lines:
  assumes "\<forall>l \<in> set ls. LF \<notin> set l \<and> utf8_ok l"
  shows "lines_unwrap (write_lines ls) = Some (map strip_cr ls)"
  using assms by (auto simp: lines_unwrap_def split_on_write_lines buf_lines_write_lines list_all_iff)

text \<open>Without carriage returns the lines are all of the content, up to a final line feed.\<close>

lemma split_on_concat: "write_lines (butlast (split_on LF s)) @ last (split_on LF s) = s"
proof (induction s)
  case (Cons x s)
  obtain y ys where ys: "split_on LF s = y # ys" by (cases "split_on LF s") auto
  show ?case
  proof (cases "x = LF")
    case True
    with Cons ys show ?thesis by (simp add: write_lines_def)
  next
    case False
    with Cons ys show ?thesis by (cases ys) (simp_all add: write_lines_def)
  qed
qed (simp add: write_lines_def)

lemma write_lines_buf_lines:
  assumes "CR \<notin> set s"
  shows "write_lines (buf_lines s) = (if last (split_on LF s) = [] then s else s @ [LF])"
proof -
  have "strip_cr p = p" if "p \<in> set (split_on LF s)" for p
    using split_on_chars [OF that] assms by (metis strip_cr_def last_in_set subsetD)
  then have "map strip_cr (butlast (split_on LF s)) = butlast (split_on LF s)"
    by (intro map_idI) (blast dest: in_set_butlastD)
  moreover have "write_lines (xs @ ys) = write_lines xs @ write_lines ys" for xs ys by (simp add: write_lines_def)
  moreover have "write_lines [x] = x @ [LF]" "write_lines [] = []" for x by (simp_all add: write_lines_def)
  ultimately show ?thesis
    using split_on_concat [of s] by (auto simp: buf_lines_def Let_def simp flip: append_assoc)
qed

section \<open>Positions\<close>

fun position :: "('a \<Rightarrow> bool) \<Rightarrow> 'a list \<Rightarrow> nat option" where
  "position P [] = None"
| "position P (x # xs) = (if P x then Some 0 else map_option Suc (position P xs))"

lemma position_None: "position P xs = None \<longleftrightarrow> (\<forall>x \<in> set xs. \<not> P x)"
  by (induction xs) auto

lemma position_Some:
  "position P xs = Some i \<longleftrightarrow> i < length xs \<and> P (xs ! i) \<and> (\<forall>j < i. \<not> P (xs ! j))"
proof (induction xs arbitrary: i)
  case (Cons x xs)
  then show ?case by (cases i) (auto simp: less_Suc_eq_0_disj)
qed simp

lemma position_append:
  "\<forall>x \<in> set xs. \<not> P x \<Longrightarrow> position P (xs @ ys) = map_option (\<lambda>i. length xs + i) (position P ys)"
  by (induction xs) (auto simp: option.map_comp comp_def option.map_ident_strong intro: option.map_cong)

lemma position_map: "position P (map f xs) = position (\<lambda>x. P (f x)) xs"
  by (induction xs) simp_all

end
