(* ===== verification/Cli_Output.thy ===== *)
theory Cli_Output
  imports Client_Admin Text_Lines
begin

text \<open>
  \<open>src/cli/output.rs\<close>: what the daemon logs and the client prints. A printing function returns the
  texts it prints, one per \<open>println!\<close> (\<open>Out\<close>), \<open>eprintln!\<close> (\<open>Err\<close>) or \<open>log::info!\<close> (\<open>Info\<close>). Drawing
  a table (comfy_table), printing JSON (serde_json) and the text of ids are the fields of \<open>output_lib\<close>;
  whether the output is a terminal, and how wide, is \<open>terminal\<close>.
\<close>

datatype printed = Out string | Err string | Info string

datatype color =
    Black | DarkGrey | Red | DarkRed | Green | DarkGreen | Yellow | DarkYellow | Blue | DarkBlue
  | Magenta | DarkMagenta | Cyan | DarkCyan | White | Grey | OtherColor

record cell =
  ce_text :: string
  ce_fg :: "color option"
  ce_bold :: bool

datatype json = JNull | JBool bool | JNum nat | JStr string | JArr "json list" | JObj "(string \<times> json) list"

record output_lib =
  ol_table :: "cell list \<Rightarrow> cell list list \<Rightarrow> string"
  ol_json :: "json \<Rightarrow> string"
  ol_id :: "endpoint_id \<Rightarrow> string"
  ol_topic :: "topic_id \<Rightarrow> string"
  ol_base64 :: "bytes \<Rightarrow> string"
  ol_ticket :: "ticket \<Rightarrow> string"

record terminal =
  te_is_terminal :: bool
  te_size :: "nat option"

section \<open>Durations\<close>

definition show_u64 :: "u64 \<Rightarrow> string" where "show_u64 n = show_nat (unat n)"

definition format_duration :: "u64 \<Rightarrow> string" where
  "format_duration seconds =
     (if seconds < 60 then show_u64 seconds @ ''s''
      else if seconds < 3600 then
        (let m = seconds div 60; s = seconds mod 60
         in if s = 0 then show_u64 m @ ''m'' else show_u64 m @ ''m '' @ show_u64 s @ ''s'')
      else if seconds < 86400 then
        (let h = seconds div 3600; m = (seconds mod 3600) div 60
         in if m = 0 then show_u64 h @ ''h'' else show_u64 h @ ''h '' @ show_u64 m @ ''m'')
      else
        (let d = seconds div 86400; h = (seconds mod 86400) div 3600
         in if h = 0 then show_u64 d @ ''d'' else show_u64 d @ ''d '' @ show_u64 h @ ''h''))"

definition addr_text :: "endpoint_addr \<Rightarrow> string" where
  "addr_text a = (case best_ip_for_display a of Some ip \<Rightarrow> show_ip ip | None \<Rightarrow> ''Unknown'')"

section \<open>Colours and cells\<close>

definition stdout_supports_color :: "terminal \<Rightarrow> bool" where
  "stdout_supports_color t = te_is_terminal t"

definition styled_cell :: "terminal \<Rightarrow> string \<Rightarrow> color option \<Rightarrow> bool \<Rightarrow> cell" where
  "styled_cell t value color bold =
     (if stdout_supports_color t then \<lparr>ce_text = value, ce_fg = color, ce_bold = bold\<rparr>
      else \<lparr>ce_text = value, ce_fg = None, ce_bold = False\<rparr>)"

definition header_row :: "terminal \<Rightarrow> string list \<Rightarrow> cell list" where
  "header_row t columns = map (\<lambda>value. styled_cell t value (Some Grey) True) columns"

fun color_code :: "color \<Rightarrow> string" where
  "color_code Black = ''30''"
| "color_code DarkGrey = ''90''"
| "color_code Red = ''31''" | "color_code DarkRed = ''31''"
| "color_code Green = ''32''" | "color_code DarkGreen = ''32''"
| "color_code Yellow = ''33''" | "color_code DarkYellow = ''33''"
| "color_code Blue = ''34''" | "color_code DarkBlue = ''34''"
| "color_code Magenta = ''35''" | "color_code DarkMagenta = ''35''"
| "color_code Cyan = ''36''" | "color_code DarkCyan = ''36''"
| "color_code White = ''37''" | "color_code Grey = ''37''"
| "color_code OtherColor = ''37''"

definition ESC :: char where "ESC = CHR 0x1B"

definition colorize :: "terminal \<Rightarrow> string \<Rightarrow> color option \<Rightarrow> bool \<Rightarrow> string" where
  "colorize t value color bold =
     (if \<not> stdout_supports_color t then value
      else
        let codes = (if bold then [''1''] else []) @ (case color of Some c \<Rightarrow> [color_code c] | None \<Rightarrow> [])
        in if codes = [] then value
           else [ESC, CHR ''[''] @ join '';'' codes @ ''m'' @ value @ [ESC] @ ''[0m'')"

definition section_title :: "terminal \<Rightarrow> string \<Rightarrow> string" where
  "section_title t title = [LF] @ colorize t title (Some Grey) True"

definition last_seen_cell :: "terminal \<Rightarrow> u64 \<Rightarrow> cell" where
  "last_seen_cell t seconds =
     (let color = (if seconds \<le> 30 then Green else if seconds \<le> 90 then Yellow else Red)
      in styled_cell t (format_duration seconds @ '' ago'') (Some color) False)"

definition terminal_width :: "terminal \<Rightarrow> nat option" where
  "terminal_width t = (if \<not> te_is_terminal t then None else te_size t)"

section \<open>The node table\<close>

definition role_of :: "node \<Rightarrow> string" where
  "role_of n = (if has_client_marker n then ''Client'' else ''Daemon'')"

record node_row =
  nr_name :: string
  nr_addr :: string
  nr_role :: string
  nr_services :: string
  nr_last_seen :: u64

definition node_row_of :: "u64 \<Rightarrow> node \<Rightarrow> node_row" where
  "node_row_of now n =
     \<lparr>nr_name = node_domain n, nr_addr = addr_text (node_addr n), nr_role = role_of n,
      nr_services = show_nat (length (node_services n)), nr_last_seen = saturating_sub now (last_heartbeat n)\<rparr>"

definition node_rows :: "u64 \<Rightarrow> node list \<Rightarrow> node_row list" where
  "node_rows now nodes = sort_key (\<lambda>r. (nr_name r, nr_addr r)) (map (node_row_of now) nodes)"

definition row_cells :: "terminal \<Rightarrow> node_row \<Rightarrow> cell list" where
  "row_cells t r =
     [styled_cell t (nr_name r) (Some Grey) True,
      styled_cell t (nr_addr r) (Some DarkYellow) False,
      styled_cell t (nr_role r) (Some (if nr_role r = ''Client'' then DarkMagenta else DarkGreen)) True,
      styled_cell t (nr_services r) (Some DarkGrey) False,
      last_seen_cell t (nr_last_seen r)]"

definition display_nodes :: "output_lib \<Rightarrow> terminal \<Rightarrow> u64 \<Rightarrow> node list \<Rightarrow> printed list" where
  "display_nodes X t time_now nodes =
     (if nodes = [] then
        [Out ([LF] @ colorize t ''No nodes found in the network.'' (Some DarkGrey) False),
         Out (colorize t ''Use 'p2p-ddnsctl node add <ticket>' to add a node.'' (Some DarkGrey) False)]
      else
        [Out (section_title t ''Network Nodes''),
         Out (ol_table X (header_row t [''Name'', ''Address'', ''Role'', ''Services'', ''Last Seen''])
                (map (row_cells t) (node_rows time_now nodes)))])"

text \<open>The table that the daemon logs every 30 seconds, of the nodes in the order it iterates them.\<close>

definition print_nodes :: "u64 \<Rightarrow> node list \<Rightarrow> printed list" where
  "print_nodes now nodes =
     (let data = map (\<lambda>n. (addr_text (node_addr n), node_domain n,
                       format_duration (saturating_sub now (last_heartbeat n)) @ '' ago'')) nodes;
          data = sort_key (\<lambda>(addr, name, last_seen). (name, addr)) data
      in Info (''Known nodes: count='' @ show_nat (length data))
         # map (\<lambda>(addr, name, last_seen).
                  Info (''Node: domain='' @ name @ '' addr='' @ addr @ '' last_seen='' @ last_seen)) data)"

section \<open>The status\<close>

definition pad_right :: "nat \<Rightarrow> string \<Rightarrow> string" where
  "pad_right w s = s @ replicate (w - length (filter (\<lambda>c. \<not> code_in 128 191 c) s)) CHR '' ''"

definition status_line :: "terminal \<Rightarrow> string \<Rightarrow> string \<Rightarrow> color option \<Rightarrow> bool \<Rightarrow> string \<times> string" where
  "status_line t label value color bold =
     (pad_right 18 label @ '' '' @ value,
      colorize t (pad_right 18 label) (Some DarkGrey) True @ '' '' @ colorize t value color bold)"

definition status_section :: "terminal \<Rightarrow> string \<Rightarrow> (string \<times> string) list \<Rightarrow> (nat \<times> string) list" where
  "status_section t title lines =
     (length title, colorize t title (Some Grey) True)
     # map (\<lambda>(plain, rendered_line). (length plain, rendered_line)) lines"

text \<open>\<open>" \<bar> "\<close> with the box drawing character U+2502.\<close>

definition separator :: string where
  "separator = [CHR '' '', CHR 0xE2, CHR 0x94, CHR 0x82, CHR '' '']"

definition nth_line :: "(nat \<times> string) list \<Rightarrow> nat \<Rightarrow> nat \<times> string" where
  "nth_line ls i = (if i < length ls then ls ! i else (0, []))"

definition widest :: "(nat \<times> string) list \<Rightarrow> nat" where
  "widest ls = fold max (map fst ls) 0"

definition print_status_sections :: "terminal \<Rightarrow> (nat \<times> string) list \<Rightarrow> (nat \<times> string) list \<Rightarrow> printed list" where
  "print_status_sections t left right =
     (let left_width = widest left; right_width = widest right;
          needed_width = left_width + length separator + right_width
      in if (case terminal_width t of Some width \<Rightarrow> needed_width + 4 \<le> width | None \<Rightarrow> False)
         then Out [] # map (\<lambda>idx.
                let (left_plain_len, left_rendered) = nth_line left idx; (r, right_rendered) = nth_line right idx;
                    padding = replicate (left_width - left_plain_len) CHR '' ''
                in Out (left_rendered @ padding @ colorize t separator (Some DarkGrey) False @ right_rendered))
              [0..<max (length left) (length right)]
         else [Out []] @ map (\<lambda>(l, line). Out line) left @ [Out []] @ map (\<lambda>(l, line). Out line) right)"

definition yes_no :: "bool \<Rightarrow> string" where "yes_no b = (if b then ''Yes'' else ''No'')"

definition enabled_text :: "bool \<Rightarrow> string" where "enabled_text b = (if b then ''Enabled'' else ''Disabled'')"

definition or_dash :: "string option \<Rightarrow> string" where "or_dash v = (case v of Some s \<Rightarrow> s | None \<Rightarrow> ''-'')"

definition pick :: "bool \<Rightarrow> color \<Rightarrow> color option" where "pick b c = Some (if b then c else DarkGrey)"

definition status_left :: "terminal \<Rightarrow> daemon_status \<Rightarrow> (nat \<times> string) list" where
  "status_left t s =
     status_section t ''Daemon Status''
       [status_line t ''Running'' (yes_no (ds_running s)) (pick (ds_running s) DarkGreen) True,
        status_line t ''Paused'' (yes_no (ds_paused s)) (pick (ds_paused s) DarkYellow) True,
        status_line t ''Node Count'' (show_nat (ds_node_count s)) (Some Grey) True,
        status_line t ''Client Count'' (show_nat (ds_client_count s)) (Some Grey) True,
        status_line t ''Uptime'' (format_duration (ds_uptime_seconds s)) (Some DarkGreen) False,
        status_line t ''My Domain'' (ds_my_domain s) (Some Grey) True,
        status_line t ''My Address'' (ds_my_addr s) (Some DarkYellow) False]"

definition status_right :: "terminal \<Rightarrow> hosts_sync_status \<Rightarrow> (nat \<times> string) list" where
  "status_right t h =
     status_section t ''Hosts Sync''
       [status_line t ''Enabled'' (enabled_text (hs_enabled h)) (pick (hs_enabled h) DarkGreen) True,
        status_line t ''Path'' (or_dash (hs_path h)) (pick (hs_path h \<noteq> None) Grey) False,
        status_line t ''Cleanup On Shutdown'' (enabled_text (hs_cleanup_on_shutdown h))
          (pick (hs_cleanup_on_shutdown h) DarkGreen) True,
        status_line t ''Last Success'' (or_dash (map_option show_u64 (hs_last_success h)))
          (pick (hs_last_success h \<noteq> None) DarkGreen) False,
        status_line t ''Last Cleanup'' (or_dash (map_option show_u64 (hs_last_cleanup h)))
          (pick (hs_last_cleanup h \<noteq> None) Grey) False,
        status_line t ''Last Error'' (or_dash (hs_last_error h)) (pick (hs_last_error h \<noteq> None) DarkRed) False]"

definition display_status :: "terminal \<Rightarrow> daemon_status \<Rightarrow> printed list" where
  "display_status t s = print_status_sections t (status_left t s) (status_right t (ds_hosts_sync s))"

section \<open>Tickets and messages\<close>

definition display_ticket :: "output_lib \<Rightarrow> terminal \<Rightarrow> string \<Rightarrow> printed list" where
  "display_ticket X t ticket_text =
     [Out (section_title t ''Bootstrap Ticket''),
      Out (ol_table X (header_row t [''Field'', ''Value''])
             [[styled_cell t ''Ticket'' (Some Grey) True, styled_cell t ticket_text (Some DarkGreen) False]]),
      Out ''Use this ticket when adding another node to the network.'']"

definition display_ack :: "terminal \<Rightarrow> string \<Rightarrow> printed list" where
  "display_ack t m = [Out ([LF] @ colorize t m (Some Green) True)]"

definition display_info :: "terminal \<Rightarrow> string \<Rightarrow> printed list" where
  "display_info t m = [Out (colorize t m (Some DarkGrey) False)]"

definition display_error :: "terminal \<Rightarrow> string \<Rightarrow> printed list" where
  "display_error t m = [Err ([LF] @ colorize t (''Error: '' @ m) (Some Red) True)]"

section \<open>JSON\<close>

definition node_to_json :: "output_lib \<Rightarrow> node \<Rightarrow> json" where
  "node_to_json X n =
     JObj [(''node_id'', JStr (ol_id X (node_id n))), (''domain'', JStr (node_domain n)),
           (''address'', JStr (addr_text (node_addr n))), (''role'', JStr (role_of n)),
           (''services'', JObj (map (\<lambda>(k, v). (k, JNum (unat v))) (node_services n))),
           (''last_heartbeat'', JNum (unat (last_heartbeat n)))]"

definition display_nodes_json :: "output_lib \<Rightarrow> node list \<Rightarrow> printed list" where
  "display_nodes_json X nodes =
     [Out (ol_json X (JObj [(''nodes'', JArr (map (node_to_json X) nodes)), (''count'', JNum (length nodes))]))]"

definition json_opt :: "('a \<Rightarrow> json) \<Rightarrow> 'a option \<Rightarrow> json" where
  "json_opt f v = (case v of Some x \<Rightarrow> f x | None \<Rightarrow> JNull)"

definition display_status_json :: "output_lib \<Rightarrow> daemon_status \<Rightarrow> printed list" where
  "display_status_json X s =
     (let h = ds_hosts_sync s in
      [Out (ol_json X (JObj
        [(''running'', JBool (ds_running s)), (''paused'', JBool (ds_paused s)),
         (''node_count'', JNum (ds_node_count s)), (''client_count'', JNum (ds_client_count s)),
         (''uptime_seconds'', JNum (unat (ds_uptime_seconds s))), (''my_domain'', JStr (ds_my_domain s)),
         (''my_addr'', JStr (ds_my_addr s)),
         (''hosts_sync'', JObj
           [(''enabled'', JBool (hs_enabled h)), (''path'', json_opt JStr (hs_path h)),
            (''cleanup_on_shutdown'', JBool (hs_cleanup_on_shutdown h)),
            (''last_success'', json_opt (\<lambda>n. JNum (unat n)) (hs_last_success h)),
            (''last_cleanup'', json_opt (\<lambda>n. JNum (unat n)) (hs_last_cleanup h)),
            (''last_error'', json_opt JStr (hs_last_error h))])]))])"

definition display_ticket_json :: "output_lib \<Rightarrow> string \<Rightarrow> printed list" where
  "display_ticket_json X w = [Out (ol_json X (JObj [(''ticket'', JStr w)]))]"

definition display_ack_json :: "output_lib \<Rightarrow> string \<Rightarrow> printed list" where
  "display_ack_json X m = [Out (ol_json X (JObj [(''ok'', JBool True), (''message'', JStr m)]))]"

definition display_error_json :: "output_lib \<Rightarrow> string \<Rightarrow> printed list" where
  "display_error_json X m = [Out (ol_json X (JObj [(''ok'', JBool False), (''error'', JStr m)]))]"

section \<open>What the daemon logs when it starts\<close>

definition format_endpoint_addr :: "endpoint_addr \<Rightarrow> string" where
  "format_endpoint_addr a =
     (let relays = relay_urls a; ips = map show_socket_addr (ip_addrs a);
          parts = (if relays \<noteq> [] then [''relays=['' @ join '', '' relays @ '']''] else [])
                  @ (if ips \<noteq> [] then [''ips=['' @ join '', '' ips @ '']''] else [])
      in if parts = [] then ''<empty>'' else join '' '' parts)"

definition show_bool :: "bool \<Rightarrow> string" where "show_bool b = (if b then ''true'' else ''false'')"

definition log_startup :: "output_lib \<Rightarrow> endpoint_addr \<Rightarrow> ctx \<Rightarrow> printed list" where
  "log_startup X handle c =
     (let (topic, rnum, invitor) = ticket_flatten (cx_ticket c); rnum_b64 = ol_base64 X rnum; a = cx_args c
      in [Info (''Startup: primary='' @ show_bool (arg_primary a) @ '' daemon='' @ show_bool (arg_daemon a)
            @ '' mdns='' @ show_bool (\<not> arg_no_mdns a) @ '' dht='' @ show_bool (arg_dht a)
            @ '' relay_mode='' @ relay_mode_to_string (arg_relay_mode a)
            @ '' relay_urls='' @ (if arg_relay_url a = [] then ''<none>'' else join '','' (arg_relay_url a))),
          Info (''Me: node_id='' @ ol_id X (node_id (cx_me c)) @ '' domain='' @ node_domain (cx_me c)),
          Info (''Me: endpoint_addr='' @ format_endpoint_addr handle),
          Info (''Me: advertised_addr='' @ format_endpoint_addr (node_addr (cx_me c))),
          Info (''Ticket: topic='' @ ol_topic X topic @ '' rnum_b64='' @ rnum_b64
            @ '' invitor_node_id='' @ ol_id X (node_id invitor)
            @ '' invitor_addr='' @ format_endpoint_addr (node_addr invitor)),
          Info (''Ticket (raw): '' @ ol_ticket X (cx_ticket c))])"

definition print_bootstrap_ticket :: "output_lib \<Rightarrow> ctx \<Rightarrow> printed list" where
  "print_bootstrap_ticket X c =
     (if arg_primary (cx_args c) then
        [Out (''Ticket (raw): '' @ ol_ticket X (cx_ticket c)),
         Out ''Share this ticket with other nodes so they can join the network.'']
      else [])"

end
