(* ===== verification/Hosts_File.thy ===== *)
theory Hosts_File
  imports Text_Lines Addr_Text Addr_Select Domain_Node
begin

text \<open>
  \<open>src/hosts/mod.rs\<close>: the section of a hosts file that the daemon manages. The file system is a map
  from paths to contents; which call on it fails is \<open>fs_fails\<close>, \<open>written\<close> is how many bytes a failing
  write has already stored, and \<open>copied\<close> how many a failing copy, if it created its target at all. Contents are bytes (a \<open>char\<close> is one). The definitions are
  those of a Unix build: \<open>cfg!(windows)\<close> is false.
\<close>

section \<open>Paths\<close>

text \<open>\<open>std::path\<close>: a path by its components.\<close>

datatype comp = RootDir | CurDir | ParentDir | Normal string

type_synonym path = "comp list"

definition path_of :: "string \<Rightarrow> path" where
  "path_of s =
     (let parts = filter (\<lambda>x. x \<noteq> []) (split_on (CHR ''/'') s);
          rest = (\<lambda>ps. map (\<lambda>x. if x = ''..'' then ParentDir else Normal x) (filter (\<lambda>x. x \<noteq> ''.'') ps))
      in if starts_with ''/'' s then RootDir # rest parts
         else if parts \<noteq> [] \<and> hd parts = ''.'' then CurDir # rest (tl parts)
         else rest parts)"

definition path_parent :: "path \<Rightarrow> path option" where
  "path_parent p = (if p = [] \<or> last p = RootDir then None else Some (butlast p))"

definition path_file_name :: "path \<Rightarrow> string option" where
  "path_file_name p = (if p = [] then None else case last p of Normal f \<Rightarrow> Some f | _ \<Rightarrow> None)"

definition with_file_name :: "path \<Rightarrow> string \<Rightarrow> path" where
  "with_file_name p f = (if path_file_name p = None then p else butlast p) @ [Normal f]"

section \<open>The file system\<close>

datatype io_kind = InvalidInput | IsADirectory | NotFound | InvalidData | OtherIo

datatype hosts_failure = HostsIo io_kind | HostsPanic

datatype fs_call =
    OpenHosts | ReadHosts | CopyToTemp | OpenTemp | WriteTemp | RenameTemp | OpenClobber | WriteClobber

record fs =
  fs_files :: "path \<rightharpoonup> string"
  fs_is_dir :: "path \<Rightarrow> bool"

record fs_faults =
  fs_fails :: "fs_call \<Rightarrow> bool"
  copied :: "nat option"
  written :: "fs_call \<Rightarrow> nat"

definition put_file :: "path \<Rightarrow> string \<Rightarrow> fs \<Rightarrow> fs" where
  "put_file p s d = d\<lparr>fs_files := (fs_files d)(p \<mapsto> s)\<rparr>"

section \<open>The builder\<close>

definition hosts_tag :: string where "hosts_tag = ''p2p-ddns''"

record hosts_builder =
  hb_tag :: string
  hb_map :: "(ip_addr \<times> string list) list"

definition hosts_builder_new :: "string \<Rightarrow> hosts_builder" where
  "hosts_builder_new tag = \<lparr>hb_tag = tag, hb_map = []\<rparr>"

definition entry_or_default :: "ip_addr \<Rightarrow> (ip_addr \<times> string list) list \<Rightarrow> string list" where
  "entry_or_default ip m = (case bt_get ip m of Some hs \<Rightarrow> hs | None \<Rightarrow> [])"

definition add_hostname :: "hosts_builder \<Rightarrow> ip_addr \<Rightarrow> string \<Rightarrow> hosts_builder" where
  "add_hostname b ip h = b\<lparr>hb_map := bt_insert ip (entry_or_default ip (hb_map b) @ [h]) (hb_map b)\<rparr>"

definition add_hostnames :: "hosts_builder \<Rightarrow> ip_addr \<Rightarrow> string list \<Rightarrow> hosts_builder" where
  "add_hostnames b ip hs = b\<lparr>hb_map := bt_insert ip (entry_or_default ip (hb_map b) @ hs) (hb_map b)\<rparr>"

definition default_path :: "fs \<Rightarrow> (hosts_failure, string) result" where
  "default_path d =
     (if fs_files d (path_of ''/etc/hosts'') = None \<and> \<not> fs_is_dir d (path_of ''/etc/hosts'')
      then Inl (HostsIo NotFound) else Inr ''/etc/hosts'')"

text \<open>The time is in milliseconds since the epoch, negative when the clock is before it.\<close>

definition get_temp_path :: "int \<Rightarrow> path \<Rightarrow> (hosts_failure, path) result" where
  "get_temp_path millis hosts_path =
     (case path_parent hosts_path of
        None \<Rightarrow> Inl (HostsIo InvalidInput)
      | Some hosts_dir \<Rightarrow>
          if millis < 0 then Inl HostsPanic
          else case path_file_name hosts_path of
                 None \<Rightarrow> Inl (HostsIo InvalidInput)
               | Some f \<Rightarrow> Inr (with_file_name hosts_dir (f @ ''.tmp'' @ show_nat (nat millis))))"

section \<open>Writing the section\<close>

definition begin_marker :: "string \<Rightarrow> string" where
  "begin_marker tag = ''# DO NOT EDIT '' @ tag @ '' BEGIN''"

definition end_marker :: "string \<Rightarrow> string" where
  "end_marker tag = ''# DO NOT EDIT '' @ tag @ '' END''"

definition lines_to_insert :: "hosts_builder \<Rightarrow> string list" where
  "lines_to_insert b =
     (if hb_map b = [] then []
      else [begin_marker (hb_tag b)]
           @ map (\<lambda>(ip, hostnames). show_ip ip @ '' '' @ join '' '' hostnames) (hb_map b)
           @ [end_marker (hb_tag b)])"

text \<open>
  The lines of the new file, or \<open>None\<close> when the section is already there. \<open>lines.drain(b..e + 1)\<close>
  panics when its start is after its end.
\<close>

definition splice_section :: "string \<Rightarrow> string list \<Rightarrow> string list \<Rightarrow> (hosts_failure, string list option) result" where
  "splice_section tag insertion lines =
     (case (position (\<lambda>l. trim l = begin_marker tag) lines, position (\<lambda>l. trim l = end_marker tag) lines) of
        (Some b, Some e) \<Rightarrow>
          if e + 1 < b then Inl HostsPanic
          else
            let old_section = drop b (take (e + 1) lines);
                lines = take b lines @ drop (e + 1) lines
            in if old_section = insertion then Inr None
               else Inr (Some (take b lines @ insertion @ drop b lines))
      | (None, None) \<Rightarrow>
          let lines = (if lines \<noteq> [] \<and> last lines \<noteq> [] then lines @ [[]] else lines)
          in Inr (Some (lines @ insertion))
      | _ \<Rightarrow> Inl (HostsIo InvalidData))"

text \<open>Open with truncation, then write everything; a failing write leaves a prefix.\<close>

definition write_file :: "fs_faults \<Rightarrow> fs_call \<Rightarrow> fs_call \<Rightarrow> path \<Rightarrow> string \<Rightarrow> fs \<Rightarrow> fs \<times> (hosts_failure, unit) result" where
  "write_file F open_call write_call p contents d =
     (if fs_fails F open_call then (d, Inl (HostsIo OtherIo))
      else if fs_fails F write_call then (put_file p (take (written F write_call) contents) d, Inl (HostsIo OtherIo))
      else (put_file p contents d, Inr ()))"

definition write_clobber :: "fs_faults \<Rightarrow> path \<Rightarrow> string \<Rightarrow> fs \<Rightarrow> fs \<times> (hosts_failure, unit) result" where
  "write_clobber F hosts_path contents d = write_file F OpenClobber WriteClobber hosts_path contents d"

definition write_and_swap :: "fs_faults \<Rightarrow> path \<Rightarrow> path \<Rightarrow> string \<Rightarrow> fs \<Rightarrow> fs \<times> (hosts_failure, unit) result" where
  "write_and_swap F temp_path hosts_path contents d =
     (case fs_files d hosts_path of
        None \<Rightarrow> (d, Inl (HostsIo NotFound))
      | Some old \<Rightarrow>
          if fs_fails F CopyToTemp
          then (case copied F of None \<Rightarrow> d | Some n \<Rightarrow> put_file temp_path (take n old) d, Inl (HostsIo OtherIo))
          else
            let (d, r) = write_file F OpenTemp WriteTemp temp_path contents (put_file temp_path old d)
            in case r of
                 Inl e \<Rightarrow> (d, Inl e)
               | Inr u \<Rightarrow>
                   if fs_fails F RenameTemp then (d, Inl (HostsIo OtherIo))
                   else (d\<lparr>fs_files := (fs_files d)(hosts_path := fs_files d temp_path, temp_path := None)\<rparr>, Inr ()))"

definition write_to :: "fs_faults \<Rightarrow> int \<Rightarrow> hosts_builder \<Rightarrow> path \<Rightarrow> fs \<Rightarrow> fs \<times> (hosts_failure, bool) result" where
  "write_to F millis b hosts_path d =
     (if fs_is_dir d hosts_path then (d, Inl (HostsIo IsADirectory))
      else
        case get_temp_path millis hosts_path of
          Inl e \<Rightarrow> (d, Inl e)
        | Inr temp_path \<Rightarrow>
            if fs_fails F OpenHosts then (d, Inl (HostsIo OtherIo))
            else
              let d = (if fs_files d hosts_path = None then put_file hosts_path [] d else d)
              in if fs_fails F ReadHosts then (d, Inl HostsPanic)
                 else
                   case lines_unwrap (the (fs_files d hosts_path)) of
                     None \<Rightarrow> (d, Inl HostsPanic)
                   | Some lines \<Rightarrow>
                       (case splice_section (hb_tag b) (lines_to_insert b) lines of
                          Inl e \<Rightarrow> (d, Inl e)
                        | Inr None \<Rightarrow> (d, Inr False)
                        | Inr (Some new_lines) \<Rightarrow>
                            let s = write_lines new_lines;
                                (d, r) = write_and_swap F temp_path hosts_path s d
                            in case r of
                                 Inr u \<Rightarrow> (d, Inr True)
                               | Inl e \<Rightarrow>
                                   let (d, r) = write_clobber F hosts_path s d
                                   in case r of Inl e \<Rightarrow> (d, Inl e) | Inr u \<Rightarrow> (d, Inr True)))"

definition hosts_write :: "fs_faults \<Rightarrow> int \<Rightarrow> hosts_builder \<Rightarrow> fs \<Rightarrow> fs \<times> (hosts_failure, bool) result" where
  "hosts_write F millis b d =
     (case default_path d of Inl e \<Rightarrow> (d, Inl e) | Inr p \<Rightarrow> write_to F millis b (path_of p) d)"

section \<open>Host names\<close>

definition is_label_char :: "char \<Rightarrow> bool" where
  "is_label_char c \<longleftrightarrow> is_ascii_alphanumeric c \<or> c = CHR ''-''"

definition is_valid_hostname_label :: "string \<Rightarrow> bool" where
  "is_valid_hostname_label label \<longleftrightarrow>
     \<not> (label = [] \<or> 63 < length label)
     \<and> \<not> (starts_with ''-'' label \<or> ends_with ''-'' label)
     \<and> list_all is_label_char label"

definition canonical_hostname :: "string \<Rightarrow> string option" where
  "canonical_hostname name =
     (let trimmed = to_ascii_lowercase (trim_end_char (CHR ''.'') (trim name))
      in if trimmed = [] \<or> 253 < length trimmed then None
         else if \<not> list_all is_valid_hostname_label (split_on (CHR ''.'') trimmed) then None
         else Some trimmed)"

definition record_ip_for_local :: "endpoint_addr \<Rightarrow> endpoint_addr \<Rightarrow> ip_addr option" where
  "record_ip_for_local remote local =
     (case ip_addrs (best_endpoint_addr_for_local remote local) of
        [] \<Rightarrow> None | s # ss \<Rightarrow> Some (sock_ip s))"

definition names_of :: "string option \<Rightarrow> string \<Rightarrow> string list" where
  "names_of sfx hostname =
     bt_set_of (hostname # (case sfx of Some s \<Rightarrow> [hostname @ ''.'' @ s] | None \<Rightarrow> []))"

text \<open>The body of the loop over the nodes.\<close>

definition add_node_names :: "endpoint_addr \<Rightarrow> string option \<Rightarrow> node \<Rightarrow> hosts_builder \<Rightarrow> hosts_builder" where
  "add_node_names local sfx n b =
     (if has_client_marker n then b
      else case record_ip_for_local (node_addr n) local of
             None \<Rightarrow> b
           | Some ip \<Rightarrow>
               (case canonical_hostname (node_domain n) of
                  None \<Rightarrow> b
                | Some hostname \<Rightarrow> add_hostnames b ip (names_of sfx hostname)))"

definition sync_nodes_to_hosts ::
    "fs_faults \<Rightarrow> int \<Rightarrow> path \<Rightarrow> endpoint_addr \<Rightarrow> node list \<Rightarrow> string option \<Rightarrow> fs \<Rightarrow> fs \<times> (hosts_failure, bool) result" where
  "sync_nodes_to_hosts F millis hosts_path local nodes sfx d =
     (let sfx = Option.bind sfx canonical_hostname;
          builder = fold (add_node_names local sfx) nodes (hosts_builder_new hosts_tag)
      in write_to F millis builder hosts_path d)"

definition clear_managed_hosts :: "fs_faults \<Rightarrow> int \<Rightarrow> path \<Rightarrow> fs \<Rightarrow> fs \<times> (hosts_failure, bool) result" where
  "clear_managed_hosts F millis hosts_path d = write_to F millis (hosts_builder_new hosts_tag) hosts_path d"

end
