(* ===== verification/Daemon_Loop.thy ===== *)
theory Daemon_Loop
  imports Context_Invariant Hosts_File
begin

text \<open>
  \<open>src/net/mod.rs\<close>, the rest of the \<open>Context\<close>: the tasks on the hosts file, the gossip events, the
  arms of the event loop \<open>run\<close> and the shutdown. An arm takes the context and the file system and
  returns them updated. What one arm reads from the world is a \<open>step_env\<close>: the environment of
  \<open>Daemon_Context\<close>, which database and file calls fail, the clock in milliseconds and the text of an
  I/O error.
\<close>

record step_env =
  se_env :: env
  se_db :: faults
  se_fs :: fs_faults
  se_millis :: int
  se_error_text :: "hosts_failure \<Rightarrow> string"

text \<open>The environment after the first reading of the clock.\<close>

definition later :: "env \<Rightarrow> env" where
  "later E = E\<lparr>clock := \<lambda>i. clock E (Suc i)\<rparr>"

section \<open>The hosts file of the daemon\<close>

datatype task_failure = NoHostsPath | TaskFailed hosts_failure

definition hosts_sync_path :: "fs \<Rightarrow> daemon_args \<Rightarrow> string option" where
  "hosts_sync_path d a =
     (if \<not> arg_hosts_sync a then None
      else case arg_hosts_path a of
             Some p \<Rightarrow> Some p
           | None \<Rightarrow> (case default_path d of Inr p \<Rightarrow> Some p | Inl e \<Rightarrow> Some ''/etc/hosts''))"

definition set_hosts_sync_error :: "ctx \<Rightarrow> string \<Rightarrow> ctx" where
  "set_hosts_sync_error c err = c\<lparr>cx_hosts_sync := (cx_hosts_sync c)\<lparr>hs_last_error := Some err\<rparr>\<rparr>"

text \<open>A panic leaves the status as it was and unwinds the task.\<close>

definition sync_hosts_file :: "step_env \<Rightarrow> ctx \<Rightarrow> fs \<Rightarrow> ctx \<times> fs \<times> (task_failure, bool) result" where
  "sync_hosts_file S c d =
     (if \<not> arg_hosts_sync (cx_args c) then (c, d, Inr False)
      else
        case hosts_sync_path d (cx_args c) of
          None \<Rightarrow> (c, d, Inl NoHostsPath)
        | Some hosts_path \<Rightarrow>
            let E = se_env S;
                nodes = map snd (iter_nodes E (cx_nodes c)) @ [current_node_state E 0 c];
                (d, r) = sync_nodes_to_hosts (se_fs S) (se_millis S) (path_of hosts_path) (handle_addr E)
                           nodes (arg_hosts_suffix (cx_args c)) d
            in case r of
                 Inr changed \<Rightarrow>
                   (c\<lparr>cx_hosts_sync := (cx_hosts_sync c)\<lparr>hs_last_success := Some (clock E 1), hs_last_error := None\<rparr>\<rparr>,
                    d, Inr changed)
               | Inl HostsPanic \<Rightarrow> (c, d, Inl (TaskFailed HostsPanic))
               | Inl (HostsIo k) \<Rightarrow>
                   (set_hosts_sync_error c (se_error_text S (HostsIo k)), d, Inl (TaskFailed (HostsIo k))))"

definition clear_hosts_file :: "step_env \<Rightarrow> ctx \<Rightarrow> fs \<Rightarrow> ctx \<times> fs \<times> (task_failure, bool) result" where
  "clear_hosts_file S c d =
     (if \<not> arg_hosts_sync (cx_args c) then (c, d, Inr False)
      else
        case hosts_sync_path d (cx_args c) of
          None \<Rightarrow> (c, d, Inl NoHostsPath)
        | Some hosts_path \<Rightarrow>
            let (d, r) = clear_managed_hosts (se_fs S) (se_millis S) (path_of hosts_path) d
            in case r of
                 Inr changed \<Rightarrow>
                   (c\<lparr>cx_hosts_sync := (cx_hosts_sync c)\<lparr>hs_last_cleanup := Some (clock (se_env S) 0), hs_last_error := None\<rparr>\<rparr>,
                    d, Inr changed)
               | Inl HostsPanic \<Rightarrow> (c, d, Inl (TaskFailed HostsPanic))
               | Inl (HostsIo k) \<Rightarrow>
                   (set_hosts_sync_error c (se_error_text S (HostsIo k)), d, Inl (TaskFailed (HostsIo k))))"

section \<open>Shutting down\<close>

datatype flow = GoOn | Stop | Unwind

text \<open>The result of a failing save is dropped; a panic while the section is cleared unwinds at once.\<close>

definition graceful_shutdown :: "store_lib \<Rightarrow> step_env \<Rightarrow> ctx \<Rightarrow> fs \<Rightarrow> ctx \<times> fs \<times> flow" where
  "graceful_shutdown L S c d =
     (let c = (if arg_daemon (cx_args c) then emit (Broadcast Left) c else c);
          (c, d, r) = (if arg_hosts_sync (cx_args c) then clear_hosts_file S c d else (c, d, Inr False))
      in if r = Inl (TaskFailed HostsPanic) then (c, d, Unwind)
         else
           let (c, saved) = save_trusted L (se_db S) (se_env S) c
           in (emit EndpointClose (emit RouterShutdown c), d, Stop))"

section \<open>Received envelopes and gossip\<close>

definition receive :: "wire_lib \<Rightarrow> env \<Rightarrow> bytes \<Rightarrow> ctx \<Rightarrow> ctx" where
  "receive W E b c =
     (case decode_and_verify W (clock E 0) c b of
        Inr (from, m, status) \<Rightarrow> process_message (later E) c from m status
      | Inl e \<Rightarrow> c)"

datatype gossip_event =
    NeighborUp endpoint_id | NeighborDown endpoint_id | Received bytes | Lagged

fun process_gossip :: "wire_lib \<Rightarrow> env \<Rightarrow> (string, gossip_event option) result \<Rightarrow> ctx \<Rightarrow> ctx" where
  "process_gossip W E (Inr (Some (NeighborDown i))) c = c"
| "process_gossip W E (Inr (Some (Received content))) c = receive W E content c"
| "process_gossip W E (Inr (Some Lagged)) c = c"
| "process_gossip W E (Inr (Some (NeighborUp i))) c = announce_join E c"
| "process_gossip W E (Inl e) c = c"
| "process_gossip W E (Inr None) c = c"

section \<open>The event loop\<close>

text \<open>
  What completes first in the \<open>select!\<close>: Ctrl-C (\<open>False\<close> when listening for it failed), SIGTERM, a
  tick of one of the two timers, the next direct message, the next gossip event (\<open>None\<close> when the
  channel is closed).
\<close>

datatype loop_input =
    CtrlC bool
  | SigTerm
  | BroadcastTick
  | SyncTick
  | DirectMsg "bytes option"
  | GossipNext "(string, gossip_event option) result"

definition broadcast_tick :: "store_lib \<Rightarrow> step_env \<Rightarrow> ctx \<Rightarrow> ctx" where
  "broadcast_tick L S c =
     (let c = (if arg_daemon (cx_args c) \<and> \<not> cx_paused c then broadcast_state_update (se_env S) c else c);
          c = cleanup (later (se_env S)) c
      in fst (save_trusted L (se_db S) (se_env S) c))"

definition sync_tick :: "ctx \<Rightarrow> ctx" where
  "sync_tick c = (if arg_daemon (cx_args c) \<and> \<not> cx_paused c then request_neighbor_sync c else c)"

fun loop_step :: "wire_lib \<Rightarrow> store_lib \<Rightarrow> bool \<Rightarrow> step_env \<Rightarrow> loop_input \<Rightarrow> ctx \<Rightarrow> fs \<Rightarrow> ctx \<times> fs \<times> flow" where
  "loop_step W L interactive S (CtrlC ok) c d =
     (if ok then
        (if arg_daemon (cx_args c) \<and> \<not> interactive then (c, d, GoOn) else graceful_shutdown L S c d)
      else (c, d, GoOn))"
| "loop_step W L interactive S SigTerm c d = graceful_shutdown L S c d"
| "loop_step W L interactive S BroadcastTick c d = (broadcast_tick L S c, d, GoOn)"
| "loop_step W L interactive S SyncTick c d = (sync_tick c, d, GoOn)"
| "loop_step W L interactive S (DirectMsg (Some b)) c d = (receive W (se_env S) b c, d, GoOn)"
| "loop_step W L interactive S (DirectMsg None) c d = (c, d, Stop)"
| "loop_step W L interactive S (GossipNext (Inr (Some e))) c d = (process_gossip W (se_env S) (Inr (Some e)) c, d, GoOn)"
| "loop_step W L interactive S (GossipNext (Inr None)) c d = (c, d, Stop)"
| "loop_step W L interactive S (GossipNext (Inl e)) c d = (process_gossip W (se_env S) (Inl e) c, d, GoOn)"

text \<open>
  \<open>run\<close> on the inputs that arrive one after the other. It returns when an arm breaks out of the loop
  or unwinds, and is still waiting (\<open>GoOn\<close>) when the inputs end before that.
\<close>

fun run_loop :: "wire_lib \<Rightarrow> store_lib \<Rightarrow> bool \<Rightarrow> (step_env \<times> loop_input) list \<Rightarrow> ctx \<Rightarrow> fs \<Rightarrow> ctx \<times> fs \<times> flow" where
  "run_loop W L interactive [] c d = (c, d, GoOn)"
| "run_loop W L interactive ((S, i) # rest) c d =
     (case loop_step W L interactive S i c d of
        (c, d, GoOn) \<Rightarrow> run_loop W L interactive rest c d
      | stopped \<Rightarrow> stopped)"

definition run_daemon_loop ::
    "wire_lib \<Rightarrow> store_lib \<Rightarrow> bool \<Rightarrow> (step_env \<times> loop_input) list \<Rightarrow> ctx \<Rightarrow> fs \<Rightarrow> ctx \<times> fs \<times> flow" where
  "run_daemon_loop W L interactive inputs c d = run_loop W L interactive inputs (request_neighbor_sync c) d"

section \<open>The loop with a deadline\<close>

fun run_for_step :: "wire_lib \<Rightarrow> env \<Rightarrow> loop_input option \<Rightarrow> ctx \<Rightarrow> ctx \<times> flow" where
  "run_for_step W E None c = (c, Stop)"
| "run_for_step W E (Some BroadcastTick) c =
     (if arg_daemon (cx_args c) then broadcast_state_update E c else c, GoOn)"
| "run_for_step W E (Some SyncTick) c = (if arg_daemon (cx_args c) then request_neighbor_sync c else c, GoOn)"
| "run_for_step W E (Some (DirectMsg (Some b))) c = (receive W E b c, GoOn)"
| "run_for_step W E (Some (DirectMsg None)) c = (c, Stop)"
| "run_for_step W E (Some (GossipNext (Inr (Some e)))) c = (process_gossip W E (Inr (Some e)) c, GoOn)"
| "run_for_step W E (Some (GossipNext (Inl e))) c = (process_gossip W E (Inl e) c, GoOn)"
| "run_for_step W E (Some (GossipNext (Inr None))) c = (c, Stop)"
| "run_for_step W E (Some other) c = (c, GoOn)"

end
