(* ===== verification/Wire_Frames.thy ===== *)
theory Wire_Frames
  imports Signed_Message
begin

text \<open>
  Length-prefixed frames on a byte stream: those of the admin socket (\<open>read_message\<close> and
  \<open>send_message\<close> of \<open>src/admin/server.rs\<close>, and their copies in \<open>src/app.rs\<close>; a big-endian u32) and
  those of direct messages (\<open>recv_msg\<close> and \<open>send_msg\<close> of \<open>src/net/p2p_protocol.rs\<close>; a little-endian
  u64). A stream is the bytes that the peer sends before it closes it. The locale \<open>framed_stream\<close> is
  the contract that reader and writer of one format have with each other; both formats interpret it.
\<close>

section \<open>Reading from a stream\<close>

datatype stream_error = UnexpectedEof | FrameTooLarge nat | PayloadError

definition read_exact :: "nat \<Rightarrow> bytes \<Rightarrow> (stream_error, bytes \<times> bytes) result" where
  "read_exact n s = (if length s < n then Inl UnexpectedEof else Inr (take n s, drop n s))"

section \<open>Frames of the admin socket\<close>

definition max_admin_frame :: nat where "max_admin_frame = 4 * 1024 * 1024"

definition read_admin_frame :: "bytes \<Rightarrow> (stream_error, bytes \<times> bytes) result" where
  "read_admin_frame s =
     res_bind (read_exact 4 s) (\<lambda>(len_buf, s).
       let len = be_value len_buf
       in if max_admin_frame < len then Inl (FrameTooLarge len) else read_exact len s)"

definition read_message :: "(bytes \<Rightarrow> 'a option) \<Rightarrow> bytes \<Rightarrow> (stream_error, 'a \<times> bytes) result" where
  "read_message dec s =
     res_bind (read_admin_frame s) (\<lambda>(msg_buf, s).
       res_bind (or_err PayloadError (dec msg_buf)) (\<lambda>msg. Inr (msg, s)))"

text \<open>\<open>len() as u32\<close> keeps the low 32 bits, as \<open>be_bytes 4\<close> does.\<close>

definition admin_frame :: "bytes \<Rightarrow> bytes" where
  "admin_frame msg_bytes = be_bytes 4 (length msg_bytes) @ msg_bytes"

definition send_message :: "('a \<Rightarrow> bytes option) \<Rightarrow> 'a \<Rightarrow> (stream_error, bytes) result" where
  "send_message enc msg = res_bind (or_err PayloadError (enc msg)) (\<lambda>b. Inr (admin_frame b))"

section \<open>Frames of direct messages\<close>

definition max_message_size :: nat where "max_message_size = 4 * 1024 * 1024"

definition recv_msg :: "bytes \<Rightarrow> (stream_error, bytes \<times> bytes) result" where
  "recv_msg s =
     res_bind (read_exact 8 s) (\<lambda>(incoming_len, s).
       let len = le_value incoming_len
       in if max_message_size < len then Inl (FrameTooLarge len) else read_exact len s)"

definition p2p_frame :: "bytes \<Rightarrow> bytes" where
  "p2p_frame encoded = le_bytes 8 (length encoded) @ encoded"

text \<open>What \<open>send_msg\<close> writes to the stream that it opens.\<close>

definition send_msg :: "wire_lib \<Rightarrow> u64 \<Rightarrow> secret_key \<Rightarrow> message \<Rightarrow> (wire_error, bytes) result" where
  "send_msg W time_now sk m = res_bind (sign_and_encode W time_now sk m) (\<lambda>encoded. Inr (p2p_frame encoded))"

section \<open>The contract\<close>

fun read_many :: "(bytes \<Rightarrow> (stream_error, bytes \<times> bytes) result) \<Rightarrow> nat \<Rightarrow> bytes \<Rightarrow> (stream_error, bytes list \<times> bytes) result" where
  "read_many rd 0 s = Inr ([], s)"
| "read_many rd (Suc n) s =
     res_bind (rd s) (\<lambda>(b, s). res_bind (read_many rd n s) (\<lambda>(bs, s). Inr (b # bs, s)))"

locale framed_stream =
  fixes frame :: "bytes \<Rightarrow> bytes" and rd :: "bytes \<Rightarrow> (stream_error, bytes \<times> bytes) result"
    and limit :: nat
  assumes read_back: "length b \<le> limit \<Longrightarrow> rd (frame b @ rest) = Inr (b, rest)"
    and read_only: "rd s = Inr (b, rest) \<Longrightarrow> length b \<le> limit \<and> s = frame b @ rest"
    and frame_longer: "length b < length (frame b)"
begin

lemma read_shrinks: "rd s = Inr (b, rest) \<Longrightarrow> length rest < length s"
proof -
  assume "rd s = Inr (b, rest)"
  then have "s = frame b @ rest" using read_only by blast
  then show ?thesis using frame_longer [of b] by (cases "frame b") auto
qed

lemma read_iff: "rd s = Inr (b, rest) \<longleftrightarrow> length b \<le> limit \<and> s = frame b @ rest"
  using read_back [of b rest] read_only [of s b rest] by auto

lemma frames_unique:
  assumes "length b \<le> limit" and "length b' \<le> limit" and "frame b @ rest = frame b' @ rest'"
  shows "b = b' \<and> rest = rest'"
proof -
  have "(Inr (b, rest) :: (stream_error, bytes \<times> bytes) result) = Inr (b', rest')"
    using read_back [OF assms(1)] read_back [OF assms(2)] assms(3) by metis
  then show ?thesis by blast
qed

lemma read_all_frames:
  "list_all (\<lambda>b. length b \<le> limit) bs \<Longrightarrow> read_many rd (length bs) (concat (map frame bs) @ rest) = Inr (bs, rest)"
  by (induction bs) (simp_all add: read_back)

end

section \<open>Both formats keep it\<close>

lemma read_exact_Inr: "read_exact n s = Inr (x, y) \<longleftrightarrow> s = x @ y \<and> length x = n"
  by (auto simp: read_exact_def)

lemma le_bytes_value: "length bs = k \<Longrightarrow> le_bytes k (le_value bs) = bs"
proof (induction bs arbitrary: k)
  case (Cons b bs)
  have "unat b < 256" using unsigned_less [of b] by simp
  with Cons show ?case by auto
qed simp

lemma be_bytes_value: "length bs = k \<Longrightarrow> be_bytes k (be_value bs) = bs"
  by (simp add: be_bytes_def be_value_def le_bytes_value)

interpretation admin: framed_stream admin_frame read_admin_frame max_admin_frame
proof unfold_locales
  fix b rest :: bytes
  assume "length b \<le> max_admin_frame"
  then have "length b mod 256 ^ 4 = length b" and "\<not> max_admin_frame < length b"
    by (simp_all add: max_admin_frame_def)
  then show "read_admin_frame (admin_frame b @ rest) = Inr (b, rest)"
    by (simp add: read_admin_frame_def read_exact_def admin_frame_def)
next
  fix s b rest
  assume "read_admin_frame s = Inr (b, rest)"
  then obtain lb where "s = lb @ b @ rest" "length lb = 4" "length b = be_value lb" "be_value lb \<le> max_admin_frame"
    by (auto simp: read_admin_frame_def res_bind_Inr_iff read_exact_Inr Let_def not_less split: if_splits)
  then show "length b \<le> max_admin_frame \<and> s = admin_frame b @ rest"
    by (simp add: admin_frame_def be_bytes_value)
qed (simp add: admin_frame_def)

interpretation p2p: framed_stream p2p_frame recv_msg max_message_size
proof unfold_locales
  fix b rest :: bytes
  assume "length b \<le> max_message_size"
  then have "length b mod 256 ^ 8 = length b" and "\<not> max_message_size < length b"
    by (simp_all add: max_message_size_def)
  then show "recv_msg (p2p_frame b @ rest) = Inr (b, rest)"
    by (simp add: recv_msg_def read_exact_def p2p_frame_def)
next
  fix s b rest
  assume "recv_msg s = Inr (b, rest)"
  then obtain lb where "s = lb @ b @ rest" "length lb = 8" "length b = le_value lb" "le_value lb \<le> max_message_size"
    by (auto simp: recv_msg_def res_bind_Inr_iff read_exact_Inr Let_def not_less split: if_splits)
  then show "length b \<le> max_message_size \<and> s = p2p_frame b @ rest"
    by (simp add: p2p_frame_def le_bytes_value)
qed (simp add: p2p_frame_def)

lemma read_message_Inr:
  "read_message dec s = Inr (m, rest) \<longleftrightarrow>
     (\<exists>b. length b \<le> max_admin_frame \<and> s = admin_frame b @ rest \<and> dec b = Some m)"
  by (auto simp: read_message_def res_bind_Inr_iff admin.read_iff)

lemma read_message_shrinks: "read_message dec s = Inr (m, rest) \<Longrightarrow> length rest < length s"
  by (auto simp: read_message_Inr admin_frame_def)

lemma read_send_message:
  assumes "send_message enc m = Inr f" and "\<And>b. enc m = Some b \<Longrightarrow> dec b = Some m \<and> length b \<le> max_admin_frame"
  shows "read_message dec (f @ rest) = Inr (m, rest)"
  using assms by (auto simp: send_message_def res_bind_Inr_iff read_message_Inr)

end
