(* ===== verification/Admin_Server.thy ===== *)
theory Admin_Server
  imports Client_Admin Daemon_Loop Wire_Frames
begin

text \<open>
  \<open>src/admin/server.rs\<close>: one connection of the admin socket, and the other end of it in
  \<open>src/app.rs\<close>. A connection is a function of the bytes that the peer sends; it returns the bytes
  written, the daemon's state and what becomes of the task. \<open>S i\<close> is the world during the \<open>i\<close>-th step
  of the connection and \<open>w i\<close> says whether the \<open>i\<close>-th write reaches the peer. Postcard, which encodes
  the messages, is the argument \<open>admin_codec\<close>.
\<close>

record admin_codec =
  enc_auth :: "auth_request \<Rightarrow> bytes option"
  dec_auth :: "bytes \<Rightarrow> auth_request option"
  enc_auth_resp :: "auth_response \<Rightarrow> bytes option"
  dec_auth_resp :: "bytes \<Rightarrow> auth_response option"
  enc_command :: "client_command \<Rightarrow> bytes option"
  dec_command :: "bytes \<Rightarrow> client_command option"
  enc_response :: "client_response \<Rightarrow> bytes option"
  dec_response :: "bytes \<Rightarrow> client_response option"
  enc_request :: "admin_command_request \<Rightarrow> bytes option"
  dec_request :: "bytes \<Rightarrow> admin_command_request option"

text \<open>Decoding inverts encoding, for each of the five types.\<close>

definition admin_codec_ok :: "admin_codec \<Rightarrow> bool" where
  "admin_codec_ok K \<longleftrightarrow>
     (\<forall>x b. enc_auth K x = Some b \<longrightarrow> dec_auth K b = Some x)
     \<and> (\<forall>x b. enc_auth_resp K x = Some b \<longrightarrow> dec_auth_resp K b = Some x)
     \<and> (\<forall>x b. enc_command K x = Some b \<longrightarrow> dec_command K b = Some x)
     \<and> (\<forall>x b. enc_response K x = Some b \<longrightarrow> dec_response K b = Some x)
     \<and> (\<forall>x b. enc_request K x = Some b \<longrightarrow> dec_request K b = Some x)"

section \<open>The daemon's end\<close>

text \<open>What the tasks of the process share.\<close>

record proc =
  pr_ctx :: ctx
  pr_clients :: client_registry
  pr_fs :: fs

datatype next_step = NextCommand | CloseConnection | TaskUnwinds | ExitProcess

definition authenticate_proc ::
    "admin_lib \<Rightarrow> env \<Rightarrow> auth_mode \<Rightarrow> auth_request \<Rightarrow> proc \<Rightarrow> proc \<times> auth_response \<times> endpoint_id option" where
  "authenticate_proc A E mode req p =
     (let (c, r, resp, i) = authenticate_and_register A E mode req (pr_ctx p) (pr_clients p)
      in (p\<lparr>pr_ctx := c, pr_clients := r\<rparr>, resp, i))"

definition command_proc ::
    "admin_lib \<Rightarrow> step_env \<Rightarrow> client_command \<Rightarrow> proc \<Rightarrow> proc \<times> command_outcome" where
  "command_proc A S cmd p =
     (let (c, r, out) = handle_command A (se_db S) (se_env S) cmd (pr_ctx p) (pr_clients p)
      in (p\<lparr>pr_ctx := c, pr_clients := r\<rparr>, out))"

text \<open>The end of a command whose answer was written: a shutdown ends the process after a second.\<close>

definition after_command :: "store_lib \<Rightarrow> step_env \<Rightarrow> command_outcome \<Rightarrow> proc \<Rightarrow> proc \<times> next_step" where
  "after_command L S out p =
     (if co_action out = Some ActShutdown
      then
        let (c, d, f) = graceful_shutdown L S (pr_ctx p) (pr_fs p)
        in (p\<lparr>pr_ctx := c, pr_fs := d\<rparr>, if f = Unwind then TaskUnwinds else ExitProcess)
      else (p, NextCommand))"

text \<open>One iteration of the loop over commands; a refusal that cannot be written is ignored.\<close>

definition serve_command ::
    "admin_lib \<Rightarrow> admin_codec \<Rightarrow> step_env \<Rightarrow> bool \<Rightarrow> endpoint_id \<Rightarrow> client_command \<Rightarrow> proc \<Rightarrow> proc \<times> bytes \<times> next_step" where
  "serve_command A K S write_ok pk cmd p =
     (if \<not> check_permission (pr_clients p) pk (required_permission cmd)
      then (p, (case send_message (enc_response K) (ErrorIs ''Permission denied'') of
                  Inr f \<Rightarrow> if write_ok then f else []
                | Inl e \<Rightarrow> []), NextCommand)
      else
        let (p, out) = command_proc A S cmd p
        in case send_message (enc_response K) (co_response out) of
             Inl e \<Rightarrow> (p, [], CloseConnection)
           | Inr f \<Rightarrow>
               if \<not> write_ok then (p, [], CloseConnection)
               else let (p, n) = after_command (al_store A) S out p in (p, f, n))"

function command_loop ::
    "admin_lib \<Rightarrow> admin_codec \<Rightarrow> (nat \<Rightarrow> step_env) \<Rightarrow> (nat \<Rightarrow> bool) \<Rightarrow> endpoint_id \<Rightarrow> nat \<Rightarrow> bytes \<Rightarrow> proc
     \<Rightarrow> proc \<times> bytes \<times> next_step" where
  "command_loop A K S w pk i input p =
     (case read_message (dec_command K) input of
        Inl e \<Rightarrow> (p, [], CloseConnection)
      | Inr (cmd, rest) \<Rightarrow>
          let (p, written, n) = serve_command A K (S i) (w i) pk cmd p
          in if n = NextCommand
             then let (p, more, n) = command_loop A K S w pk (Suc i) rest p in (p, written @ more, n)
             else (p, written, n))"
  by pat_completeness auto
termination
  by (relation "measure (\<lambda>(A, K, S, w, pk, i, input, p). length input)") (auto dest: read_message_shrinks)

declare command_loop.simps [simp del]

definition handle_client_connection ::
    "admin_lib \<Rightarrow> admin_codec \<Rightarrow> (nat \<Rightarrow> step_env) \<Rightarrow> (nat \<Rightarrow> bool) \<Rightarrow> bytes \<Rightarrow> proc \<Rightarrow> proc \<times> bytes \<times> next_step" where
  "handle_client_connection A K S w input p =
     (case read_message (dec_auth K) input of
        Inl e \<Rightarrow> (p, [], CloseConnection)
      | Inr (auth_req, rest) \<Rightarrow>
          let (p, response, client_id) = authenticate_proc A (se_env (S 0)) AllowLocalTicketless auth_req p
          in case send_message (enc_auth_resp K) response of
               Inl e \<Rightarrow> (p, [], CloseConnection)
             | Inr f \<Rightarrow>
                 if \<not> w 0 then (p, [], CloseConnection)
                 else case client_id of
                        None \<Rightarrow> (p, f, CloseConnection)
                      | Some pk \<Rightarrow>
                          let (p, more, n) = command_loop A K S w pk 1 rest p in (p, f @ more, n))"

section \<open>The client's end\<close>

datatype node_command = NodeAdd string | NodeRemove string

datatype client_command_args =
    ListNodes | ShowStatus | NodeCmd node_command | ShowTicket | PauseDaemon | ResumeDaemon | StopDaemon

fun to_client_command :: "client_command_args \<Rightarrow> client_command" where
  "to_client_command ListNodes = Query"
| "to_client_command ShowStatus = Status"
| "to_client_command (NodeCmd (NodeAdd t)) = AddNode t"
| "to_client_command (NodeCmd (NodeRemove i)) = RemoveNode i"
| "to_client_command ShowTicket = GetTicket"
| "to_client_command PauseDaemon = Pause"
| "to_client_command ResumeDaemon = Resume"
| "to_client_command StopDaemon = Shutdown"

datatype client_failure =
    StreamFailure stream_error | AuthenticationFailed string | BadHttpResponse | HttpStatus nat

definition on_stream :: "(stream_error, 'a) result \<Rightarrow> (client_failure, 'a) result" where
  "on_stream r = (case r of Inl e \<Rightarrow> Inl (StreamFailure e) | Inr x \<Rightarrow> Inr x)"

definition auth_error_text :: "auth_response \<Rightarrow> string" where
  "auth_error_text resp = (case as_error resp of Some e \<Rightarrow> e | None \<Rightarrow> ''Unknown error'')"

text \<open>\<open>input\<close> is what the daemon writes; the result holds what the client wrote and what is left.\<close>

definition authenticate_socket :: "admin_codec \<Rightarrow> auth_request \<Rightarrow> bytes \<Rightarrow> (client_failure, bytes \<times> bytes) result" where
  "authenticate_socket K auth input =
     res_bind (on_stream (send_message (enc_auth K) auth)) (\<lambda>written.
     res_bind (on_stream (read_message (dec_auth_resp K) input)) (\<lambda>(auth_resp, input).
       if \<not> as_success auth_resp then Inl (AuthenticationFailed (auth_error_text auth_resp))
       else Inr (written, input)))"

definition execute_socket_command ::
    "admin_codec \<Rightarrow> client_command_args \<Rightarrow> bytes \<Rightarrow> (client_failure, bytes \<times> client_response) result" where
  "execute_socket_command K command input =
     res_bind (on_stream (send_message (enc_command K) (to_client_command command))) (\<lambda>written.
     res_bind (on_stream (read_message (dec_response K) input)) (\<lambda>(resp, input). Inr (written, resp)))"

definition run_socket_client ::
    "admin_codec \<Rightarrow> auth_request \<Rightarrow> client_command_args \<Rightarrow> bytes \<Rightarrow> (client_failure, bytes \<times> client_response) result" where
  "run_socket_client K auth command input =
     res_bind (authenticate_socket K auth input) (\<lambda>(written, input).
     res_bind (execute_socket_command K command input) (\<lambda>(more, resp). Inr (written @ more, resp)))"

section \<open>The socket path\<close>

text \<open>
  Paths as strings, on Unix. The variables and directories come from the process environment;
  \<open>join_path\<close> is \<open>Path::join\<close> with a relative path.
\<close>

record path_env =
  pe_socket :: "string option"
  pe_xdg_runtime :: "string option"
  pe_runtime_dir :: "string option"
  pe_dirs_runtime :: "string option"
  pe_cache_dir :: "string option"
  pe_temp_dir :: string

definition join_path :: "string \<Rightarrow> string \<Rightarrow> string" where
  "join_path d f = (if d = [] \<or> ends_with ''/'' d then d @ f else d @ ''/'' @ f)"

definition push_candidate :: "string list \<Rightarrow> string \<Rightarrow> string list" where
  "push_candidate candidates p =
     (if list_ex (\<lambda>q. path_of q = path_of p) candidates then candidates else candidates @ [p])"

definition push_some :: "string option \<Rightarrow> string \<Rightarrow> string list \<Rightarrow> string list" where
  "push_some dir f candidates =
     (case dir of Some d \<Rightarrow> push_candidate candidates (join_path d f) | None \<Rightarrow> candidates)"

definition socket_path_candidates :: "path_env \<Rightarrow> string list" where
  "socket_path_candidates P =
     (case pe_socket P of
        Some p \<Rightarrow> [p]
      | None \<Rightarrow>
          let cs = push_some (pe_xdg_runtime P) ''p2p-ddns.sock'' [];
              cs = push_some (pe_runtime_dir P) ''p2p-ddns.sock'' cs;
              cs = push_candidate cs ''/run/p2p-ddns.sock'';
              cs = push_some (pe_dirs_runtime P) ''p2p-ddns.sock'' cs;
              cs = push_some (pe_cache_dir P) ''p2p-ddns/p2p-ddns.sock'' cs
          in push_candidate cs (join_path (pe_temp_dir P) ''p2p-ddns/p2p-ddns.sock''))"

definition default_socket_path :: "path_env \<Rightarrow> string" where
  "default_socket_path P =
     (case socket_path_candidates P of
        p # ps \<Rightarrow> p | [] \<Rightarrow> join_path (pe_temp_dir P) ''p2p-ddns/p2p-ddns.sock'')"

text \<open>The client looks for a socket that exists, also at three older places. \<open>env::var\<close> of
  \<open>P2P_DDNS_SOCKET\<close> wants UTF-8, which a \<open>string\<close> here is assumed to be.\<close>

definition legacy_socket_paths :: "string list" where
  "legacy_socket_paths =
     [''/run/p2p-ddns/p2p-ddns.sock'', ''/var/run/p2p-ddns/p2p-ddns.sock'', ''/var/run/p2p-ddns.sock'']"

definition get_socket_path :: "path_env \<Rightarrow> (string \<Rightarrow> bool) \<Rightarrow> string option \<Rightarrow> string" where
  "get_socket_path P exists_path override_path =
     (case override_path of
        Some p \<Rightarrow> p
      | None \<Rightarrow>
          (case pe_socket P of
             Some p \<Rightarrow> p
           | None \<Rightarrow>
               let candidates = fold (\<lambda>p cs. push_candidate cs p) legacy_socket_paths (socket_path_candidates P)
               in case find exists_path candidates of
                    Some p \<Rightarrow> p
                  | None \<Rightarrow> (case candidates of p # ps \<Rightarrow> p | [] \<Rightarrow> default_socket_path P)))"

end
