(* ===== verification/Http_Text.thy ===== *)
theory Http_Text
  imports Text_Lines Addr_Text
begin

text \<open>
  The text processing of the HTTP admin interface (\<open>src/admin/http.rs\<close> and the HTTP client of
  \<open>src/app.rs\<close>) and the parts of the standard library it uses: searching for the end of the header,
  \<open>split\<close> on line ends, \<open>split_whitespace\<close>, \<open>split_once\<close>, integer parsing. HTTP data is a \<open>string\<close>
  of bytes.
\<close>

section \<open>Searching and splitting\<close>

abbreviation CRLF :: string where "CRLF \<equiv> [CR, LF]"

definition header_terminator :: string where "header_terminator = [CR, LF, CR, LF]"

text \<open>\<open>windows(n).position(|w| w == pat)\<close>\<close>

fun find_sub :: "string \<Rightarrow> string \<Rightarrow> nat option" where
  "find_sub pat [] = (if pat = [] then Some 0 else None)"
| "find_sub pat (c # s) = (if prefix pat (c # s) then Some 0 else map_option Suc (find_sub pat s))"

text \<open>\<open>split("\r\n")\<close>\<close>

fun split_crlf :: "string \<Rightarrow> string list" where
  "split_crlf [] = [[]]"
| "split_crlf [c] = [[c]]"
| "split_crlf (c # e # s) =
     (if c = CR \<and> e = LF then [] # split_crlf s
      else case split_crlf (e # s) of [] \<Rightarrow> [[c]] | l # ls \<Rightarrow> (c # l) # ls)"

text \<open>\<open>split_once(':')\<close>\<close>

definition split_once :: "char \<Rightarrow> string \<Rightarrow> (string \<times> string) option" where
  "split_once c s =
     (if c \<in> set s then Some (takeWhile (\<lambda>x. x \<noteq> c) s, tl (dropWhile (\<lambda>x. x \<noteq> c) s)) else None)"

text \<open>\<open>split_whitespace()\<close>, on valid UTF-8.\<close>

fun until_ws :: "string \<Rightarrow> string" where
  "until_ws [] = []"
| "until_ws (c # s) = (if list_ex (\<lambda>w. prefix w (c # s)) ws_encodings then [] else c # until_ws s)"

lemma strip_any_shorter: "length (strip_any ws s) \<le> length s"
proof (induction ws s rule: strip_any.induct)
  case (1 ws s)
  show ?case
  proof (cases "find (\<lambda>w. w \<noteq> [] \<and> prefix w s) ws")
    case (Some w)
    have "length (strip_any ws s) \<le> length (drop (length w) s)"
      using 1 [OF Some] Some by (subst strip_any.simps) simp
    then show ?thesis by simp
  qed (subst strip_any.simps, simp)
qed

function split_whitespace :: "string \<Rightarrow> string list" where
  "split_whitespace s =
     (let t = trim_start s; w = until_ws t
      in if w = [] then [] else w # split_whitespace (drop (length w) t))"
  by pat_completeness auto
termination
proof (relation "measure length")
  fix s t w :: string
  assume "t = trim_start s" "w = until_ws t" "w \<noteq> []"
  then have "length t \<le> length s" "w \<noteq> []" "t \<noteq> []" by (auto simp: trim_start_def strip_any_shorter)
  then show "(drop (length w) t, s) \<in> measure length" by (cases t; cases w) auto
qed simp

declare split_whitespace.simps [simp del]

section \<open>Numbers\<close>

text \<open>\<open>parse::<usize>()\<close> and \<open>parse::<u16>()\<close>: an optional plus sign, at least one digit, no overflow.\<close>

definition digit_value :: "char \<Rightarrow> nat" where "digit_value c = of_char c - 48"

definition digits_value :: "string \<Rightarrow> nat" where
  "digits_value s = foldl (\<lambda>n c. 10 * n + digit_value c) 0 s"

definition parse_unsigned :: "nat \<Rightarrow> string \<Rightarrow> nat option" where
  "parse_unsigned w s =
     (let ds = (if s \<noteq> [] \<and> hd s = CHR ''+'' then tl s else s)
      in if ds = [] \<or> \<not> list_all is_ascii_digit ds \<or> 2 ^ w \<le> digits_value ds then None
         else Some (digits_value ds))"

lemma digit_char_digit: "d < 10 \<Longrightarrow> is_ascii_digit (digit_char d)"
  by (simp add: digit_char_def is_ascii_digit_def code_in_def)

lemma digit_value_char: "d < 10 \<Longrightarrow> digit_value (digit_char d) = d"
  by (simp add: digit_value_def digit_char_def)

lemma show_nat_digits: "list_all is_ascii_digit (show_nat n)"
proof (induction n rule: show_nat.induct)
  case (1 n)
  then show ?case by (subst show_nat.simps) (simp add: digit_char_digit)
qed

lemma digits_value_show: "digits_value (show_nat n) = n"
proof (induction n rule: show_nat.induct)
  case (1 n)
  then show ?case
    by (subst show_nat.simps) (simp add: digits_value_def digit_value_char)
qed

lemma digit_no_plus: "is_ascii_digit c \<Longrightarrow> c \<noteq> CHR ''+''"
  by (auto simp: is_ascii_digit_def code_in_def)

lemma parse_show_nat: "n < 2 ^ w \<Longrightarrow> parse_unsigned w (show_nat n) = Some n"
proof -
  assume n: "n < 2 ^ w"
  have "hd (show_nat n) \<noteq> CHR ''+''"
    using show_nat_digits [of n] show_nat_not_Nil [of n] by (cases "show_nat n") (auto dest: digit_no_plus)
  with n show ?thesis
    by (simp add: parse_unsigned_def digits_value_show show_nat_digits show_nat_not_Nil Let_def)
qed

section \<open>The header of a request\<close>

definition parse_headers :: "string list \<Rightarrow> (string \<rightharpoonup> string)" where
  "parse_headers lines =
     fold (\<lambda>line hs. case split_once (CHR '':'') line of
             Some (k, v) \<Rightarrow> hs(to_ascii_lowercase (trim k) \<mapsto> trim v)
           | None \<Rightarrow> hs)
       (takeWhile (\<lambda>l. l \<noteq> []) lines) Map.empty"

definition nth_or_empty :: "nat \<Rightarrow> string list \<Rightarrow> string" where
  "nth_or_empty i xs = (if i < length xs then xs ! i else [])"

text \<open>Method, path and headers of a header text; \<open>split\<close> yields at least one line.\<close>

definition parse_header_text :: "string \<Rightarrow> string \<times> string \<times> (string \<rightharpoonup> string)" where
  "parse_header_text header_text =
     (let lines = split_crlf header_text;
          parts = split_whitespace (hd lines)
      in (nth_or_empty 0 parts, nth_or_empty 1 parts, parse_headers (tl lines)))"

end
