(* ===== verification/Admin_Http.thy ===== *)
theory Admin_Http
  imports Admin_Server Http_Text
begin

text \<open>
  \<open>src/admin/http.rs\<close>: one connection of the HTTP admin interface, and the HTTP client of
  \<open>src/app.rs\<close>. The input is what the peer sends before it closes; \<open>rd i\<close> is how many bytes the \<open>i\<close>-th
  read returns at most (at least one when there are any, \<open>None\<close> when the read fails), so a statement
  for every \<open>rd\<close> holds however the request is cut into packets.
\<close>

section \<open>Bytes\<close>

definition bytes_of :: "string \<Rightarrow> bytes" where "bytes_of s = map of_char s"

definition text_of :: "bytes \<Rightarrow> string" where "text_of b = map (\<lambda>w. char_of (unat w)) b"

lemma bytes_of_text_of [simp]: "bytes_of (text_of b) = b"
proof -
  have "of_char (char_of (unat w)) = w" for w :: u8
  proof -
    have "(of_char (char_of (unat w)) :: nat) = unat w"
      using unsigned_less [of w, where 'a = nat] by (simp add: mod_less)
    then have "(of_nat (of_char (char_of (unat w)) :: nat) :: u8) = w" by (simp only:) simp
    then show ?thesis unfolding of_nat_of_char .
  qed
  then show ?thesis by (simp add: bytes_of_def text_of_def comp_def)
qed

lemma length_text_of [simp]: "length (text_of b) = length b"
  by (simp add: text_of_def)

section \<open>Reading a request\<close>

datatype http_failure =
    ConnectionClosed | ReadFailed | HeadersTooLarge | HeaderNotUtf8 | BadContentLength
  | BodyTooLarge | ClosedInBody

definition read_some :: "nat option \<Rightarrow> nat \<Rightarrow> string \<Rightarrow> (http_failure, string \<times> string) result" where
  "read_some r cap s =
     (case r of
        None \<Rightarrow> Inl ReadFailed
      | Some k \<Rightarrow> let n = min (min cap (length s)) (max 1 k) in Inr (take n s, drop n s))"

lemma read_some_Inr:
  "read_some r cap s = Inr (chunk, rest) \<Longrightarrow> s = chunk @ rest \<and> length chunk \<le> cap"
  by (auto simp: read_some_def Let_def split: option.splits)

lemma read_some_nonempty:
  "read_some r cap s = Inr (chunk, rest) \<Longrightarrow> 0 < cap \<Longrightarrow> s \<noteq> [] \<Longrightarrow> chunk \<noteq> []"
  by (auto simp: read_some_def Let_def min_def max_def split: option.splits if_splits)

definition max_body_size :: nat where "max_body_size = 4 * 1024 * 1024"

definition max_header_size :: nat where "max_header_size = 64 * 1024"

text \<open>The first loop: the buffer, the end of the header, the reads made and what is left to read.\<close>

function read_head :: "(nat \<Rightarrow> nat option) \<Rightarrow> nat \<Rightarrow> string \<Rightarrow> string \<Rightarrow> (http_failure, string \<times> nat \<times> nat \<times> string) result" where
  "read_head rd i buf s =
     (case read_some (rd i) 1024 s of
        Inl e \<Rightarrow> Inl e
      | Inr (chunk, rest) \<Rightarrow>
          if chunk = [] then Inl ConnectionClosed
          else
            case find_sub header_terminator (buf @ chunk) of
              Some pos \<Rightarrow> Inr (buf @ chunk, pos + 4, Suc i, rest)
            | None \<Rightarrow>
                if max_header_size < length (buf @ chunk) then Inl HeadersTooLarge
                else read_head rd (Suc i) (buf @ chunk) rest)"
  by pat_completeness auto
termination
  by (relation "measure (\<lambda>(rd, i, buf, s). length s)") (auto dest!: read_some_Inr)

declare read_head.simps [simp del]

function read_body :: "(nat \<Rightarrow> nat option) \<Rightarrow> nat \<Rightarrow> nat \<Rightarrow> string \<Rightarrow> string \<Rightarrow> (http_failure, string) result" where
  "read_body rd i content_len body s =
     (if content_len \<le> length body then Inr body
      else case read_some (rd i) (content_len - length body) s of
             Inl e \<Rightarrow> Inl e
           | Inr (chunk, rest) \<Rightarrow>
               if chunk = [] then Inl ClosedInBody
               else if max_body_size < length (body @ chunk) then Inl BodyTooLarge
               else read_body rd (Suc i) content_len (body @ chunk) rest)"
  by pat_completeness auto
termination
  by (relation "measure (\<lambda>(rd, i, n, body, s). length s)") (auto dest!: read_some_Inr)

declare read_body.simps [simp del]

definition content_length :: "(string \<rightharpoonup> string) \<Rightarrow> (http_failure, nat) result" where
  "content_length headers =
     (case headers ''content-length'' of
        None \<Rightarrow> Inr 0
      | Some s \<Rightarrow> (case parse_unsigned 64 s of None \<Rightarrow> Inl BadContentLength | Some n \<Rightarrow> Inr n))"

definition read_http_request ::
    "(nat \<Rightarrow> nat option) \<Rightarrow> string \<Rightarrow> (http_failure, string \<times> string \<times> (string \<rightharpoonup> string) \<times> string) result" where
  "read_http_request rd input =
     res_bind (read_head rd 0 [] input) (\<lambda>(buf, header_end, i, rest).
       if \<not> utf8_ok (take header_end buf) then Inl HeaderNotUtf8
       else
         let (request_method, path, headers) = parse_header_text (take header_end buf)
         in res_bind (content_length headers) (\<lambda>content_len.
              if max_body_size < content_len then Inl BodyTooLarge
              else if max_body_size < length (drop header_end buf) then Inl BodyTooLarge
              else res_bind (read_body rd i content_len (drop header_end buf) rest)
                     (\<lambda>body. Inr (request_method, path, headers, body))))"

section \<open>Responses\<close>

fun reason_of :: "nat \<Rightarrow> string" where
  "reason_of n =
     (if n = 200 then ''OK'' else if n = 401 then ''Unauthorized'' else if n = 403 then ''Forbidden''
      else if n = 404 then ''Not Found'' else if n = 405 then ''Method Not Allowed''
      else if n = 415 then ''Unsupported Media Type'' else if n = 500 then ''Internal Server Error'' else ''OK'')"

definition write_response :: "nat \<Rightarrow> string \<Rightarrow> string \<Rightarrow> string" where
  "write_response status content_type body =
     ''HTTP/1.1 '' @ show_nat status @ '' '' @ reason_of status @ CRLF
     @ ''Content-Type: '' @ content_type @ CRLF
     @ ''Content-Length: '' @ show_nat (length body) @ CRLF
     @ ''Connection: close'' @ CRLF @ CRLF @ body"

section \<open>A connection\<close>

definition auth_mode_for_bind :: "socket_addr \<Rightarrow> auth_mode" where
  "auth_mode_for_bind bind = (if is_loopback (sock_ip bind) then AllowLocalTicketless else RequireTicket)"

definition respond :: "bool \<Rightarrow> nat \<Rightarrow> string \<Rightarrow> string \<Rightarrow> proc \<Rightarrow> proc \<times> string \<times> next_step" where
  "respond write_ok status content_type body p =
     (p, if write_ok then write_response status content_type body else [], CloseConnection)"

definition respond_encoded :: "bool \<Rightarrow> nat \<Rightarrow> bytes option \<Rightarrow> proc \<Rightarrow> proc \<times> string \<times> next_step" where
  "respond_encoded write_ok status body p =
     (case body of
        None \<Rightarrow> (p, [], CloseConnection)
      | Some b \<Rightarrow> respond write_ok status ''application/postcard'' (text_of b) p)"

definition serve_http_command ::
    "admin_lib \<Rightarrow> admin_codec \<Rightarrow> auth_mode \<Rightarrow> (nat \<Rightarrow> step_env) \<Rightarrow> bool \<Rightarrow> admin_command_request \<Rightarrow> proc
     \<Rightarrow> proc \<times> string \<times> next_step" where
  "serve_http_command A K mode S write_ok req p =
     (let (p, auth_resp, client_id) = authenticate_proc A (se_env (S 0)) mode (acr_auth req) p
      in if \<not> as_success auth_resp then respond_encoded write_ok 401 (enc_auth_resp K auth_resp) p
         else case client_id of
             None \<Rightarrow> respond_encoded write_ok 401 (enc_response K (ErrorIs ''Missing client_public_key'')) p
           | Some i \<Rightarrow>
               if \<not> check_permission (pr_clients p) i (required_permission (acr_command req))
               then respond_encoded write_ok 403 (enc_response K (ErrorIs ''Permission denied'')) p
               else
                 let (p, out) = command_proc A (S 1) (acr_command req) p
                 in case enc_response K (co_response out) of
                      None \<Rightarrow> (p, [], CloseConnection)
                    | Some b \<Rightarrow>
                        if \<not> write_ok then (p, [], CloseConnection)
                        else
                          let (p, n) = after_command (al_store A) (S 1) out p
                          in (p, write_response 200 ''application/postcard'' (text_of b),
                              if n = NextCommand then CloseConnection else n))"

definition handle_connection ::
    "admin_lib \<Rightarrow> admin_codec \<Rightarrow> auth_mode \<Rightarrow> (nat \<Rightarrow> step_env) \<Rightarrow> (nat \<Rightarrow> nat option) \<Rightarrow> bool \<Rightarrow> string \<Rightarrow> proc
     \<Rightarrow> proc \<times> string \<times> next_step" where
  "handle_connection A K mode S rd write_ok input p =
     (case read_http_request rd input of
        Inl e \<Rightarrow> (p, [], CloseConnection)
      | Inr (request_method, path, headers, body) \<Rightarrow>
          if request_method \<noteq> ''POST'' then respond write_ok 405 ''text/plain'' ''Method Not Allowed'' p
          else
            let content_type = (case headers ''content-type'' of Some v \<Rightarrow> v | None \<Rightarrow> ''application/octet-stream'')
            in if content_type \<noteq> ''application/postcard'' \<and> content_type \<noteq> ''application/octet-stream''
               then respond write_ok 415 ''text/plain'' ''Unsupported Media Type'' p
               else if path = ''/auth'' then
                 (case dec_auth K (bytes_of body) of
                    None \<Rightarrow> (p, [], CloseConnection)
                  | Some auth_req \<Rightarrow>
                      let (p, auth_resp, client_id) = authenticate_proc A (se_env (S 0)) mode auth_req p
                      in respond_encoded write_ok 200 (enc_auth_resp K auth_resp) p)
               else if path = ''/command'' then
                 (case dec_request K (bytes_of body) of
                    None \<Rightarrow> (p, [], CloseConnection)
                  | Some req \<Rightarrow> serve_http_command A K mode S write_ok req p)
               else respond write_ok 404 ''text/plain'' ''Not Found'' p)"

section \<open>The client\<close>

definition http_request :: "string \<Rightarrow> socket_addr \<Rightarrow> string \<Rightarrow> string" where
  "http_request path bind request_body =
     ''POST '' @ path @ '' HTTP/1.1'' @ CRLF
     @ ''Host: '' @ show_socket_addr bind @ CRLF
     @ ''Content-Type: application/postcard'' @ CRLF
     @ ''Content-Length: '' @ show_nat (length request_body) @ CRLF
     @ ''Connection: close'' @ CRLF @ CRLF @ request_body"

definition parse_http_response :: "string \<Rightarrow> (client_failure, nat \<times> string) result" where
  "parse_http_response resp =
     (case find_sub header_terminator resp of
        None \<Rightarrow> Inl BadHttpResponse
      | Some header_end \<Rightarrow>
          let header = take header_end resp
          in if \<not> utf8_ok header then Inl BadHttpResponse
             else case buf_lines header of
                 [] \<Rightarrow> Inl BadHttpResponse
               | l # ls \<Rightarrow>
                   let ws = split_whitespace l
                   in if length ws \<le> 1 then Inl BadHttpResponse
                      else case parse_unsigned 16 (ws ! 1) of
                          None \<Rightarrow> Inl BadHttpResponse
                        | Some status \<Rightarrow> Inr (status, drop (header_end + 4) resp))"

text \<open>\<open>resp\<close> is everything the daemon writes before it closes the connection.\<close>

definition send_http_post ::
    "('a \<Rightarrow> bytes option) \<Rightarrow> socket_addr \<Rightarrow> string \<Rightarrow> 'a \<Rightarrow> string \<Rightarrow> (client_failure, string \<times> nat \<times> string) result" where
  "send_http_post enc bind path x resp =
     res_bind (on_stream (or_err PayloadError (enc x))) (\<lambda>b.
     res_bind (parse_http_response resp) (\<lambda>(status, body).
       Inr (http_request path bind (text_of b), status, body)))"

definition authenticate_http ::
    "admin_codec \<Rightarrow> socket_addr \<Rightarrow> auth_request \<Rightarrow> string \<Rightarrow> (client_failure, string) result" where
  "authenticate_http K bind auth resp =
     res_bind (send_http_post (enc_auth K) bind ''/auth'' auth resp) (\<lambda>(written, status, body).
       if status \<noteq> 200 then Inl (HttpStatus status)
       else
         res_bind (on_stream (or_err PayloadError (dec_auth_resp K (bytes_of body)))) (\<lambda>auth_resp.
           if \<not> as_success auth_resp then Inl (AuthenticationFailed (auth_error_text auth_resp))
           else Inr written))"

definition command_reply :: "admin_codec \<Rightarrow> nat \<Rightarrow> string \<Rightarrow> (client_failure, client_response) result" where
  "command_reply K status body =
     (if status = 200 \<or> status = 403
      then on_stream (or_err PayloadError (dec_response K (bytes_of body)))
      else if status = 401
      then
        res_bind (on_stream (or_err PayloadError (dec_auth_resp K (bytes_of body)))) (\<lambda>auth_resp.
          Inl (AuthenticationFailed (auth_error_text auth_resp)))
      else Inl (HttpStatus status))"

definition run_http_client ::
    "admin_codec \<Rightarrow> socket_addr \<Rightarrow> auth_request \<Rightarrow> client_command_args \<Rightarrow> string \<Rightarrow> string
     \<Rightarrow> (client_failure, string \<times> string \<times> client_response) result" where
  "run_http_client K bind auth command auth_reply command_reply_text =
     res_bind (authenticate_http K bind auth auth_reply) (\<lambda>first.
     res_bind (send_http_post (enc_request K) bind ''/command''
                 \<lparr>acr_auth = auth, acr_command = to_client_command command\<rparr> command_reply_text) (\<lambda>(second, status, body).
     res_bind (command_reply K status body) (\<lambda>resp. Inr (first, second, resp))))"

end
