(* ===== verification/Addr_Parse.thy ===== *)
theory Addr_Parse
  imports Http_Text
begin

text \<open>
  Reading addresses: the parsers of the standard library behind \<open>str::parse::<SocketAddr>\<close> and
  \<open>str::parse::<IpAddr>\<close> (\<open>core::net::parser\<close>), and the two functions of \<open>src/util/mod.rs\<close> that the
  bind options go through. A parser takes the rest of the text and returns a value and what it
  left, or nothing, in which case the caller goes on from where it was (\<open>read_atomically\<close>).
\<close>

type_synonym 'a reader = "string \<Rightarrow> ('a \<times> string) option"

section \<open>Numbers\<close>

fun to_digit :: "nat \<Rightarrow> char \<Rightarrow> nat option" where
  "to_digit radix c =
     (let n = of_char c :: nat;
          d = (if 48 \<le> n \<and> n \<le> 57 then n - 48
               else if 97 \<le> n \<and> n \<le> 122 then n - 87
               else if 65 \<le> n \<and> n \<le> 90 then n - 55 else 36)
      in if d < radix then Some d else None)"

declare to_digit.simps [simp del]

definition is_digit_of :: "nat \<Rightarrow> char \<Rightarrow> bool" where
  "is_digit_of radix c = (to_digit radix c \<noteq> None)"

definition radix_value :: "nat \<Rightarrow> string \<Rightarrow> nat" where
  "radix_value radix s = foldl (\<lambda>n c. radix * n + the (to_digit radix c)) 0 s"

text \<open>\<open>read_number\<close> at a result type with \<open>bound\<close> values: all the digits, no more than \<open>max_digits\<close>.\<close>

definition read_number :: "nat \<Rightarrow> nat option \<Rightarrow> bool \<Rightarrow> nat \<Rightarrow> nat reader" where
  "read_number radix max_digits allow_zero_prefix bound s =
     (let ds = takeWhile (is_digit_of radix) s; v = radix_value radix ds
      in if ds = [] \<or> (case max_digits of Some m \<Rightarrow> m < length ds | None \<Rightarrow> False)
            \<or> (\<not> allow_zero_prefix \<and> hd ds = CHR ''0'' \<and> 1 < length ds) \<or> bound \<le> v
         then None else Some (v, drop (length ds) s))"

fun read_given_char :: "char \<Rightarrow> unit reader" where
  "read_given_char c [] = None"
| "read_given_char c (x # s) = (if x = c then Some ((), s) else None)"

definition read_separator :: "char \<Rightarrow> nat \<Rightarrow> 'a reader \<Rightarrow> 'a reader" where
  "read_separator sep i p s =
     (if i = 0 then p s else Option.bind (read_given_char sep s) (\<lambda>(u, s). p s))"

definition parse_with :: "'a reader \<Rightarrow> string \<Rightarrow> 'a option" where
  "parse_with p s = (case p s of Some (x, []) \<Rightarrow> Some x | _ \<Rightarrow> None)"

section \<open>Addresses\<close>

definition read_octet :: "nat \<Rightarrow> nat reader" where
  "read_octet i = read_separator CHR ''.'' i (read_number 10 (Some 3) False 256)"

definition ipv4_of :: "nat \<Rightarrow> nat \<Rightarrow> nat \<Rightarrow> nat \<Rightarrow> u32" where
  "ipv4_of a b c d = of_nat (((a * 256 + b) * 256 + c) * 256 + d)"

definition read_ipv4 :: "u32 reader" where
  "read_ipv4 s =
     Option.bind (read_octet 0 s) (\<lambda>(a, s).
     Option.bind (read_octet 1 s) (\<lambda>(b, s).
     Option.bind (read_octet 2 s) (\<lambda>(c, s).
     Option.bind (read_octet 3 s) (\<lambda>(d, s). Some (ipv4_of a b c d, s)))))"

definition read_segment :: "nat \<Rightarrow> nat reader" where
  "read_segment i = read_separator CHR '':'' i (read_number 16 (Some 4) True 65536)"

text \<open>\<open>read_groups\<close> with \<open>k\<close> groups left of the slice, the next being the \<open>i\<close>-th.\<close>

fun read_groups :: "nat \<Rightarrow> nat \<Rightarrow> string \<Rightarrow> nat list \<times> bool \<times> string" where
  "read_groups 0 i s = ([], False, s)"
| "read_groups (Suc k) i s =
     (case (if 0 < k then read_separator CHR '':'' i read_ipv4 s else None) of
        Some (a, s') \<Rightarrow> ([unat a div 65536, unat a mod 65536], True, s')
      | None \<Rightarrow>
          (case read_segment i s of
             None \<Rightarrow> ([], False, s)
           | Some (g, s') \<Rightarrow>
               (let (gs, v4, s'') = read_groups k (Suc i) s' in (g # gs, v4, s''))))"

definition ipv6_of :: "nat list \<Rightarrow> u128" where
  "ipv6_of gs = of_nat (foldl (\<lambda>n g. n * 65536 + g) 0 gs)"

definition read_ipv6 :: "u128 reader" where
  "read_ipv6 s =
     (let (head, head_ipv4, s1) = read_groups 8 0 s
      in if length head = 8 then Some (ipv6_of head, s1)
         else if head_ipv4 then None
         else
           Option.bind (read_given_char CHR '':'' s1) (\<lambda>(u, s2).
           Option.bind (read_given_char CHR '':'' s2) (\<lambda>(u, s3).
             let (tl_groups, tl_ipv4, s4) = read_groups (8 - (length head + 1)) 0 s3
             in Some (ipv6_of (head @ replicate (8 - length head - length tl_groups) 0 @ tl_groups), s4))))"

definition or_read :: "'a reader \<Rightarrow> 'a reader \<Rightarrow> 'a reader" where
  "or_read p q s = (case p s of Some r \<Rightarrow> Some r | None \<Rightarrow> q s)"

definition map_read :: "('a \<Rightarrow> 'b) \<Rightarrow> 'a reader \<Rightarrow> 'b reader" where
  "map_read f p s = map_option (\<lambda>(x, s). (f x, s)) (p s)"

definition read_ip :: "ip_addr reader" where
  "read_ip = or_read (map_read IpV4 read_ipv4) (map_read IpV6 read_ipv6)"

definition read_port :: "u16 reader" where
  "read_port s =
     Option.bind (read_given_char CHR '':'' s) (\<lambda>(u, s). map_read of_nat (read_number 10 None True 65536) s)"

definition read_scope_id :: "u32 reader" where
  "read_scope_id s =
     Option.bind (read_given_char CHR ''%'' s) (\<lambda>(u, s). map_read of_nat (read_number 10 None True (2 ^ 32)) s)"

definition read_sock_v4 :: "socket_addr reader" where
  "read_sock_v4 s =
     Option.bind (read_ipv4 s) (\<lambda>(a, s). map_read (SockV4 a) read_port s)"

definition read_sock_v6 :: "socket_addr reader" where
  "read_sock_v6 s =
     Option.bind (read_given_char CHR ''['' s) (\<lambda>(u, s).
     Option.bind (read_ipv6 s) (\<lambda>(a, s).
       let (scope, s) = (case read_scope_id s of Some r \<Rightarrow> r | None \<Rightarrow> (0, s))
       in Option.bind (read_given_char CHR '']'' s) (\<lambda>(u, s).
            map_read (\<lambda>p. SockV6 a p 0 scope) read_port s)))"

definition parse_ip :: "string \<Rightarrow> ip_addr option" where
  "parse_ip = parse_with read_ip"

definition parse_sock :: "string \<Rightarrow> socket_addr option" where
  "parse_sock = parse_with (or_read read_sock_v4 read_sock_v6)"

section \<open>Bind options\<close>

datatype bind_target = BindIp ip_addr | BindSocket socket_addr

datatype bind_error = BadBindAddr string

definition parse_bind_addr :: "string \<Rightarrow> (bind_error, socket_addr) result" where
  "parse_bind_addr bind = (case parse_sock bind of Some a \<Rightarrow> Inr a | None \<Rightarrow> Inl (BadBindAddr bind))"

definition parse_bind_target :: "string \<Rightarrow> (bind_error, bind_target) result" where
  "parse_bind_target bind =
     (case parse_sock bind of
        Some a \<Rightarrow> Inr (BindSocket a)
      | None \<Rightarrow>
          (case parse_ip bind of
             Some ip \<Rightarrow> Inr (BindIp ip)
           | None \<Rightarrow>
               if starts_with ''['' bind \<and> ends_with '']'' bind
               then (case parse_ip (take (length bind - 2) (drop 1 bind)) of
                       Some ip \<Rightarrow> Inr (BindIp ip)
                     | None \<Rightarrow> Inl (BadBindAddr bind))
               else Inl (BadBindAddr bind)))"

section \<open>What is printed is read back\<close>

lemma to_digit_char: "d < 10 \<Longrightarrow> to_digit 10 (digit_char d) = Some d"
  by (simp add: to_digit.simps digit_char_def)

lemma show_nat_radix: "list_all (is_digit_of 10) (show_nat n) \<and> radix_value 10 (show_nat n) = n"
proof (induction n rule: show_nat.induct)
  case (1 n)
  then show ?case
    by (subst (1 2) show_nat.simps) (auto simp: is_digit_of_def [abs_def] radix_value_def to_digit_char)
qed

lemma show_nat_head: "hd (show_nat n) = CHR ''0'' \<Longrightarrow> n = 0"
proof (induction n rule: show_nat.induct)
  case (1 n)
  show ?case
  proof (cases "n < 10")
    case True
    have "digit_char 0 = CHR ''0''"
      using char_of_char [of "CHR ''0''", where 'a = nat] by (simp add: digit_char_def)
    with True 1(2) have "to_digit 10 (digit_char n) = to_digit 10 (digit_char 0)" by (simp only: show_nat.simps [of n] if_True list.sel)
    with True show ?thesis by (simp add: to_digit_char)
  next
    case False
    then have "hd (show_nat n) = hd (show_nat (n div 10))"
      using show_nat_not_Nil [of "n div 10"] by (simp add: show_nat.simps [of n])
    with False 1 have "n div 10 = 0" by simp
    with False show ?thesis by simp
  qed
qed

lemma length_show_nat: "n < 10 ^ Suc k \<Longrightarrow> length (show_nat n) \<le> Suc k"
proof (induction k arbitrary: n)
  case 0
  then show ?case by (simp add: show_nat.simps [of n])
next
  case (Suc k)
  then have "n div 10 < 10 ^ Suc k" by (simp add: div_less_iff_less_mult)
  with Suc.IH [of "n div 10"] show ?case by (simp add: show_nat.simps [of n])
qed

definition ends_number :: "string \<Rightarrow> bool" where
  "ends_number s \<longleftrightarrow> s = [] \<or> \<not> is_digit_of 10 (hd s)"

lemma take_digits: "ends_number rest \<Longrightarrow> takeWhile (is_digit_of 10) (show_nat n @ rest) = show_nat n"
  using show_nat_radix [of n]
  by (cases rest) (simp_all add: ends_number_def list_all_iff takeWhile_eq_all_conv [THEN iffD2] takeWhile_append)

lemma read_number_show:
  assumes "n < bound" and "ends_number rest"
    and "case m of Some k \<Rightarrow> length (show_nat n) \<le> k | None \<Rightarrow> True"
  shows "read_number 10 m z bound (show_nat n @ rest) = Some (n, rest)"
proof -
  have "hd (show_nat n) = CHR ''0'' \<Longrightarrow> length (show_nat n) = 1"
    using show_nat_head [of n] by (auto simp: show_nat.simps [of 0])
  with assms show ?thesis
    by (auto simp: read_number_def Let_def take_digits show_nat_radix show_nat_not_Nil split: option.splits)
qed

lemma read_octet_show:
  assumes "n < 256" and "ends_number rest"
  shows "read_octet 0 (show_nat n @ rest) = Some (n, rest)"
    and "0 < i \<Longrightarrow> read_octet i (CHR ''.'' # show_nat n @ rest) = Some (n, rest)"
  using read_number_show [of n 256 rest "Some 3"] assms length_show_nat [of n 2]
  by (simp_all add: read_octet_def read_separator_def)

lemma ipv4_of_octets: "ipv4_of (ipv4_octet 0 a) (ipv4_octet 1 a) (ipv4_octet 2 a) (ipv4_octet 3 a) = a"
proof -
  define x where "x = unat a"
  have "x < 2 ^ LENGTH(32)" unfolding x_def by (rule unsigned_less)
  then have n: "x div 256 div 256 div 256 mod 256 = x div 256 div 256 div 256" by (simp flip: div_mult2_eq)
  have "x div 256 ^ 3 = x div 256 div 256 div 256" "x div 256 ^ 2 = x div 256 div 256"
    by (simp_all only: power3_eq_cube power2_eq_square div_mult2_eq)
  then have "ipv4_octet 0 a = x div 256 div 256 div 256" "ipv4_octet 1 a = x div 256 div 256 mod 256"
    "ipv4_octet 2 a = x div 256 mod 256" "ipv4_octet 3 a = x mod 256"
    using n by (simp_all add: ipv4_octet_def x_def)
  then have "((ipv4_octet 0 a * 256 + ipv4_octet 1 a) * 256 + ipv4_octet 2 a) * 256 + ipv4_octet 3 a
      = ((x div 256 div 256 div 256 * 256 + x div 256 div 256 mod 256) * 256 + x div 256 mod 256) * 256 + x mod 256"
    by (simp only:)
  also have "\<dots> = x" by (simp only: div_mult_mod_eq)
  finally show ?thesis by (simp only: ipv4_of_def x_def) simp
qed

lemma read_ipv4_show:
  assumes "ends_number rest"
  shows "read_ipv4 (show_ipv4 a @ rest) = Some (a, rest)"
proof -
  have lt: "ipv4_octet i a < 256" for i by (simp add: ipv4_octet_def)
  have dot: "ends_number (CHR ''.'' # s)" for s by (simp add: ends_number_def is_digit_of_def to_digit.simps)
  show ?thesis
    using assms by (simp add: read_ipv4_def show_ipv4_def read_octet_show(1) [OF lt dot] read_octet_show(2) [OF lt dot]
        read_octet_show(2) [OF lt assms] ipv4_of_octets [simplified])
qed

lemma read_ip_show: "parse_ip (show_ipv4 a) = Some (IpV4 a)"
  using read_ipv4_show [of "[]" a]
  by (simp add: ends_number_def parse_ip_def parse_with_def read_ip_def or_read_def map_read_def)

lemma bracket_not_octet: "read_ipv4 (CHR ''['' # s) = None"
  by (simp add: read_ipv4_def read_octet_def read_separator_def read_number_def is_digit_of_def to_digit.simps)

lemma show_ipv4_head: "show_ipv4 a \<noteq> [] \<and> hd (show_ipv4 a) \<noteq> CHR ''[''"
  using read_ipv4_show [of "[]" a] bracket_not_octet
  by (cases "show_ipv4 a") (auto simp: ends_number_def read_ipv4_def read_octet_def read_separator_def read_number_def)

lemma parse_sock_show:
  "parse_sock (show_ipv4 a @ CHR '':'' # show_nat (unat p)) = Some (SockV4 a p)" "parse_sock (show_ipv4 a) = None"
proof -
  have colon: "ends_number (CHR '':'' # s)" for s by (simp add: ends_number_def is_digit_of_def to_digit.simps)
  have "unat p < 2 ^ LENGTH(16)" by (rule unsigned_less)
  then have "read_port (CHR '':'' # show_nat (unat p)) = Some (p, [])"
    using read_number_show [of "unat p" 65536 "[]" None] by (simp add: read_port_def map_read_def ends_number_def)
  then show "parse_sock (show_ipv4 a @ CHR '':'' # show_nat (unat p)) = Some (SockV4 a p)"
    using read_ipv4_show [OF colon, of a "show_nat (unat p)"]
    by (simp add: parse_sock_def parse_with_def or_read_def read_sock_v4_def map_read_def)
  have "read_sock_v6 (show_ipv4 a) = None"
    using show_ipv4_head [of a] by (cases "show_ipv4 a") (simp_all add: read_sock_v6_def)
  then show "parse_sock (show_ipv4 a) = None"
    using read_ipv4_show [of "[]" a]
    by (simp add: ends_number_def parse_sock_def parse_with_def or_read_def read_sock_v4_def map_read_def read_port_def)
qed

end
