(* ===== verification/Daemon_Init.thy ===== *)
theory Daemon_Init
  imports Daemon_Loop Addr_Parse
begin

text \<open>
  \<open>init_network\<close> in \<open>src/net/mod.rs\<close>: from the arguments and the database to the first \<open>Context\<close>.
  A step takes the database and returns it with a result, so a failed start says what it left on
  disk. The parts: the checks of the arguments (\<open>DaemonArgs::validate\<close>), the identity, the relay
  mode, the sockets to bind with their fallbacks, the wait for an address, the network ticket, the
  first two tables, and the attempts to join. The iroh crates are the fields of \<open>net_lib\<close>; what a
  start reads from the world, random draws included, is \<open>start_env\<close>.
\<close>

section \<open>Steps of a start\<close>

datatype start_error =
    StartStorage storage_error | StartTicket ticket_error | StartBind bind_error
  | StartIface iface_error | BadRelayUrl string | AliasTooLong | BindAndInterface | HostsPathIsDir
  | StartHosts task_failure | DhtNotBuilt | BindFailed | NoNetworkConfig | SubscribeFailed | JoinFailed | StartPanic

type_synonym 'a start = "storage \<Rightarrow> storage \<times> (start_error, 'a) result"

definition start_return :: "'a \<Rightarrow> 'a start" where
  "start_return x st = (st, Inr x)"

definition start_fail :: "start_error \<Rightarrow> 'a start" where
  "start_fail e st = (st, Inl e)"

definition start_bind :: "'a start \<Rightarrow> ('a \<Rightarrow> 'b start) \<Rightarrow> 'b start" where
  "start_bind p f st = (case p st of (st', Inl e) \<Rightarrow> (st', Inl e) | (st', Inr x) \<Rightarrow> f x st')"

definition start_check :: "('e \<Rightarrow> start_error) \<Rightarrow> ('e, 'a) result \<Rightarrow> 'a start" where
  "start_check g r = (case r of Inl e \<Rightarrow> start_fail (g e) | Inr x \<Rightarrow> start_return x)"

text \<open>A call that reads the database, and one that writes it.\<close>

definition reading :: "(storage \<Rightarrow> (storage_error, 'a) result) \<Rightarrow> 'a start" where
  "reading f st = start_check StartStorage (f st) st"

definition writing :: "(storage \<Rightarrow> storage \<times> (storage_error, unit) result) \<Rightarrow> unit start" where
  "writing f st = (let (st', r) = f st in start_check StartStorage r st')"

section \<open>What a start uses\<close>

record net_lib =
  nl_relay_url :: "string \<Rightarrow> string option"
  nl_user_data_max :: nat
  nl_dht_built :: bool
  nl_enc_port :: "u16 \<Rightarrow> bytes option"
  nl_dec_port :: "bytes \<Rightarrow> u16 option"
  nl_enc_topic :: "topic_id \<Rightarrow> bytes option"
  nl_dec_topic :: "bytes \<Rightarrow> topic_id option"
  nl_enc_rnum :: "bytes \<Rightarrow> bytes option"
  nl_dec_rnum :: "bytes \<Rightarrow> bytes option"

datatype start_call =
    ClearCall | LoadSecretCall | SaveSecretCall | LoadPortCall | SavePortCall
  | LoadTopicCall | LoadRnumCall | SaveTopicCall | SaveRnumCall | LoadNodesCall

text \<open>
  \<open>sn_bind\<close> is \<open>Builder::bind\<close> of iroh: asked for a pair of sockets (a family may be left unset), it fails or
  builds an endpoint that listens on the sockets it returns, which need not be the ones asked for.
  \<open>sn_polls\<close> is what the endpoint reports as its address at each poll, \<open>sn_naps\<close> how many milliseconds pass before the first check and in each sleep,
  \<open>sn_joins\<close> which attempts to join succeed.
\<close>

record start_env =
  sn_db :: "start_call \<Rightarrow> faults"
  sn_env :: env
  sn_fs :: fs
  sn_random_domain :: string
  sn_random_secret :: secret_key
  sn_random_port :: u16
  sn_random_topic :: topic_id
  sn_random_rnum :: bytes
  sn_bind :: "socket_addr option \<Rightarrow> socket_addr option \<Rightarrow> socket_addr list option"
  sn_polls :: "nat \<Rightarrow> endpoint_addr"
  sn_naps :: "nat \<Rightarrow> nat"
  sn_subscribes :: bool
  sn_joins :: "u8 \<Rightarrow> bool"

section \<open>Checking the arguments\<close>

fun first_bad_url :: "net_lib \<Rightarrow> string list \<Rightarrow> (start_error, unit) result" where
  "first_bad_url N [] = Inr ()"
| "first_bad_url N (u # us) =
     (case nl_relay_url N u of None \<Rightarrow> Inl (BadRelayUrl u) | Some r \<Rightarrow> first_bad_url N us)"

definition map_err :: "('e \<Rightarrow> 'f) \<Rightarrow> ('e, 'a) result \<Rightarrow> ('f, 'a) result" where
  "map_err g r = (case r of Inl e \<Rightarrow> Inl (g e) | Inr x \<Rightarrow> Inr x)"

text \<open>\<open>if let Some(x) = value { let _ = parse(x)?; }\<close>\<close>

definition check_some :: "'b option \<Rightarrow> ('b \<Rightarrow> ('e, 'a) result) \<Rightarrow> ('e \<Rightarrow> start_error) \<Rightarrow> (start_error, unit) result" where
  "check_some v parse g =
     (case v of None \<Rightarrow> Inr () | Some x \<Rightarrow> res_bind (map_err g (parse x)) (\<lambda>y. Inr ()))"

definition validate :: "net_lib \<Rightarrow> iface list \<Rightarrow> fs \<Rightarrow> daemon_args \<Rightarrow> (start_error, unit) result" where
  "validate N ifaces d a =
     (if (case arg_domain a of Some s \<Rightarrow> nl_user_data_max N \<le> length s | None \<Rightarrow> False) then Inl AliasTooLong
      else
        res_bind (check_some (arg_bind a) parse_bind_target StartBind) (\<lambda>u.
        res_bind (check_some (arg_bind_interface a) (lookup_interface_addrs ifaces) StartIface) (\<lambda>u.
          if arg_bind a \<noteq> None \<and> arg_bind_interface a \<noteq> None then Inl BindAndInterface
          else
            res_bind (check_some (arg_admin_http a) parse_bind_addr StartBind) (\<lambda>u.
              if (case arg_hosts_path a of Some p \<Rightarrow> fs_is_dir d (path_of p) | None \<Rightarrow> False) then Inl HostsPathIsDir
              else first_bad_url N (arg_relay_url a)))))"

section \<open>Identity and relay mode\<close>

text \<open>A key that cannot be saved is only logged.\<close>

definition load_identity :: "store_lib \<Rightarrow> start_env \<Rightarrow> (endpoint_id \<times> secret_key) start" where
  "load_identity L V =
     start_bind (reading (load_secret L (sn_db V LoadSecretCall))) (\<lambda>found.
       case found of
         Some ks \<Rightarrow> start_return ks
       | None \<Rightarrow> (\<lambda>st.
           let (st', r) = save_secret L (sn_db V SaveSecretCall) st (sn_random_secret V)
           in (st', Inr (sk_public L (sn_random_secret V), sn_random_secret V))))"

datatype relay_mode = RmDisabled | RmDefault | RmStaging | RmCustom "string list"

fun parse_urls :: "net_lib \<Rightarrow> string list \<Rightarrow> (start_error, string list) result" where
  "parse_urls N [] = Inr []"
| "parse_urls N (u # us) =
     (case nl_relay_url N u of
        None \<Rightarrow> Inl (BadRelayUrl u)
      | Some r \<Rightarrow> res_bind (parse_urls N us) (\<lambda>rs. Inr (r # rs)))"

definition relay_mode_of :: "net_lib \<Rightarrow> daemon_args \<Rightarrow> (start_error, relay_mode) result" where
  "relay_mode_of N a =
     (if arg_relay_url a \<noteq> [] then res_bind (parse_urls N (arg_relay_url a)) (\<lambda>us. Inr (RmCustom us))
      else (case arg_relay_mode a of
              RelayDisabled \<Rightarrow> Inr RmDisabled | RelayDefault \<Rightarrow> Inr RmDefault | RelayStaging \<Rightarrow> Inr RmStaging))"

section \<open>Sockets to bind\<close>

definition load_or_assign_bind_port :: "net_lib \<Rightarrow> start_env \<Rightarrow> u16 start" where
  "load_or_assign_bind_port N V =
     start_bind (reading (\<lambda>st. load_config (nl_dec_port N) (sn_db V LoadPortCall) st ''bind_port'')) (\<lambda>found.
       case found of
         Some port \<Rightarrow> start_return port
       | None \<Rightarrow>
           start_bind (writing (\<lambda>st. save_config_trival (nl_enc_port N) (sn_db V SavePortCall) st ''bind_port'' (sn_random_port V)))
             (\<lambda>u. start_return (sn_random_port V)))"

record bind_plan =
  bp_v4 :: "socket_addr option"
  bp_v6 :: "socket_addr option"
  bp_prefer_v6 :: bool

text \<open>A loopback or unspecified address of one family brings its counterpart of the other.\<close>

definition twin_v6 :: "u32 \<Rightarrow> u16 \<Rightarrow> socket_addr option" where
  "twin_v6 a port =
     (if is_loopback (IpV4 a) then Some (SockV6 1 port 0 0)
      else if is_unspecified (IpV4 a) then Some (SockV6 0 port 0 0) else None)"

definition twin_v4 :: "u128 \<Rightarrow> u16 \<Rightarrow> socket_addr option" where
  "twin_v4 a port =
     (if is_loopback (IpV6 a) then Some (SockV4 0x7F000001 port)
      else if is_unspecified (IpV6 a) then Some (SockV4 0 port) else None)"

fun plan_socket :: "socket_addr \<Rightarrow> bind_plan" where
  "plan_socket (SockV4 a p) = \<lparr>bp_v4 = Some (SockV4 a p), bp_v6 = twin_v6 a p, bp_prefer_v6 = False\<rparr>"
| "plan_socket (SockV6 a p f s) = \<lparr>bp_v4 = twin_v4 a p, bp_v6 = Some (SockV6 a p f s), bp_prefer_v6 = True\<rparr>"

fun plan_ip :: "ip_addr \<Rightarrow> u16 \<Rightarrow> bind_plan" where
  "plan_ip (IpV4 a) port = \<lparr>bp_v4 = Some (SockV4 a port), bp_v6 = twin_v6 a port, bp_prefer_v6 = False\<rparr>"
| "plan_ip (IpV6 a) port = \<lparr>bp_v4 = twin_v4 a port, bp_v6 = Some (SockV6 a port 0 0), bp_prefer_v6 = True\<rparr>"

definition plan_interface :: "interface_addrs \<Rightarrow> u16 \<Rightarrow> bind_plan" where
  "plan_interface addrs port =
     (let v4 = (case ia_v4 addrs of [] \<Rightarrow> None | a # as \<Rightarrow> Some (SockV4 a port));
          v6 = (case ia_v6 addrs of [] \<Rightarrow> None | (a, scope) # as \<Rightarrow> Some (SockV6 a port 0 scope))
      in \<lparr>bp_v4 = v4, bp_v6 = v6, bp_prefer_v6 = (v4 = None \<and> v6 \<noteq> None)\<rparr>)"

definition plan_any :: "u16 \<Rightarrow> bind_plan" where
  "plan_any port = \<lparr>bp_v4 = Some (SockV4 0 port), bp_v6 = Some (SockV6 0 port 0 0), bp_prefer_v6 = True\<rparr>"

definition bind_targets :: "net_lib \<Rightarrow> start_env \<Rightarrow> daemon_args \<Rightarrow> bind_plan start" where
  "bind_targets N V a =
     (case arg_bind a of
        Some bind \<Rightarrow>
          start_bind (start_check StartBind (parse_bind_target bind)) (\<lambda>target.
            case target of
              BindSocket s \<Rightarrow> start_return (plan_socket s)
            | BindIp ip \<Rightarrow>
                start_bind (load_or_assign_bind_port N V) (\<lambda>port. start_return (plan_ip ip port)))
      | None \<Rightarrow>
          (case arg_bind_interface a of
             Some interface \<Rightarrow>
               start_bind (load_or_assign_bind_port N V) (\<lambda>port.
               start_bind (start_check StartIface (lookup_interface_addrs (env_ifaces (sn_env V)) interface)) (\<lambda>addrs.
                 start_return (plan_interface addrs port)))
           | None \<Rightarrow> start_bind (load_or_assign_bind_port N V) (\<lambda>port. start_return (plan_any port))))"

definition bind_endpoint ::
    "net_lib \<Rightarrow> start_env \<Rightarrow> daemon_args \<Rightarrow> socket_addr option \<times> socket_addr option \<Rightarrow>
       (start_error, socket_addr list) result" where
  "bind_endpoint N V a pair =
     (if arg_dht a \<and> \<not> nl_dht_built N then Inl DhtNotBuilt
      else case sn_bind V (fst pair) (snd pair) of None \<Rightarrow> Inl BindFailed | Some sockets \<Rightarrow> Inr sockets)"

text \<open>Both sockets, else the preferred one alone, else the other one alone.\<close>

definition bind_with_fallback ::
    "net_lib \<Rightarrow> start_env \<Rightarrow> daemon_args \<Rightarrow> bind_plan \<Rightarrow> (start_error, socket_addr list) result" where
  "bind_with_fallback N V a plan =
     (case bind_endpoint N V a (bp_v4 plan, bp_v6 plan) of
        Inr e \<Rightarrow> Inr e
      | Inl primary_err \<Rightarrow>
          if bp_v4 plan \<noteq> None \<and> bp_v6 plan \<noteq> None
          then
            let first = (if bp_prefer_v6 plan then (None, bp_v6 plan) else (bp_v4 plan, None));
                second = (if bp_prefer_v6 plan then (bp_v4 plan, None) else (None, bp_v6 plan))
            in case bind_endpoint N V a first of
                 Inr e \<Rightarrow> Inr e
               | Inl e1 \<Rightarrow> (case bind_endpoint N V a second of Inr e \<Rightarrow> Inr e | Inl e2 \<Rightarrow> Inl BindFailed)
          else Inl primary_err)"

section \<open>Waiting for an address\<close>

text \<open>A poll every 20 ms or later until there is an IP address or a second has passed.\<close>

function wait_for_non_empty_addr :: "(nat \<Rightarrow> endpoint_addr) \<Rightarrow> (nat \<Rightarrow> nat) \<Rightarrow> nat \<Rightarrow> nat \<Rightarrow> endpoint_addr" where
  "wait_for_non_empty_addr polls naps i elapsed =
     (if ip_addrs (polls i) \<noteq> [] then polls i
      else if 1000 \<le> elapsed then polls i
      else wait_for_non_empty_addr polls naps (Suc i) (elapsed + max 20 (naps (Suc i))))"
  by pat_completeness auto
termination
  by (relation "measure (\<lambda>(polls, naps, i, elapsed). 1000 - elapsed)") auto

declare wait_for_non_empty_addr.simps [simp del]

section \<open>The network ticket\<close>

definition save_network :: "net_lib \<Rightarrow> start_env \<Rightarrow> ticket \<Rightarrow> ticket start" where
  "save_network N V t =
     (let (topic, rnum, n) = ticket_flatten t
      in start_bind (writing (\<lambda>st. save_config_trival (nl_enc_topic N) (sn_db V SaveTopicCall) st ''topic'' topic)) (\<lambda>u.
         start_bind (writing (\<lambda>st. save_config (nl_enc_rnum N) (sn_db V SaveRnumCall) st ''ticket_rnum'' rnum)) (\<lambda>u.
           start_return t)))"

definition load_network :: "net_lib \<Rightarrow> start_env \<Rightarrow> (topic_id option \<times> bytes option) start" where
  "load_network N V =
     start_bind (reading (\<lambda>st. load_config (nl_dec_topic N) (sn_db V LoadTopicCall) st ''topic'')) (\<lambda>topic.
     start_bind (reading (\<lambda>st. load_config (nl_dec_rnum N) (sn_db V LoadRnumCall) st ''ticket_rnum'')) (\<lambda>rnum.
       start_return (topic, rnum)))"

definition network_ticket :: "net_lib \<Rightarrow> start_env \<Rightarrow> daemon_args \<Rightarrow> ticket option \<Rightarrow> node \<Rightarrow> ticket start" where
  "network_ticket N V a given me =
     (if arg_primary a then
        start_bind (load_network N V) (\<lambda>found.
          case found of
            (Some topic, Some rnum) \<Rightarrow> start_return (ticket_from_parts topic rnum me)
          | _ \<Rightarrow> save_network N V (ticket_new (sn_random_rnum V) (sn_random_topic V) None me))
      else
        (case given of
           Some t \<Rightarrow> save_network N V t
         | None \<Rightarrow>
             start_bind (load_network N V) (\<lambda>found.
               case found of
                 (Some topic, Some rnum) \<Rightarrow> start_return (ticket_from_parts topic rnum me)
               | _ \<Rightarrow> start_fail NoNetworkConfig)))"

section \<open>The first tables\<close>

definition peers_of :: "endpoint_id \<Rightarrow> node list \<Rightarrow> endpoint_id \<rightharpoonup> node" where
  "peers_of pk persisted =
     fold (\<lambda>n m. m(node_id n \<mapsto> n)) (filter (\<lambda>n. is_daemon_node n \<and> node_id n \<noteq> pk) persisted) Map.empty"

definition insert_invitor_trusted :: "endpoint_id \<Rightarrow> node option \<Rightarrow> (endpoint_id \<rightharpoonup> node) \<Rightarrow> (endpoint_id \<rightharpoonup> node)" where
  "insert_invitor_trusted pk invitor_node trusted =
     (case invitor_node of
        Some n \<Rightarrow> if is_daemon_node n \<and> node_id n \<noteq> pk then trusted(node_id n \<mapsto> n) else trusted
      | None \<Rightarrow> trusted)"

definition insert_invitor_bootstrap :: "node option \<Rightarrow> (endpoint_id \<rightharpoonup> node) \<Rightarrow> (endpoint_id \<rightharpoonup> node)" where
  "insert_invitor_bootstrap invitor_node bootstrap =
     (case invitor_node of Some n \<Rightarrow> bootstrap(node_id n \<mapsto> n) | None \<Rightarrow> bootstrap)"

definition static_entries :: "env \<Rightarrow> (endpoint_id \<rightharpoonup> node) \<Rightarrow> node option \<Rightarrow> effect list" where
  "static_entries E bootstrap invitor_node =
     map (\<lambda>e. StaticAdd (node_addr (snd e))) (filter (\<lambda>e. \<not> ea_is_empty (node_addr (snd e))) (iter_nodes E bootstrap))
     @ (case invitor_node of
          Some n \<Rightarrow> if ea_is_empty (node_addr n) then [] else [StaticSet (node_addr n)]
        | None \<Rightarrow> [])"

section \<open>Joining\<close>

function join_loop :: "(u8 \<Rightarrow> bool) \<Rightarrow> u8 \<Rightarrow> (start_error, u8) result" where
  "join_loop joins retry =
     (if 5 < retry then Inl JoinFailed
      else if joins retry then Inr retry
      else join_loop joins (retry + 1))"
  by pat_completeness auto
termination
proof (relation "measure (\<lambda>(joins, retry). 6 - unat retry)")
  fix joins :: "u8 \<Rightarrow> bool" and retry :: u8 assume "\<not> 5 < retry"
  then have "unat retry \<le> 5" by (simp add: word_less_nat_alt)
  moreover from this have "unat (retry + 1) = unat retry + 1" by (simp add: unat_word_ariths)
  ultimately show "((joins, retry + 1), joins, retry) \<in> measure (\<lambda>(joins, retry). 6 - unat retry)" by simp
qed simp

declare join_loop.simps [simp del]

definition join_network :: "start_env \<Rightarrow> daemon_args \<Rightarrow> (start_error, unit) result" where
  "join_network V a =
     (if arg_primary a then (if sn_subscribes V then Inr () else Inl SubscribeFailed)
      else res_bind (join_loop (sn_joins V) 1) (\<lambda>r. Inr ()))"

section \<open>The start\<close>

definition own_node :: "start_env \<Rightarrow> daemon_args \<Rightarrow> endpoint_id \<Rightarrow> endpoint_id option \<Rightarrow> string \<Rightarrow> node" where
  "own_node V a pk invitor domain =
     \<lparr>node_id = pk, node_invitor = (case invitor of Some i \<Rightarrow> i | None \<Rightarrow> pk),
      node_addr = advertised_endpoint_addr (env_ifaces (sn_env V))
                    (wait_for_non_empty_addr (sn_polls V) (sn_naps V) 0 (sn_naps V 0)) a,
      node_domain = domain, node_services = [], last_heartbeat = clock (sn_env V) 0\<rparr>"

definition initial_context ::
    "start_env \<Rightarrow> daemon_args \<Rightarrow> node \<Rightarrow> ticket \<Rightarrow> node list \<Rightarrow> node option \<Rightarrow> storage \<Rightarrow> ctx" where
  "initial_context V a me t persisted invitor_node st =
     \<lparr>cx_me = me,
      cx_nodes = insert_invitor_bootstrap invitor_node (peers_of (node_id me) persisted),
      cx_trusted = insert_invitor_trusted (node_id me) invitor_node (peers_of (node_id me) persisted),
      cx_ticket = t, cx_args = a, cx_storage = st, cx_started_at = clock (sn_env V) 1,
      cx_join_announced = False, cx_paused = False,
      cx_hosts_sync =
        \<lparr>hs_enabled = arg_hosts_sync a, hs_path = hosts_sync_path (sn_fs V) a,
         hs_cleanup_on_shutdown = arg_hosts_sync a,
         hs_last_success = None, hs_last_cleanup = None, hs_last_error = None\<rparr>,
      cx_effects = static_entries (sn_env V) (peers_of (node_id me) persisted) invitor_node\<rparr>"

definition init_network :: "net_lib \<Rightarrow> store_lib \<Rightarrow> ticket_lib \<Rightarrow> start_env \<Rightarrow> daemon_args \<Rightarrow> ctx start" where
  "init_network N L T V a =
     start_bind (if arg_reset_storage a then writing (clear_storage (sn_db V ClearCall)) else start_return ()) (\<lambda>u.
     let domain = (case arg_domain a of Some d \<Rightarrow> d | None \<Rightarrow> sn_random_domain V) in
     start_bind (load_identity L V) (\<lambda>(pk, sk).
     start_bind (case arg_ticket a of
                   Some s \<Rightarrow> start_bind (start_check StartTicket (ticket_from_str T s)) (\<lambda>t. start_return (Some t))
                 | None \<Rightarrow> start_return None) (\<lambda>given.
     let invitor_node = map_option t_invitor given; invitor = map_option node_id invitor_node in
     start_bind (start_check id (relay_mode_of N a)) (\<lambda>relay.
     start_bind (bind_targets N V a) (\<lambda>plan.
     start_bind (start_check id (bind_with_fallback N V a plan)) (\<lambda>sockets.
     let me = own_node V a pk invitor domain in
     start_bind (network_ticket N V a given me) (\<lambda>t.
     start_bind (reading (load_nodes L (sn_db V LoadNodesCall))) (\<lambda>persisted.
     start_bind (start_check id (join_network V a)) (\<lambda>joined.
     if (case arg_domain a of Some d \<Rightarrow> nl_user_data_max N < length d | None \<Rightarrow> False) then start_fail StartPanic
     else (\<lambda>st.
       let c = initial_context V a me t persisted invitor_node st
       in (st, Inr (if arg_daemon a \<and> \<not> arg_primary a then announce_join (later (later (sn_env V))) c else c))))))))))))"

end
