(* ===== verification/Client_App.thy ===== *)
theory Client_App
  imports Cli_Output Admin_Http Daemon_Init
begin

text \<open>
  The rest of the command line program: where the database and the admin socket are
  (\<open>src/cli/paths.rs\<close>, the candidates of \<open>src/admin/server.rs\<close>), and \<open>run_client\<close> in \<open>src/app.rs\<close>:
  the ticket, the key of the client, the dialogue with the daemon and what is printed. Paths are
  strings, on Unix.
\<close>

section \<open>The database path\<close>

text \<open>What the directory calls of \<open>default_config_path\<close> answer.\<close>

record path_world =
  pw_home :: "string option"
  pw_exists :: "string \<Rightarrow> bool"
  pw_remove_dir :: "string \<Rightarrow> bool"
  pw_create_dirs :: "string \<Rightarrow> bool"

definition privileged_path :: string where "privileged_path = ''/etc/p2p-ddns''"

definition default_config_path :: "path_world \<Rightarrow> daemon_args \<Rightarrow> string" where
  "default_config_path P a =
     (case arg_config a of
        Some p \<Rightarrow> p
      | None \<Rightarrow>
          let home = (case pw_home P of Some h \<Rightarrow> h | None \<Rightarrow> ''.'');
              normal_path = join_path (join_path home ''.config'') ''p2p-ddns''
          in if arg_daemon a
             then let test_file = join_path privileged_path ''test''
                  in if pw_exists P test_file
                     then (if pw_remove_dir P test_file then privileged_path else normal_path)
                     else (if pw_create_dirs P test_file then privileged_path else normal_path)
             else normal_path)"

text \<open>\<open>Path::extension\<close>: what follows the last dot of the file name, if something precedes it.\<close>

definition path_extension :: "string \<Rightarrow> string option" where
  "path_extension p =
     (case path_file_name (path_of p) of
        None \<Rightarrow> None
      | Some f \<Rightarrow>
          let after = rev (takeWhile (\<lambda>c. c \<noteq> CHR ''.'') (rev f)); before = take (length f - length after) f
          in if length before \<le> 1 then None else Some after)"

definition storage_db_path :: "path_world \<Rightarrow> daemon_args \<Rightarrow> string" where
  "storage_db_path P a =
     (let config_path = (case arg_config a of Some p \<Rightarrow> p | None \<Rightarrow> default_config_path P a)
      in if (case path_extension config_path of Some ext \<Rightarrow> to_ascii_lowercase ext = ''db'' | None \<Rightarrow> False)
         then config_path else join_path config_path ''storage.db'')"

section \<open>Binding the admin socket\<close>

text \<open>The state is which paths exist; the calls that fail are arguments.\<close>

type_synonym paths = "path \<Rightarrow> bool"

record socket_world =
  sw_remove :: "path \<Rightarrow> bool"
  sw_create_dirs :: "path \<Rightarrow> bool"
  sw_bind :: "path \<Rightarrow> bool"

datatype socket_error = CreateDirFailed path | BindSocketFailed path

definition try_bind_management_socket :: "socket_world \<Rightarrow> string \<Rightarrow> paths \<Rightarrow> paths \<times> (socket_error, unit) result" where
  "try_bind_management_socket W socket_path ex =
     (let p = path_of socket_path;
          ex = (if ex p \<and> sw_remove W p then ex(p := False) else ex)
      in if (case path_parent p of Some parent \<Rightarrow> \<not> sw_create_dirs W parent | None \<Rightarrow> False)
         then (ex, Inl (CreateDirFailed p))
         else if ex p \<or> \<not> sw_bind W p then (ex, Inl (BindSocketFailed p))
         else (ex(p := True), Inr ()))"

text \<open>The first candidate that can be bound, if any.\<close>

fun run_management_server :: "socket_world \<Rightarrow> string list \<Rightarrow> paths \<Rightarrow> paths \<times> string option" where
  "run_management_server W [] ex = (ex, None)"
| "run_management_server W (p # ps) ex =
     (case try_bind_management_socket W p ex of
        (ex', Inr u) \<Rightarrow> (ex', Some p)
      | (ex', Inl e) \<Rightarrow> run_management_server W ps ex')"

section \<open>The client's ticket and key\<close>

datatype ticket_file = NoTicketFile | UnreadableTicketFile | TicketFile string

record client_world =
  cw_cli_args :: "string option"
  cw_ticket :: "string option"
  cw_config_dir :: "string option"
  cw_ticket_file :: ticket_file
  cw_opens :: bool
  cw_db :: "start_call \<Rightarrow> faults"
  cw_random_secret :: secret_key
  cw_writes_ticket :: bool
  cw_stats_ticket :: bool
  cw_paths :: path_env
  cw_exists :: "string \<Rightarrow> bool"
  cw_now :: u64

datatype client_error = NoTicket | TicketFileError | StorageOpenFailed | ClientStorage storage_error
  | ClientBind bind_error | Dialogue client_failure

definition get_client_config_path :: "client_world \<Rightarrow> string" where
  "get_client_config_path W = join_path (case cw_config_dir W of Some d \<Rightarrow> d | None \<Rightarrow> ''.'') ''p2p-ddns''"

text \<open>The argument after the first \<open>--ticket\<close> or \<open>-t\<close> that has one.\<close>

fun ticket_argument :: "string list \<Rightarrow> string option" where
  "ticket_argument (x # y # xs) =
     (if x = ''--ticket'' \<or> x = ''-t'' then Some y else ticket_argument (y # xs))"
| "ticket_argument xs = None"

definition get_ticket :: "client_world \<Rightarrow> (client_error, string) result" where
  "get_ticket W =
     (case Option.bind (cw_cli_args W) (\<lambda>s. ticket_argument (split_whitespace s)) of
        Some t \<Rightarrow> Inr t
      | None \<Rightarrow>
          (case cw_ticket W of
             Some t \<Rightarrow> Inr t
           | None \<Rightarrow>
               (case cw_ticket_file W of
                  TicketFile s \<Rightarrow> Inr (trim s)
                | UnreadableTicketFile \<Rightarrow> Inl TicketFileError
                | NoTicketFile \<Rightarrow> Inl NoTicket)))"

definition build_auth_request ::
    "admin_lib \<Rightarrow> client_world \<Rightarrow> string option \<Rightarrow> storage \<Rightarrow> storage \<times> (client_error, auth_request) result" where
  "build_auth_request A W given st =
     (if \<not> cw_opens W then (st, Inl StorageOpenFailed)
      else
        case load_secret (al_store A) (cw_db W LoadSecretCall) st of
          Inl e \<Rightarrow> (st, Inl (ClientStorage e))
        | Inr found \<Rightarrow>
            let (st, pk) = (case found of
                              Some (pk, sk) \<Rightarrow> (st, pk)
                            | None \<Rightarrow>
                                (fst (save_secret (al_store A) (cw_db W SaveSecretCall) st (cw_random_secret W)),
                                 sk_public (al_store A) (cw_random_secret W)))
            in (st, Inr \<lparr>ar_ticket = (case given of Some t \<Rightarrow> t | None \<Rightarrow> []),
                         ar_client_public_key = Some (key_b64_encode A (key_as_bytes A pk)),
                         ar_client_name = Some ''cli''\<rparr>))"

section \<open>Showing the response\<close>

datatype file_effect = WriteFile string string | SetMode string nat

text \<open>What is printed, what is written, and the exit code when the process exits here.\<close>

definition display_response ::
    "output_lib \<Rightarrow> terminal \<Rightarrow> client_world \<Rightarrow> client_response \<Rightarrow> bool \<Rightarrow> printed list \<times> file_effect list \<times> nat option" where
  "display_response X t W response json =
     (case response of
        Nodes nodes \<Rightarrow> (if json then display_nodes_json X nodes else display_nodes X t (cw_now W) nodes, [], None)
      | StatusIs status \<Rightarrow> (if json then display_status_json X status else display_status t status, [], None)
      | TicketIs ticket \<Rightarrow>
          let shown = (if json then display_ticket_json X ticket else display_ticket X t ticket);
              ticket_path = join_path (get_client_config_path W) ''ticket.txt''
          in if cw_writes_ticket W
             then (shown @ (if json then [] else display_info t (''Ticket saved to '' @ ticket_path)),
                   WriteFile ticket_path ticket # (if cw_stats_ticket W then [SetMode ticket_path 384] else []), None)
             else (shown, [], None)
      | Ack m \<Rightarrow> (if json then display_ack_json X m else display_ack t m, [], None)
      | ErrorIs e \<Rightarrow> (if json then display_error_json X e else display_error t e, [], Some 1))"

section \<open>The client\<close>

record client_args =
  ca_socket_path :: "string option"
  ca_admin_http :: "string option"
  ca_ticket :: "string option"
  ca_json :: bool
  ca_command :: client_command_args

text \<open>\<open>sock p\<close> is what the daemon at the socket \<open>p\<close> writes, \<open>http b\<close> the two replies of the one at \<open>b\<close>.\<close>

definition run_client ::
    "admin_lib \<Rightarrow> admin_codec \<Rightarrow> output_lib \<Rightarrow> terminal \<Rightarrow> client_world \<Rightarrow> (string \<Rightarrow> bytes) \<Rightarrow> (socket_addr \<Rightarrow> string \<times> string)
     \<Rightarrow> client_args \<Rightarrow> storage \<Rightarrow> storage \<times> (client_error, printed list \<times> file_effect list \<times> nat option) result" where
  "run_client A K X t W sock http args st =
     (let ticket = (case ca_ticket args of
                      Some s \<Rightarrow> Some s
                    | None \<Rightarrow> (case get_ticket W of Inr s \<Rightarrow> Some s | Inl e \<Rightarrow> None));
          (st, auth) = build_auth_request A W ticket st
      in (st,
          res_bind auth (\<lambda>auth.
          res_bind
            (case ca_admin_http args of
               Some b \<Rightarrow>
                 res_bind (map_err ClientBind (parse_bind_addr b)) (\<lambda>bind.
                 res_bind (map_err Dialogue (run_http_client K bind auth (ca_command args) (fst (http bind)) (snd (http bind))))
                   (\<lambda>(first, second, resp). Inr resp))
             | None \<Rightarrow>
                 let socket_path = get_socket_path (cw_paths W) (cw_exists W) (ca_socket_path args)
                 in res_bind (map_err Dialogue (run_socket_client K auth (ca_command args) (sock socket_path)))
                      (\<lambda>(sent, resp). Inr resp))
            (\<lambda>response. Inr (display_response X t W response (ca_json args))))))"

end
