(* ===== verification/Context_Props.thy ===== *)
theory Context_Props
  imports Context_Invariant
begin

text \<open>
  Properties of the handlers of \<open>Daemon_Context\<close>: who can change the tables and how, that the
  exchange of node lists converges, what cleaning up keeps and what saving persists.
\<close>

section \<open>A concrete daemon for the witnesses\<close>

definition sorted_iter :: "(endpoint_id \<rightharpoonup> 'v) \<Rightarrow> (endpoint_id \<times> 'v) list" where
  "sorted_iter m = map (\<lambda>k. (k, the (m k))) (sorted_list_of_set (dom m))"

lemma sorted_iter_snapshot: "finite (dom m) \<Longrightarrow> snapshot_of (sorted_iter m) m"
proof -
  assume fin: "finite (dom m)"
  have "map_of (sorted_iter m) k = m k" for k
    using fin by (cases "k \<in> dom m") (auto simp: sorted_iter_def map_of_map_restrict restrict_map_def domIff)
  then have "map_of (sorted_iter m) = m" by blast
  moreover have "distinct (map fst (sorted_iter m))" by (simp add: sorted_iter_def comp_def)
  ultimately show ?thesis by (simp add: snapshot_of_def)
qed

definition demo_env :: "u64 \<Rightarrow> env" where
  "demo_env t = \<lparr>clock = (\<lambda>i. t), conn_type = (\<lambda>i. None), handle_addr = ea_new (EndpointId 1),
     env_ifaces = [], broadcast_ok = True, iter_nodes = sorted_iter\<rparr>"

lemma demo_env_ok: "env_ok (demo_env t)"
  by (simp add: env_ok_def demo_env_def sorted_iter_snapshot)

text \<open>Daemon 1, called a, that trusts daemon 2, called b, heard from at time 100.\<close>

definition peer :: node where
  "peer = sample_node 2 2 ''b'' 100"

definition demo_ctx :: ctx where
  "demo_ctx = \<lparr>cx_me = sample_node 1 1 ''a'' 100, cx_nodes = [EndpointId 2 \<mapsto> peer],
     cx_trusted = [EndpointId 2 \<mapsto> peer], cx_ticket = demo_ticket,
     cx_args = default_args\<lparr>arg_daemon := True\<rparr>, cx_storage = empty_storage, cx_started_at = 100,
     cx_join_announced = False, cx_paused = False,
     cx_hosts_sync = \<lparr>hs_enabled = False, hs_path = None, hs_cleanup_on_shutdown = False,
       hs_last_success = None, hs_last_cleanup = None, hs_last_error = None\<rparr>, cx_effects = []\<rparr>"

lemma peer_fields [simp]:
  "node_id peer = EndpointId 2" "node_domain peer = ''b''" "last_heartbeat peer = 100"
  "node_services peer = []" "is_daemon_node peer" "\<not> has_client_marker peer"
  "node_addr peer = from_parts (EndpointId 2) [Ip (SockV4 2 7777)]" "node_invitor peer = EndpointId 2"
  by (simp_all add: peer_def sample_node_def is_daemon_node_def has_client_marker_def bt_contains_key_def)

lemma demo_ctx_fields [simp]:
  "node_id (cx_me demo_ctx) = EndpointId 1" "cx_nodes demo_ctx = [EndpointId 2 \<mapsto> peer]"
  "cx_trusted demo_ctx = [EndpointId 2 \<mapsto> peer]" "arg_daemon (cx_args demo_ctx)"
  "cx_ticket demo_ctx = demo_ticket" "cx_storage demo_ctx = empty_storage" "\<not> cx_join_announced demo_ctx"
  by (simp_all add: demo_ctx_def sample_node_def)

lemma demo_ctx_inv: "ctx_inv demo_ctx"
  by (auto simp: ctx_inv_def split: if_splits)


section \<open>Who changes the tables\<close>

lemma decode_and_verify_status:
  "decode_and_verify L now c b = Inr (src, m, s) \<Longrightarrow> vs_trusted s = is_node_trusted c src"
  by (auto simp: decode_and_verify_def res_bind_Inr_iff)

lemma trust_spreads:
  assumes "ctx_inv c" and "arg_daemon (cx_args c)"
    and "decode_and_verify L now c b = Inr (src, m, s)"
    and "i \<in> dom (cx_trusted (process_message E c src m s))" and "i \<notin> dom (cx_trusted c)"
  shows "(i = src \<and> vs_fresh s \<and> (\<exists>addr al services inv.
            m = Invited (t_topic (cx_ticket c)) (t_rnum (cx_ticket c)) addr al services inv))
    \<or> (is_node_trusted c src \<and> vs_fresh s
        \<and> (\<exists>ns. m \<in> {SyncRequest ns, SyncResponse ns} \<and> (\<exists>n \<in> set ns. node_id n = i \<and> is_daemon_node n)))"
proof -
  let ?t = "touch_sender E c src s"
  have t: "ctx_inv ?t" "dom (cx_trusted ?t) = dom (cx_trusted c)" "cx_args ?t = cx_args c" "cx_ticket ?t = cx_ticket c"
    using assms(1) by (simp_all add: touch.inv touch_sender_trusted_dom touch.keeps)
  have tr: "vs_trusted s = is_node_trusted c src" using assms(3) by (rule decode_and_verify_status)
  have new: "i \<in> dom (cx_trusted (process_message E c src m s)) - dom (cx_trusted ?t)"
    using assms(4,5) t(2) by simp
  have absorbed: "vs_passed s \<and> (\<exists>n \<in> set ns. node_id n = i \<and> is_daemon_node n)"
    if "i \<in> dom (cx_trusted (if \<not> arg_daemon (cx_args ?t) \<or> vs_passed s then absorb_nodes E src ns ?t else ?t))" for ns
    using that new absorb_loop_trusted_new [OF t(1), of i E src ns] assms(2) t(3)
    by (auto simp: absorb_nodes_def split: if_splits)
  have src_new: "i = src" if "i \<in> dom (cx_trusted (learn_sender E ?t src a al se inv))" for a al se inv
    using that new learn_sender_trusted_new [OF t(1), of E src a al se inv] by blast
  show ?thesis
  proof (cases m)
    case (Invited topic rnum a al se inv)
    then show ?thesis
      using new src_new [of a al se inv] t(4)
      by (auto simp: process_message_def Let_def ticket_validate_def split: if_splits)
  next
    case (AboutMe a al se inv)
    then have "vs_passed s" "i = src"
      using new src_new [of a al se inv] by (auto simp: process_message_def Let_def split: if_splits)
    then show ?thesis using tr assms(5) by (simp add: vs_passed_def is_node_trusted_def domIff)
  next
    case (SyncRequest ns)
    with new have "i \<in> dom (cx_trusted (if \<not> arg_daemon (cx_args ?t) \<or> vs_passed s then absorb_nodes E src ns ?t else ?t))"
      by (auto simp: process_message_def Let_def split: if_splits)
    with SyncRequest absorbed [of ns] tr show ?thesis by (auto simp: vs_passed_def)
  next
    case (SyncResponse ns)
    with new have "i \<in> dom (cx_trusted (if \<not> arg_daemon (cx_args ?t) \<or> vs_passed s then absorb_nodes E src ns ?t else ?t))"
      by (auto simp: process_message_def Let_def split: if_splits)
    with SyncResponse absorbed [of ns] tr show ?thesis by (auto simp: vs_passed_def)
  qed (use new in \<open>auto simp: process_message_def Let_def split: if_splits\<close>)
qed

text \<open>C3. How trust spreads in a daemon: when a received envelope makes a node trusted that was not,
  then either the node is the sender, the envelope is fresh and it is an invitation that carries the
  topic and the secret of our ticket, or the sender was trusted, the envelope is fresh and the node
  is a daemon in the node list that it carries.\<close>

theorem trust_needs_ticket_or_voucher:
  assumes "ctx_inv c" and "arg_daemon (cx_args c)"
    and "decode_and_verify L now c b = Inr (src, m, s)"
    and "i \<in> dom (cx_trusted (process_message E c src m s))" and "i \<notin> dom (cx_trusted c)"
  shows "(i = src \<and> vs_fresh s \<and> (\<exists>addr al services inv.
            m = Invited (t_topic (cx_ticket c)) (t_rnum (cx_ticket c)) addr al services inv))
    \<or> (is_node_trusted c src \<and> vs_fresh s
        \<and> (\<exists>ns. m \<in> {SyncRequest ns, SyncResponse ns} \<and> (\<exists>n \<in> set ns. node_id n = i \<and> is_daemon_node n)))"
  using assms by (rule trust_spreads)

definition joiner_invite :: message where
  "joiner_invite = Invited (TopicId 9) [1, 2, 3] (ea_new (EndpointId 3)) ''c'' [] (EndpointId 1)"

definition joiner_lib :: wire_lib where
  "joiner_lib = demo_lib\<lparr>pc_dec_message := (\<lambda>b. Some joiner_invite),
     pc_dec_signed := (\<lambda>b. Some \<lparr>sm_from = EndpointId 3, sm_data = [5], sm_signature = [7, 5, 100], sm_timestamp = 100\<rparr>)\<rparr>"

lemma joiner_invite_accepted:
  "decode_and_verify joiner_lib 110 demo_ctx [2]
     = Inr (EndpointId 3, joiner_invite, \<lparr>vs_trusted = False, vs_fresh = True\<rparr>)"
  "EndpointId 3 \<in> dom (cx_trusted (process_message (demo_env 110) demo_ctx (EndpointId 3) joiner_invite
     \<lparr>vs_trusted = False, vs_fresh = True\<rparr>))"
   apply (simp add: decode_and_verify_def sm_decode_def verify_and_decode_message_def signing_bytes_def or_err_def
      joiner_lib_def demo_lib_def is_node_trusted_def is_fresh_def saturating_sub_def saturating_add_def
      max_age_secs_def max_future_skew_secs_def)
  apply (simp add: process_message_def joiner_invite_def vs_passed_def ticket_validate_def demo_ticket_def
      ticket_from_parts_def learn_sender_def sender_message_addr_def observed_direct_addr_def demo_env_def
      trust_daemon_node_def is_daemon_node_def has_client_marker_def bt_contains_key_def upsert_active_node_simps Let_def)
  done

theorem trust_needs_ticket_or_voucher_witness:
  "\<exists>addr al services inv. joiner_invite = Invited (TopicId 9) [1, 2, 3] addr al services inv"
  using trust_needs_ticket_or_voucher [OF demo_ctx_inv _ joiner_invite_accepted]
  by (auto simp: is_node_trusted_def demo_ticket_def ticket_from_parts_def)

text \<open>C4. A daemon does not let a stranger touch its tables: a message that is not both fresh and from
  a trusted node changes neither table, whatever it says, unless it is a fresh invitation with the
  topic and the secret of our ticket.\<close>

theorem stranger_changes_nothing:
  assumes "arg_daemon (cx_args c)" and "\<not> vs_passed s"
    and "\<not> (vs_fresh s \<and> (\<exists>addr al services inv.
           m = Invited (t_topic (cx_ticket c)) (t_rnum (cx_ticket c)) addr al services inv))"
  shows "cx_nodes (process_message E c src m s) = cx_nodes c
    \<and> cx_trusted (process_message E c src m s) = cx_trusted c"
  using assms by (cases m) (auto simp: process_message_def Let_def ticket_validate_def)

theorem stranger_changes_nothing_witness:
  "cx_nodes (process_message (demo_env 9000) demo_ctx (EndpointId 3) joiner_invite
     \<lparr>vs_trusted = False, vs_fresh = False\<rparr>) = [EndpointId 2 \<mapsto> peer]
   \<and> cx_trusted (process_message (demo_env 110) demo_ctx (EndpointId 3) (SyncResponse [sample_node 4 4 ''d'' 100])
     \<lparr>vs_trusted = False, vs_fresh = True\<rparr>) = [EndpointId 2 \<mapsto> peer]"
  using stranger_changes_nothing [of demo_ctx "\<lparr>vs_trusted = False, vs_fresh = False\<rparr>" joiner_invite]
    stranger_changes_nothing [of demo_ctx "\<lparr>vs_trusted = False, vs_fresh = True\<rparr>" "SyncResponse [sample_node 4 4 ''d'' 100]"]
  by (simp add: vs_passed_def)

section \<open>The exchange of node lists\<close>

text \<open>C6. A node list from a trusted sender brings the daemon up to date: afterwards the table holds,
  for every daemon of the list other than itself, a report at least as fresh; no report it had is
  lost or becomes older; and handling the same list again changes nothing at all.\<close>

theorem node_list_converges:
  assumes "ctx_inv c" and "n \<in> set ns" and "is_daemon_node n" and "node_id n \<noteq> node_id (cx_me c)"
  shows "covers (absorb_nodes E src ns c) n
    \<and> (covers c k \<longrightarrow> covers (absorb_nodes E src ns c) k)
    \<and> absorb_nodes E src ns (absorb_nodes E src ns c) = absorb_nodes E src ns c"
proof -
  have rel: "relevant (fold (absorb_node E src) ns c) = relevant c"
    by (rule ext) (simp add: relevant_def absorb.loop_keeps)
  have "fold (absorb_node E src) ns (fold (absorb_node E src) ns c) = fold (absorb_node E src) ns c"
    using covers_loop [OF assms(1)] rel by (intro absorb_loop_noop) simp
  moreover have "relevant c n" using assms(3,4) by (simp add: relevant_def)
  ultimately show ?thesis
    using covers_loop [OF assms(1,2)] covers_loop_mono [OF assms(1)] by (simp add: absorb_nodes_def)
qed

theorem node_list_converges_witness:
  "covers (absorb_nodes (demo_env 110) (EndpointId 2) [sample_node 4 4 ''d'' 90] demo_ctx) (sample_node 4 4 ''d'' 90)
   \<and> covers (absorb_nodes (demo_env 110) (EndpointId 2) [sample_node 4 4 ''d'' 90] demo_ctx) peer"
  using node_list_converges [OF demo_ctx_inv, of "sample_node 4 4 ''d'' 90" "[sample_node 4 4 ''d'' 90]" "demo_env 110" "EndpointId 2" peer]
  by (simp add: sample_node_def is_daemon_node_def has_client_marker_def bt_contains_key_def covers_def)

text \<open>C12. How a daemon answers a request: it sends one message, and sends it to the asker: a list of its
  own current record and exactly the daemon records of its table, never a client's. The asker need
  not be trusted and its request need not be fresh; and the message is addressed to the endpoint id
  in the asker's record, which is the asker's own only if that record says so.\<close>

theorem sync_request_answer:
  assumes "ctx_inv c" and "env_ok E" and "arg_daemon (cx_args c)" and "src \<noteq> node_id (cx_me c)"
    and c': "c' = process_message E c src (SyncRequest ns) s"
  shows "\<exists>before target nodes. cx_effects c' = before @ [SendMsg target (SyncResponse nodes), NetworkChange]
     \<and> set before \<subseteq> set (cx_effects c) \<union> range StaticAdd
     \<and> ea_id target = (case cx_nodes c' src of Some n \<Rightarrow> ea_id (node_addr n) | None \<Rightarrow> src)
     \<and> set nodes = insert (current_node_state E 1 c) {n \<in> ran (cx_nodes c'). is_daemon_node n}"
proof -
  let ?t = "touch_sender E c src s"
  let ?a = "if vs_passed s then absorb_nodes E src ns ?t else ?t"
  have a: "cx_me ?a = cx_me c" "cx_args ?a = cx_args c" and fin: "finite (dom (cx_nodes ?a))"
    using absorb.loop_inv [OF touch.inv [OF assms(1)], of E src ns E src s] touch.inv [OF assms(1), of E src s]
    assms(1) by (simp_all add: absorb_nodes_def absorb.loop_keeps touch.keeps ctx_inv_def)
  have eff: "set (cx_effects ?a) \<subseteq> set (cx_effects c) \<union> range StaticAdd"
    using absorb.loop_sends_nothing [where E = E and src = src and xs = ns and c = ?t] touch.sends_nothing [where E = E and src = src and x = s and c = c]
    by (auto simp: absorb_nodes_def)
  have "set (iter_nodes E (cx_nodes ?a)) = {(k, v). cx_nodes ?a k = Some v}"
    using assms(2) fin snapshot_of_mem by (fastforce simp: env_ok_def)
  then have nodes: "set (sync_nodes E ?a) = insert (current_node_state E 1 c) {n \<in> ran (cx_nodes ?a). is_daemon_node n}"
    using a by (auto simp: sync_nodes_def current_node_state_def ran_def image_iff)
  have emitted: "c' = emit NetworkChange (send_message_to E ?a src (SyncResponse (sync_nodes E ?a)))"
    using assms(3) a by (simp add: c' process_message_def Let_def touch.keeps)
  obtain target where t: "send_message_to E ?a src (SyncResponse (sync_nodes E ?a)) = emit (SendMsg target (SyncResponse (sync_nodes E ?a))) ?a"
    "ea_id target = (case cx_nodes ?a src of Some n \<Rightarrow> ea_id (node_addr n) | None \<Rightarrow> src)"
    using assms(4) a(1) by (metis send_message_to_other)
  have "cx_effects c' = cx_effects ?a @ [SendMsg target (SyncResponse (sync_nodes E ?a)), NetworkChange]"
    and "cx_nodes c' = cx_nodes ?a"
    by (simp_all only: emitted t(1) emit_fields append_assoc append_Cons append_Nil)
  with eff t(2) nodes show ?thesis by metis
qed


theorem sync_request_answer_witness:
  "\<exists>before target nodes.
     cx_effects (process_message (demo_env 9000) demo_ctx (EndpointId 3) (SyncRequest []) \<lparr>vs_trusted = False, vs_fresh = False\<rparr>)
       = before @ [SendMsg target (SyncResponse nodes), NetworkChange]
     \<and> ea_id target = EndpointId 3 \<and> peer \<in> set nodes"
proof -
  let ?c = "process_message (demo_env 9000) demo_ctx (EndpointId 3) (SyncRequest []) \<lparr>vs_trusted = False, vs_fresh = False\<rparr>"
  have nodes: "cx_nodes ?c = [EndpointId 2 \<mapsto> peer]"
    by (simp add: process_message_def vs_passed_def Let_def)
  have "EndpointId 3 \<noteq> node_id (cx_me demo_ctx)" by simp
  from sync_request_answer [OF demo_ctx_inv demo_env_ok demo_ctx_fields(4) this refl,
      of 9000 "[]" "\<lparr>vs_trusted = False, vs_fresh = False\<rparr>"]
  obtain before target ns where eff: "cx_effects ?c = before @ [SendMsg target (SyncResponse ns), NetworkChange]"
    and target: "ea_id target = (case cx_nodes ?c (EndpointId 3) of Some n \<Rightarrow> ea_id (node_addr n) | None \<Rightarrow> EndpointId 3)"
    and ns: "set ns = insert (current_node_state (demo_env 9000) 1 demo_ctx) {n \<in> ran (cx_nodes ?c). is_daemon_node n}"
    by blast
  have "ea_id target = EndpointId 3" using target by (simp add: nodes)
  moreover have "peer \<in> set ns" unfolding ns nodes by simp
  ultimately show ?thesis using eff by blast
qed

section \<open>Cleaning up\<close>

text \<open>C5. What the periodic cleanup leaves: only records it had and none of a daemon that has been silent
  for more than 90 seconds; exactly the names that had an unexpired record; and for each of them one
  record, no older than any unexpired record of that name.\<close>

theorem cleanup_outcome:
  assumes "ctx_inv c" and "env_ok E"
  defines "kept \<equiv> ran (cx_nodes (cleanup E c))"
  defines "live \<equiv> {n \<in> ran (cx_nodes c). \<not> expired (clock E 0) n}"
  shows "kept \<subseteq> live \<and> node_domain ` kept = node_domain ` live \<and> inj_on node_domain kept
    \<and> (\<forall>n \<in> kept. \<forall>m \<in> live. node_domain m = node_domain n \<longrightarrow> last_heartbeat m \<le> last_heartbeat n)
    \<and> cx_trusted (cleanup E c) = cx_trusted c"
proof -
  have kept: "kept = {w. \<exists>d. name_winner E c d = Some w}"
    unfolding kept_def by (rule ran_cleanup [OF assms(1,2)])
  have live: "live = ran (survivors E c)" by (simp add: live_def ran_survivors)
  note w = name_winner_mem [OF assms(1,2)]
  have sub: "kept \<subseteq> live" using w(1) by (auto simp: kept live)
  have names: "node_domain m \<in> node_domain ` kept" if m: "m \<in> live" for m
  proof -
    obtain v where v: "name_winner E c (node_domain m) = Some v"
      using assms(1,2) m [unfolded live] by (rule name_winner_ex)
    then have "v \<in> kept" by (auto simp: kept)
    with w(2) [OF v] show ?thesis by (metis imageI)
  qed
  have "inj_on node_domain kept" using w(2) by (fastforce simp: kept intro: inj_onI)
  moreover have "\<forall>n \<in> kept. \<forall>m \<in> live. node_domain m = node_domain n \<longrightarrow> last_heartbeat m \<le> last_heartbeat n"
    using w(2,3) by (auto simp: kept live)
  ultimately show ?thesis using sub names by (auto simp: cleanup_fields)
qed

definition clash_ctx :: "node \<Rightarrow> ctx" where
  "clash_ctx n = demo_ctx\<lparr>cx_nodes := [EndpointId 2 \<mapsto> peer, EndpointId 5 \<mapsto> n]\<rparr>"

definition cli_client :: node where
  "cli_client = (sample_node 5 5 ''b'' 120)\<lparr>node_services := [(service_marker_client, 1)]\<rparr>"

lemma clash_ctx_inv: "node_id n = EndpointId 5 \<Longrightarrow> ctx_inv (clash_ctx n)"
  by (auto simp: clash_ctx_def ctx_inv_def split: if_splits)

lemma clash_ctx_nodes: "cx_nodes (clash_ctx n) = [EndpointId 2 \<mapsto> peer, EndpointId 5 \<mapsto> n]"
  by (simp add: clash_ctx_def)

lemma clash_ctx_ran: "ran (cx_nodes (clash_ctx n)) = {n, peer}"
  by (simp add: clash_ctx_nodes)

lemma sample_node_simps [simp]:
  "node_id (sample_node i ip d h) = EndpointId i" "node_domain (sample_node i ip d h) = d"
  "last_heartbeat (sample_node i ip d h) = h" "is_daemon_node (sample_node i ip d h)"
  by (simp_all add: sample_node_def is_daemon_node_def has_client_marker_def bt_contains_key_def)

theorem cleanup_outcome_witness:
  "node_domain ` ran (cx_nodes (cleanup (demo_env 191) (clash_ctx (sample_node 5 5 ''b'' 120)))) = {''b''}
   \<and> peer \<notin> ran (cx_nodes (cleanup (demo_env 191) (clash_ctx (sample_node 5 5 ''b'' 120))))"
proof -
  have live: "{n \<in> ran (cx_nodes (clash_ctx (sample_node 5 5 ''b'' 120))). \<not> expired (clock (demo_env 191) 0) n}
      = {sample_node 5 5 ''b'' 120}"
    by (auto simp: clash_ctx_ran expired_def demo_env_def)
  have "ctx_inv (clash_ctx (sample_node 5 5 ''b'' 120))" by (rule clash_ctx_inv) simp
  from cleanup_outcome [OF this demo_env_ok, of 191, unfolded live]
  have sub: "ran (cx_nodes (cleanup (demo_env 191) (clash_ctx (sample_node 5 5 ''b'' 120)))) \<subseteq> {sample_node 5 5 ''b'' 120}"
    and names: "node_domain ` ran (cx_nodes (cleanup (demo_env 191) (clash_ctx (sample_node 5 5 ''b'' 120)))) = {''b''}"
    by simp_all
  have "peer \<noteq> sample_node 5 5 ''b'' 120" by (simp add: peer_def sample_node_def)
  with sub names show ?thesis by blast
qed

text \<open>C34. Clients take part in the contest for a name: a client session filed under the name of a live
  daemon, with a later heartbeat, makes the next cleanup drop the daemon's record.\<close>

theorem client_evicts_daemon:
  assumes "ctx_inv c" and "env_ok E"
    and "cx_nodes c k = Some d" and "is_daemon_node d"
    and "cx_nodes c j = Some cl" and "\<not> is_daemon_node cl"
    and "node_domain cl = node_domain d" and "last_heartbeat d < last_heartbeat cl"
  shows "cx_nodes (cleanup E c) k = None"
proof (cases "cx_nodes (cleanup E c) k")
  case (Some n)
  then have n: "survivors E c k = Some n" and w: "name_winner E c (node_domain n) = Some n"
    by (simp_all add: cleanup_iff [OF assms(1,2)])
  have "n = d" using n assms(3) by (simp add: survivorsD)
  moreover have "cl \<in> ran (survivors E c)"
    using assms(5,6) by (auto simp: ran_def survivorsD expired_def)
  ultimately show ?thesis
    using name_winner_mem(3) [OF assms(1,2) w, of cl] assms(7,8) by simp
qed

theorem client_evicts_daemon_witness:
  "cx_nodes (cleanup (demo_env 130) (clash_ctx cli_client)) (EndpointId 2) = None"
proof (rule client_evicts_daemon)
  show "ctx_inv (clash_ctx cli_client)" by (rule clash_ctx_inv) (simp add: cli_client_def)
  show "env_ok (demo_env 130)" by (rule demo_env_ok)
  show "cx_nodes (clash_ctx cli_client) (EndpointId 2) = Some peer" by (simp add: clash_ctx_nodes)
  show "cx_nodes (clash_ctx cli_client) (EndpointId 5) = Some cli_client" by (simp add: clash_ctx_nodes)
  show "\<not> is_daemon_node cli_client"
    by (simp add: cli_client_def is_daemon_node_def has_client_marker_def bt_contains_key_def)
qed (simp_all add: cli_client_def)

text \<open>C7. A node we hear from stays: after a fresh heartbeat of a trusted node that we know, the cleanup
  keeps the node's record for 90 seconds, as long as no other record has its name.\<close>

theorem heartbeat_keeps_node:
  assumes "ctx_inv c" and "env_ok E'" and "vs_passed s" and "src \<noteq> node_id (cx_me c)"
    and "cx_nodes c src = Some n"
    and "\<forall>k m. cx_nodes c k = Some m \<longrightarrow> node_domain m = node_domain n \<longrightarrow> k = src"
    and "unat (clock E' 0) \<le> unat (clock E 0) + 90"
  shows "\<exists>a. cx_nodes (cleanup E' (process_message E c src Heartbeat s)) src
           = Some (n\<lparr>node_addr := a, last_heartbeat := clock E 0\<rparr>)"
proof -
  let ?c = "process_message E c src Heartbeat s"
  obtain a where "cx_nodes (touch_sender E c src s) src = Some (n\<lparr>node_addr := a, last_heartbeat := clock E 0\<rparr>)"
    using assms(1,3,4,5) by (rule touch_sender_stamp)
  then have src: "cx_nodes ?c src = Some (n\<lparr>node_addr := a, last_heartbeat := clock E 0\<rparr>)"
    by (simp add: process_message_def Let_def)
  let ?n = "n\<lparr>node_addr := a, last_heartbeat := clock E 0\<rparr>"
  have inv: "ctx_inv ?c" by (rule process_message_inv [OF assms(1)])
  have live: "survivors E' ?c src = Some ?n"
    using src assms(7) by (simp add: survivorsD expired_def)
  then obtain w where w: "name_winner E' ?c (node_domain ?n) = Some w"
    using name_winner_ex [OF inv assms(2), of ?n] by (auto simp: ran_def)
  note wm = name_winner_mem [OF inv assms(2) w]
  from wm(1) obtain k where k: "cx_nodes ?c k = Some w" by (auto simp: ran_def survivorsD)
  have "k = src"
  proof (rule ccontr)
    assume "k \<noteq> src"
    then have "cx_nodes c k = Some w"
      using k touch_sender_other [OF assms(1)] by (simp add: process_message_def Let_def)
    with assms(6) wm(2) \<open>k \<noteq> src\<close> show False by simp
  qed
  with k src have "w = ?n" by simp
  with w live have "cx_nodes (cleanup E' ?c) src = Some ?n"
    by (simp add: cleanup_iff [OF inv assms(2)])
  then show ?thesis by blast
qed

theorem heartbeat_keeps_node_witness:
  "cx_nodes (cleanup (demo_env 290) (process_message (demo_env 200) demo_ctx (EndpointId 2) Heartbeat
     \<lparr>vs_trusted = True, vs_fresh = True\<rparr>)) (EndpointId 2) \<noteq> None"
proof -
  have t: "unat (clock (demo_env 290) 0) \<le> unat (clock (demo_env 200) 0) + 90" by (simp add: demo_env_def)
  have k: "\<forall>k m. cx_nodes demo_ctx k = Some m \<longrightarrow> node_domain m = node_domain peer \<longrightarrow> k = EndpointId 2"
    by simp
  have p: "vs_passed \<lparr>vs_trusted = True, vs_fresh = True\<rparr>" by (simp add: vs_passed_def)
  have i: "EndpointId 2 \<noteq> node_id (cx_me demo_ctx)" and n: "cx_nodes demo_ctx (EndpointId 2) = Some peer" by simp_all
  show ?thesis
    using heartbeat_keeps_node [OF demo_ctx_inv demo_env_ok p i n k t] by (elim exE) (simp only: option.distinct not_False_eq_True)
qed

section \<open>Leaving, saving and joining\<close>

text \<open>A farewell only counts from a trusted node and fresh, and then only removes the sender's own
  record: it stays trusted, no other record is touched. Any other farewell changes neither table.\<close>

theorem left_removes_only_sender:
  assumes "ctx_inv c"
  shows "cx_nodes (process_message E c src Left s) = (if vs_passed s then (cx_nodes c)(src := None) else cx_nodes c)
    \<and> dom (cx_trusted (process_message E c src Left s)) = dom (cx_trusted c)"
  using touch_sender_trusted_dom [of E c src s] touch_sender_other [OF assms, of _ src E s]
  by (cases "vs_passed s") (auto simp: process_message_def Let_def fun_eq_iff)

theorem left_removes_only_sender_witness:
  "cx_nodes (process_message (demo_env 110) demo_ctx (EndpointId 2) Left \<lparr>vs_trusted = True, vs_fresh = True\<rparr>) = Map.empty
   \<and> cx_nodes (process_message (demo_env 110) demo_ctx (EndpointId 2) Left \<lparr>vs_trusted = True, vs_fresh = False\<rparr>)
       = [EndpointId 2 \<mapsto> peer]"
  using left_removes_only_sender [OF demo_ctx_inv, of "demo_env 110" "EndpointId 2" "\<lparr>vs_trusted = True, vs_fresh = True\<rparr>"]
    left_removes_only_sender [OF demo_ctx_inv, of "demo_env 110" "EndpointId 2" "\<lparr>vs_trusted = True, vs_fresh = False\<rparr>"]
  by (simp add: vs_passed_def)


text \<open>C8. Saving persists trust: after a successful save, loading the database (when no call fails and the
  records already there decode) yields every trusted node as it is in the table, and besides them
  only older records filed under other ids.\<close>

theorem save_persists_trust:
  assumes "ctx_inv c" and "env_ok E" and "store_lib_ok L" and "storage_ok (cx_storage c)" and "decodable L (cx_storage c)"
    and "save_trusted L fails E c = (c', Inr ())"
  shows "\<exists>loaded. load_nodes L (\<lambda>x. False) (cx_storage c') = Inr loaded
    \<and> set loaded = ran (cx_trusted c)
        \<union> ran (node_table L (cx_storage c) |` (- id_string L ` dom (cx_trusted c)))"
proof -
  let ?es = "filter (\<lambda>e. fst e \<noteq> node_id (cx_me c) \<and> is_daemon_node (snd e)) (iter_nodes E (cx_trusted c))"
  have snap: "snapshot_of (iter_nodes E (cx_trusted c)) (cx_trusted c)"
    using assms(1,2) by (simp add: env_ok_def ctx_inv_def)
  have mem: "(k, v) \<in> set (iter_nodes E (cx_trusted c)) \<longleftrightarrow> cx_trusted c k = Some v" for k v
    using snap by (rule snapshot_of_mem)
  have "\<forall>e \<in> set (iter_nodes E (cx_trusted c)). fst e \<noteq> node_id (cx_me c) \<and> is_daemon_node (snd e)"
    using ctx_inv_trustedD [OF assms(1)] mem by fastforce
  then have all: "?es = iter_nodes E (cx_trusted c)" by (simp add: filter_id_conv)
  have ids: "map node_id (map snd (iter_nodes E (cx_trusted c))) = map fst (iter_nodes E (cx_trusted c))"
    using ctx_inv_trustedD [OF assms(1)] mem by auto
  then have "distinct (map node_id (map snd (iter_nodes E (cx_trusted c))))"
    using snap by (simp only: snapshot_of_def)
  moreover have "batch_save_nodes L fails (cx_storage c) (map snd (iter_nodes E (cx_trusted c))) = (cx_storage c', Inr ())"
    using assms(6) unfolding save_trusted_def Let_def all by (auto split: prod.splits)
  ultimately obtain loaded where loaded: "load_nodes L (\<lambda>x. False) (cx_storage c') = Inr loaded"
    and set: "set loaded = set (map snd (iter_nodes E (cx_trusted c)))
        \<union> ran (node_table L (cx_storage c) |` (- (\<lambda>n. id_string L (node_id n)) ` set (map snd (iter_nodes E (cx_trusted c)))))"
    using batch_save_loads [OF assms(3,4,5)] by blast
  have nodes: "set (map snd (iter_nodes E (cx_trusted c))) = ran (cx_trusted c)"
    using mem by (force simp: ran_def)
  have "node_id ` ran (cx_trusted c) = dom (cx_trusted c)"
    using ctx_inv_trustedD [OF assms(1)] by (force simp: ran_def dom_def image_iff)
  then have "(\<lambda>n. id_string L (node_id n)) ` ran (cx_trusted c) = id_string L ` dom (cx_trusted c)"
    by (metis image_image)
  with set loaded nodes show ?thesis by metis
qed

definition save_ctx :: ctx where
  "save_ctx = demo_ctx\<lparr>cx_me := sample_node 9 9 ''z'' 10, cx_trusted := [EndpointId 1 \<mapsto> demo_node]\<rparr>"

lemma save_ctx_saved:
  "ctx_inv save_ctx"
  "save_trusted demo_store_lib (\<lambda>x. False) (demo_env 110) save_ctx
     = (save_ctx\<lparr>cx_storage := empty_storage\<lparr>st_nodes := Some [(''x'', [1])]\<rparr>\<rparr>, Inr ())"
   apply (auto simp: ctx_inv_def save_ctx_def demo_node_def split: if_splits)
  apply (simp add: save_trusted_def save_ctx_def demo_env_def sorted_iter_def batch_save_nodes_def write_txn_def
      try_call_def insert_node_def demo_store_lib_def or_err_def empty_storage_def opened_def demo_node_def)
  done

theorem save_persists_trust_witness:
  "\<exists>loaded. load_nodes demo_store_lib (\<lambda>x. False) (empty_storage\<lparr>st_nodes := Some [(''x'', [1])]\<rparr>) = Inr loaded
     \<and> set loaded = {demo_node}"
proof -
  have st: "storage_ok (cx_storage save_ctx)" "decodable demo_store_lib (cx_storage save_ctx)"
    by (simp_all add: save_ctx_def empty_storage_def storage_ok_def decodable_def)
  have "node_table demo_store_lib (cx_storage save_ctx) = Map.empty"
    by (simp add: save_ctx_def empty_storage_def node_table_def bt_get_def fun_eq_iff)
  moreover have "cx_trusted save_ctx = [EndpointId 1 \<mapsto> demo_node]" by (simp add: save_ctx_def)
  ultimately show ?thesis
    using save_persists_trust [OF save_ctx_saved(1) demo_env_ok demo_store_lib_ok st save_ctx_saved(2)] by simp
qed

text \<open>Joining is announced once: after an announcement that went out, announcing again does nothing,
  whatever has changed around the daemon; a primary and a client never announce.\<close>

theorem join_announced_once:
  assumes "broadcast_ok E"
  shows "announce_join E' (announce_join E c) = announce_join E c
    \<and> announce_join E (c\<lparr>cx_args := a\<lparr>arg_primary := True\<rparr>\<rparr>) = c\<lparr>cx_args := a\<lparr>arg_primary := True\<rparr>\<rparr>"
  using assms by (simp add: announce_join_def Let_def)

theorem join_announced_once_witness:
  "announce_join (demo_env 200) (announce_join (demo_env 110) demo_ctx) = announce_join (demo_env 110) demo_ctx"
  using join_announced_once [of "demo_env 110" "demo_env 200" demo_ctx "cx_args demo_ctx"]
  by (simp add: demo_env_def)

text \<open>A rename does not travel: a trusted node that announces a new name, new services or a new
  invitor in an \<open>AboutMe\<close> keeps its old ones in our table unless the clock advances while the message
  is handled, because the message first stamps the record with the current second and is then not
  newer than it.\<close>

theorem rename_is_ignored:
  assumes "ctx_inv c" and "vs_passed s" and "src \<noteq> node_id (cx_me c)"
    and "cx_nodes c src = Some n" and "clock E 1 \<le> clock E 0"
  shows "\<exists>n'. cx_nodes (process_message E c src (AboutMe addr al services invr) s) src = Some n'
    \<and> node_domain n' = node_domain n \<and> node_services n' = node_services n \<and> node_invitor n' = node_invitor n"
proof -
  let ?t = "touch_sender E c src s"
  obtain a where t: "cx_nodes ?t src = Some (n\<lparr>node_addr := a, last_heartbeat := clock E 0\<rparr>)"
    using assms(1,2,3,4) by (rule touch_sender_stamp)
  let ?e = "n\<lparr>node_addr := a, last_heartbeat := clock E 0\<rparr>"
  let ?in = "\<lparr>node_id = src, node_invitor = invr, node_addr = sender_message_addr E src addr,
      node_domain = al, node_services = services, last_heartbeat = clock E 1\<rparr>"
  let ?m = "fst (merge_node (Some ?e) ?in)"
  have m: "?m = ?e\<lparr>node_addr := merge_addr (node_addr ?e) (node_addr ?in)\<rparr>"
    using assms(5) by (intro merge_node_fields(3)) simp
  have id: "node_id n = src" using assms(1,4) by (rule ctx_inv_nodesD)
  have "cx_nodes (process_message E c src (AboutMe addr al services invr) s) src = Some ?m"
    using assms(2,3) t id m
    by (simp add: process_message_def learn_sender_def Let_def upsert_active_node_simps trust_daemon_node_simps
        trust.keeps touch.keeps)
  with m show ?thesis by simp
qed

theorem rename_is_ignored_witness:
  "\<exists>n'. cx_nodes (process_message (demo_env 110) demo_ctx (EndpointId 2)
        (AboutMe (ea_new (EndpointId 2)) ''renamed'' [] (EndpointId 2)) \<lparr>vs_trusted = True, vs_fresh = True\<rparr>)
      (EndpointId 2) = Some n' \<and> node_domain n' = ''b''"
  using rename_is_ignored [OF demo_ctx_inv, of "\<lparr>vs_trusted = True, vs_fresh = True\<rparr>" "EndpointId 2" peer "demo_env 110"
      "ea_new (EndpointId 2)" "''renamed''" "[]" "EndpointId 2"]
  by (auto simp: vs_passed_def demo_env_def)

end
