(* ===== verification/Text_Trim.thy ===== *)
theory Text_Trim
  imports Text_Lines Addr_Text
begin

text \<open>
  Facts about \<open>str::trim\<close>: what it leaves alone and what it can remove. \<open>ws_char\<close> covers every byte
  that an encoding of a blank begins or ends with.
\<close>

section \<open>Trimming\<close>

lemma strip_any_suffix: "\<exists>p. s = p @ strip_any ws s"
proof (induction ws s rule: strip_any.induct)
  case (1 ws s)
  show ?case
  proof (cases "find (\<lambda>w. w \<noteq> [] \<and> prefix w s) ws")
    case (Some w)
    then have "w \<noteq> [] \<and> prefix w s" by (auto simp: find_Some_iff)
    then have "s = w @ drop (length w) s" by (auto simp: prefix_def)
    moreover obtain p where "drop (length w) s = p @ strip_any ws (drop (length w) s)"
      using 1 Some by blast
    ultimately have "s = (w @ p) @ strip_any ws s" using Some by (simp add: strip_any.simps [of ws s])
    then show ?thesis by blast
  qed (simp add: strip_any.simps [of ws s])
qed

lemma strip_any_id: "(\<And>w. w \<in> set ws \<Longrightarrow> w \<noteq> [] \<Longrightarrow> \<not> prefix w s) \<Longrightarrow> strip_any ws s = s"
proof -
  assume "\<And>w. w \<in> set ws \<Longrightarrow> w \<noteq> [] \<Longrightarrow> \<not> prefix w s"
  then have "find (\<lambda>w. w \<noteq> [] \<and> prefix w s) ws = None" by (auto simp: find_None_iff)
  then show ?thesis by (simp add: strip_any.simps [of ws s])
qed

definition ws_char :: "char \<Rightarrow> bool" where
  "ws_char c \<longleftrightarrow> code_in 9 13 c \<or> code_in 32 32 c \<or> code_in 128 255 c"

lemma ws_encodings_ends: "w \<in> set ws_encodings \<Longrightarrow> w \<noteq> [] \<and> ws_char (hd w) \<and> ws_char (last w)"
proof -
  have "list_all (\<lambda>w. w \<noteq> [] \<and> ws_char (hd w) \<and> ws_char (last w)) ws_encodings"
    by (simp add: ws_encodings_def ws_char_def code_in_def)
  then show "w \<in> set ws_encodings \<Longrightarrow> w \<noteq> [] \<and> ws_char (hd w) \<and> ws_char (last w)"
    by (simp add: list_all_iff)
qed

lemma trim_start_id: "s = [] \<or> \<not> ws_char (hd s) \<Longrightarrow> trim_start s = s"
  unfolding trim_start_def
  by (rule strip_any_id) (auto simp: prefix_def dest!: ws_encodings_ends)

lemma trim_end_id: "s = [] \<or> \<not> ws_char (last s) \<Longrightarrow> trim_end s = s"
proof -
  assume s: "s = [] \<or> \<not> ws_char (last s)"
  have "strip_any (map rev ws_encodings) (rev s) = rev s"
  proof (rule strip_any_id)
    fix w assume "w \<in> set (map rev ws_encodings)"
    then obtain v where v: "v \<in> set ws_encodings" "w = rev v" by auto
    from ws_encodings_ends [OF v(1)] have "w \<noteq> []" "ws_char (hd w)" using v(2) by (simp_all add: hd_rev)
    then show "\<not> prefix w (rev s)" using s by (cases "s = []") (auto simp: prefix_def last_rev hd_append dest: arg_cong [where f = hd] simp flip: hd_rev)
  qed
  then show ?thesis by (simp add: trim_end_def)
qed

lemma trim_id: "s = [] \<or> \<not> ws_char (hd s) \<and> \<not> ws_char (last s) \<Longrightarrow> trim s = s"
  by (auto simp: trim_def trim_start_id trim_end_id)

lemma trim_end_prefix: "\<exists>p. s = trim_end s @ p"
proof -
  obtain p where "rev s = p @ strip_any (map rev ws_encodings) (rev s)" using strip_any_suffix by blast
  then have "s = trim_end s @ rev p" by (metis rev_append rev_rev_ident trim_end_def)
  then show ?thesis by blast
qed

lemma trim_hd: "s \<noteq> [] \<Longrightarrow> \<not> ws_char (hd s) \<Longrightarrow> trim s = [] \<or> hd (trim s) = hd s"
proof -
  assume s: "s \<noteq> []" "\<not> ws_char (hd s)"
  obtain p where "s = trim_end s @ p" using trim_end_prefix by blast
  then have "trim_end s = [] \<or> hd (trim_end s) = hd s" by (metis hd_append2)
  then show ?thesis using s by (simp add: trim_def trim_start_id)
qed

lemma ip_char_plain: "ip_char c \<Longrightarrow> is_ascii c \<and> \<not> ws_char c \<and> c \<noteq> LF \<and> c \<noteq> CR \<and> c \<noteq> CHR ''#''"
  by (auto simp: ip_char_def is_ascii_digit_def code_in_def is_ascii_def ws_char_def)

end
