(* ===== verification/Hosts_Props.thy ===== *)
theory Hosts_Props
  imports Hosts_File Text_Trim
begin

text \<open>
  Properties of \<open>Hosts_File\<close>: which names reach the file, what a rewrite keeps, when a second one has
  nothing to do, and what a failure leaves behind.
\<close>

section \<open>Host names\<close>

text \<open>The characters of a canonical name.\<close>

definition dns_char :: "char \<Rightarrow> bool" where
  "dns_char c \<longleftrightarrow> is_ascii_lower c \<or> is_ascii_digit c \<or> c = CHR ''-'' \<or> c = CHR ''.''"

lemma dns_char_plain: "dns_char c \<Longrightarrow> is_ascii c \<and> \<not> ws_char c \<and> c \<noteq> LF \<and> c \<noteq> CR \<and> c \<noteq> CHR ''#''"
  by (auto simp: dns_char_def is_ascii_lower_def is_ascii_digit_def code_in_def is_ascii_def ws_char_def)

lemma to_lower_char_code: "is_ascii_upper c \<Longrightarrow> is_ascii_lower (to_lower_char c)"
  by (simp add: is_ascii_upper_def is_ascii_lower_def to_lower_char_def code_in_def)

lemma not_upper_lowered: "\<not> is_ascii_upper (to_lower_char c)"
  by (auto simp: to_lower_char_def is_ascii_upper_def code_in_def)

lemma to_ascii_lowercase_idem: "to_ascii_lowercase (to_ascii_lowercase s) = to_ascii_lowercase s"
  by (simp add: to_ascii_lowercase_def to_lower_char_def [of "to_lower_char c" for c] not_upper_lowered)

lemma label_lower_dns: "is_label_char c \<Longrightarrow> \<not> is_ascii_upper c \<Longrightarrow> dns_char c"
  by (auto simp: is_label_char_def is_ascii_alphanumeric_def dns_char_def)

lemma split_on_cover: "x \<in> set s \<Longrightarrow> x = c \<or> (\<exists>p \<in> set (split_on c s). x \<in> set p)"
proof (induction s)
  case (Cons a s)
  obtain y ys where ys: "split_on c s = y # ys" by (cases "split_on c s") auto
  with Cons show ?case by auto
qed simp

lemma split_on_last: "s \<noteq> [] \<Longrightarrow> last s = c \<Longrightarrow> last (split_on c s) = []"
proof (induction s)
  case (Cons a s)
  show ?case
  proof (cases "s = []")
    case False
    with Cons have "last (split_on c s) = []" by simp
    moreover obtain y ys where "split_on c s = y # ys" by (cases "split_on c s") auto
    moreover have "ys \<noteq> []"
      using False Cons.prems calculation by (cases s) (auto split: if_splits list.splits)
    ultimately show ?thesis by auto
  qed (use Cons in auto)
qed simp

lemma trim_end_char_id: "s = [] \<or> last s \<noteq> c \<Longrightarrow> trim_end_char c s = s"
  by (cases "rev s") (auto simp: trim_end_char_def last_rev hd_rev [symmetric] simp del: hd_rev)

text \<open>What a canonical name looks like.\<close>

definition dns_name :: "string \<Rightarrow> bool" where
  "dns_name h \<longleftrightarrow> h \<noteq> [] \<and> length h \<le> 253 \<and> list_all dns_char h
     \<and> list_all is_valid_hostname_label (split_on (CHR ''.'') h)"

lemma canonical_dns_name: "canonical_hostname s = Some h \<Longrightarrow> dns_name h \<and> to_ascii_lowercase h = h"
proof -
  assume "canonical_hostname s = Some h"
  then have h: "h = to_ascii_lowercase (trim_end_char (CHR ''.'') (trim s))" "h \<noteq> []" "length h \<le> 253"
    and lab: "list_all is_valid_hostname_label (split_on (CHR ''.'') h)"
    by (auto simp: canonical_hostname_def Let_def split: if_splits)
  have "dns_char c" if "c \<in> set h" for c
  proof (cases "c = CHR ''.''")
    case False
    with split_on_cover [OF that] obtain p where p: "p \<in> set (split_on (CHR ''.'') h)" "c \<in> set p" by blast
    with lab have "is_label_char c" by (auto simp: list_all_iff is_valid_hostname_label_def)
    moreover have "\<not> is_ascii_upper c"
      using that h(1) not_upper_lowered by (auto simp: to_ascii_lowercase_def)
    ultimately show ?thesis by (rule label_lower_dns)
  qed (simp add: dns_char_def)
  then have "dns_name h" using h lab by (simp add: dns_name_def list_all_iff)
  then show ?thesis using h(1) to_ascii_lowercase_idem by simp
qed

lemma dns_name_canonical: "dns_name h \<Longrightarrow> canonical_hostname h = Some h"
proof -
  assume h: "dns_name h"
  then have ne: "h \<noteq> []" and len: "length h \<le> 253" and chars: "\<And>c. c \<in> set h \<Longrightarrow> dns_char c"
    and lab: "list_all is_valid_hostname_label (split_on (CHR ''.'') h)"
    by (simp_all add: dns_name_def list_all_iff)
  have "trim h = h"
    using dns_char_plain [OF chars [OF hd_in_set [OF ne]]] dns_char_plain [OF chars [OF last_in_set [OF ne]]]
    by (intro trim_id) simp
  moreover have "last h \<noteq> CHR ''.''"
  proof
    assume "last h = CHR ''.''"
    with ne have "last (split_on (CHR ''.'') h) = []" by (rule split_on_last)
    then have "[] \<in> set (split_on (CHR ''.'') h)" by (metis last_in_set split_on_not_Nil)
    with lab show False by (auto simp: list_all_iff is_valid_hostname_label_def)
  qed
  moreover have "to_ascii_lowercase h = h"
  proof -
    have "to_lower_char c = c" if "c \<in> set h" for c
      using chars [OF that]
      by (auto simp: to_lower_char_def dns_char_def is_ascii_upper_def is_ascii_lower_def is_ascii_digit_def code_in_def)
    then show ?thesis by (simp add: to_ascii_lowercase_def map_idI)
  qed
  ultimately show ?thesis using ne len lab by (simp add: canonical_hostname_def trim_end_char_id)
qed

section \<open>The names collected for the file\<close>

definition host_entry :: "endpoint_addr \<Rightarrow> string option \<Rightarrow> node \<Rightarrow> (ip_addr \<times> string list) option" where
  "host_entry local sfx n =
     (if is_daemon_node n
      then Option.bind (record_ip_for_local (node_addr n) local) (\<lambda>ip.
        map_option (\<lambda>h. (ip, names_of sfx h)) (canonical_hostname (node_domain n)))
      else None)"

lemma add_node_names_entry:
  "add_node_names local sfx n b =
     (case host_entry local sfx n of None \<Rightarrow> b | Some (ip, hs) \<Rightarrow> add_hostnames b ip hs)"
  by (auto simp: add_node_names_def host_entry_def is_daemon_node_def split: option.split)

lemma host_entry_iff:
  "host_entry local sfx n = Some (ip, hs) \<longleftrightarrow>
     is_daemon_node n \<and> record_ip_for_local (node_addr n) local = Some ip
     \<and> (\<exists>d. canonical_hostname (node_domain n) = Some d \<and> hs = names_of sfx d)"
  by (auto simp: host_entry_def bind_eq_Some_conv)

lemma set_names_of: "h \<in> set (names_of sfx d) \<longleftrightarrow> h = d \<or> (\<exists>s. sfx = Some s \<and> h = d @ ''.'' @ s)"
  by (auto simp: names_of_def split: option.split)

lemma add_hostnames_ok: "bt_ok (hb_map b) \<Longrightarrow> bt_ok (hb_map (add_hostnames b ip hs))"
  by (simp add: add_hostnames_def bt_ok_insert)

lemma entry_add_hostnames:
  "bt_ok (hb_map b) \<Longrightarrow> entry_or_default ip' (hb_map (add_hostnames b ip hs)) =
     (if ip' = ip then entry_or_default ip (hb_map b) @ hs else entry_or_default ip' (hb_map b))"
  by (simp add: add_hostnames_def entry_or_default_def bt_get_insert)

lemma add_node_names_ok: "bt_ok (hb_map b) \<Longrightarrow> bt_ok (hb_map (add_node_names local sfx n b))"
  by (auto simp: add_node_names_entry add_hostnames_ok split: option.split)

lemma builder_fold_ok: "bt_ok (hb_map b) \<Longrightarrow> bt_ok (hb_map (fold (add_node_names local sfx) ns b))"
  by (induction ns arbitrary: b) (simp_all add: add_node_names_ok)

lemma builder_fold_tag: "hb_tag (fold (add_node_names local sfx) ns b) = hb_tag b"
  by (induction ns arbitrary: b) (auto simp: add_node_names_entry add_hostnames_def split: option.split)

lemma builder_fold_names:
  "bt_ok (hb_map b) \<Longrightarrow>
   h \<in> set (entry_or_default ip (hb_map (fold (add_node_names local sfx) ns b))) \<longleftrightarrow>
      h \<in> set (entry_or_default ip (hb_map b))
      \<or> (\<exists>n \<in> set ns. \<exists>hs. host_entry local sfx n = Some (ip, hs) \<and> h \<in> set hs)"
proof (induction ns arbitrary: b)
  case (Cons n ns)
  have "h \<in> set (entry_or_default ip (hb_map (add_node_names local sfx n b))) \<longleftrightarrow>
      h \<in> set (entry_or_default ip (hb_map b)) \<or> (\<exists>hs. host_entry local sfx n = Some (ip, hs) \<and> h \<in> set hs)"
    using Cons.prems by (auto simp: add_node_names_entry entry_add_hostnames split: option.split)
  with Cons.IH [OF add_node_names_ok [OF Cons.prems]] show ?case by auto
qed simp

lemma builder_fold_ips:
  "ip \<in> fst ` set (hb_map (fold (add_node_names local sfx) ns b)) \<longleftrightarrow>
     ip \<in> fst ` set (hb_map b) \<or> (\<exists>n \<in> set ns. \<exists>hs. host_entry local sfx n = Some (ip, hs))"
proof (induction ns arbitrary: b)
  case (Cons n ns)
  have "ip \<in> fst ` set (hb_map (add_node_names local sfx n b)) \<longleftrightarrow>
      ip \<in> fst ` set (hb_map b) \<or> (\<exists>hs. host_entry local sfx n = Some (ip, hs))"
    by (auto simp: add_node_names_entry add_hostnames_def bt_insert_keys split: option.split)
  with Cons.IH [of "add_node_names local sfx n b"] show ?case by auto
qed simp

definition managed_builder :: "endpoint_addr \<Rightarrow> node list \<Rightarrow> string option \<Rightarrow> hosts_builder" where
  "managed_builder local nodes sfx =
     fold (add_node_names local (Option.bind sfx canonical_hostname)) nodes (hosts_builder_new hosts_tag)"

lemma sync_nodes_to_hosts_eq:
  "sync_nodes_to_hosts F millis p local nodes sfx d = write_to F millis (managed_builder local nodes sfx) p d"
  by (simp add: sync_nodes_to_hosts_def managed_builder_def Let_def)

lemma managed_builder_facts:
  "hb_tag (managed_builder local nodes sfx) = hosts_tag" "bt_ok (hb_map (managed_builder local nodes sfx))"
  by (simp_all add: managed_builder_def builder_fold_tag builder_fold_ok hosts_builder_new_def)

lemma hosts_entries_spec:
  "h \<in> set (entry_or_default ip (hb_map (managed_builder local nodes sfx))) \<longleftrightarrow>
   (\<exists>n \<in> set nodes. \<exists>d. is_daemon_node n \<and> record_ip_for_local (node_addr n) local = Some ip
      \<and> canonical_hostname (node_domain n) = Some d
      \<and> (h = d \<or> (\<exists>s. Option.bind sfx canonical_hostname = Some s \<and> h = d @ ''.'' @ s)))"
proof -
  have "h \<in> set (entry_or_default ip (hb_map (managed_builder local nodes sfx))) \<longleftrightarrow>
      (\<exists>n \<in> set nodes. \<exists>hs. host_entry local (Option.bind sfx canonical_hostname) n = Some (ip, hs) \<and> h \<in> set hs)"
    unfolding managed_builder_def
    by (subst builder_fold_names) (simp_all add: hosts_builder_new_def entry_or_default_def bt_get_def)
  then show ?thesis
    unfolding host_entry_iff by (metis set_names_of)
qed

text \<open>C37. What the managed section says: a name stands under an IP address exactly when some daemon
  node is reached at that address and the name is its canonical domain, or that with the canonical
  suffix; clients, nodes without an address and names that are no DNS names are left out.\<close>

theorem hosts_entries_exact:
  "h \<in> set (entry_or_default ip (hb_map (managed_builder local nodes sfx))) \<longleftrightarrow>
   (\<exists>n \<in> set nodes. \<exists>d. is_daemon_node n \<and> record_ip_for_local (node_addr n) local = Some ip
      \<and> canonical_hostname (node_domain n) = Some d
      \<and> (h = d \<or> (\<exists>s. Option.bind sfx canonical_hostname = Some s \<and> h = d @ ''.'' @ s)))"
  by (rule hosts_entries_spec)

section \<open>The lines of the section\<close>

definition plain_line :: "string \<Rightarrow> bool" where
  "plain_line l \<longleftrightarrow> list_all is_ascii l \<and> LF \<notin> set l \<and> CR \<notin> set l"

lemma plain_lineD: "plain_line l \<Longrightarrow> LF \<notin> set l \<and> utf8_ok l \<and> strip_cr l = l"
proof -
  assume l: "plain_line l"
  have "\<not> (l \<noteq> [] \<and> last l = CR)"
  proof
    assume "l \<noteq> [] \<and> last l = CR"
    then have "CR \<in> set l" by (metis last_in_set)
    with l show False unfolding plain_line_def by blast
  qed
  then have "strip_cr l = l" unfolding strip_cr_def by (rule if_not_P)
  with l show ?thesis by (simp add: plain_line_def utf8_ok_ascii)
qed

lemma markers:
  "plain_line (begin_marker hosts_tag)" "plain_line (end_marker hosts_tag)"
  "trim (begin_marker hosts_tag) = begin_marker hosts_tag" "trim (end_marker hosts_tag) = end_marker hosts_tag"
  "begin_marker hosts_tag \<noteq> end_marker hosts_tag"
  "hd (begin_marker hosts_tag) = CHR ''#''" "hd (end_marker hosts_tag) = CHR ''#''"
  "begin_marker hosts_tag \<noteq> []" "end_marker hosts_tag \<noteq> []"
proof -
  have e: "end_marker hosts_tag = ''# DO NOT EDIT p2p-ddns END''" and b: "begin_marker hosts_tag = ''# DO NOT EDIT p2p-ddns BEGIN''"
    by (simp_all add: begin_marker_def end_marker_def hosts_tag_def)
  show "plain_line (begin_marker hosts_tag)" "plain_line (end_marker hosts_tag)"
    by (simp_all add: b e plain_line_def is_ascii_def code_in_def)
  show "trim (begin_marker hosts_tag) = begin_marker hosts_tag" "trim (end_marker hosts_tag) = end_marker hosts_tag"
    unfolding b e by (rule trim_id, simp add: ws_char_def code_in_def)+
qed (simp_all add: begin_marker_def end_marker_def hosts_tag_def)

definition dns_map :: "(ip_addr \<times> string list) list \<Rightarrow> bool" where
  "dns_map m \<longleftrightarrow> (\<forall>e \<in> set m. \<forall>h \<in> set (snd e). list_all dns_char h)"

definition host_line :: "ip_addr \<times> string list \<Rightarrow> string" where
  "host_line e = show_ip (fst e) @ '' '' @ join '' '' (snd e)"

lemma host_line_plain:
  assumes "\<forall>h \<in> set hs. list_all dns_char h"
  shows "plain_line (host_line (ip, hs))" and "trim (host_line (ip, hs)) \<noteq> begin_marker hosts_tag"
    and "trim (host_line (ip, hs)) \<noteq> end_marker hosts_tag"
proof -
  let ?ok = "\<lambda>c. is_ascii c \<and> c \<noteq> LF \<and> c \<noteq> CR"
  have "list_all ?ok (show_ip ip)"
    using show_ip_chars by (auto simp: list_all_iff dest!: ip_char_plain)
  moreover have "list_all ?ok h" if "h \<in> set hs" for h
    using assms that by (auto simp: list_all_iff dest!: dns_char_plain)
  then have "list_all ?ok (join '' '' hs)"
    by (intro list_all_join) (simp_all add: is_ascii_def code_in_def)
  ultimately have "list_all ?ok (host_line (ip, hs))"
    by (simp add: host_line_def is_ascii_def code_in_def)
  then show "plain_line (host_line (ip, hs))" by (auto simp: plain_line_def list_all_iff)
  obtain c s where c: "show_ip ip = c # s" using show_ip_not_Nil by (cases "show_ip ip") auto
  then have "ip_char c" using show_ip_chars [of ip] by simp
  then have "c \<noteq> CHR ''#'' \<and> \<not> ws_char c" using ip_char_plain by blast
  then have "trim (host_line (ip, hs)) = [] \<or> hd (trim (host_line (ip, hs))) \<noteq> CHR ''#''"
    using trim_hd [of "host_line (ip, hs)"] by (auto simp: host_line_def c)
  with markers show "trim (host_line (ip, hs)) \<noteq> begin_marker hosts_tag"
    and "trim (host_line (ip, hs)) \<noteq> end_marker hosts_tag" by metis+
qed

lemma managed_dns_map: "dns_map (hb_map (managed_builder local nodes sfx))"
  unfolding dns_map_def
proof (intro ballI)
  fix e h assume e: "e \<in> set (hb_map (managed_builder local nodes sfx))" and h: "h \<in> set (snd e)"
  obtain ip hs where [simp]: "e = (ip, hs)" by force
  have "bt_get ip (hb_map (managed_builder local nodes sfx)) = Some hs"
    using e managed_builder_facts(2) by (simp add: bt_get_mem)
  then have "h \<in> set (entry_or_default ip (hb_map (managed_builder local nodes sfx)))"
    using h by (simp add: entry_or_default_def)
  then obtain n :: node and d where d: "canonical_hostname (node_domain n) = Some d"
    and "h = d \<or> (\<exists>s. Option.bind sfx canonical_hostname = Some s \<and> h = d @ ''.'' @ s)"
    unfolding hosts_entries_spec by blast
  then show "list_all dns_char h"
    using canonical_dns_name by (auto simp: bind_eq_Some_conv dns_name_def dns_char_def)
qed

text \<open>The section of a non-empty map: markers around lines that are no markers.\<close>

definition good_section :: "string list \<Rightarrow> bool" where
  "good_section ins \<longleftrightarrow> (\<exists>body. ins = begin_marker hosts_tag # body @ [end_marker hosts_tag]
     \<and> (\<forall>l \<in> set body. plain_line l \<and> trim l \<noteq> begin_marker hosts_tag \<and> trim l \<noteq> end_marker hosts_tag))"

lemma managed_section:
  assumes "hb_map (managed_builder local nodes sfx) \<noteq> []"
  shows "good_section (lines_to_insert (managed_builder local nodes sfx))"
proof -
  let ?m = "hb_map (managed_builder local nodes sfx)"
  have "lines_to_insert (managed_builder local nodes sfx)
      = begin_marker hosts_tag # map host_line ?m @ [end_marker hosts_tag]"
    using assms by (simp add: lines_to_insert_def managed_builder_facts host_line_def case_prod_beta)
  moreover have "plain_line l \<and> trim l \<noteq> begin_marker hosts_tag \<and> trim l \<noteq> end_marker hosts_tag"
    if l: "l \<in> set (map host_line ?m)" for l
  proof -
    from l obtain ip hs where "(ip, hs) \<in> set ?m" "l = host_line (ip, hs)" by force
    moreover have "\<forall>h \<in> set hs. list_all dns_char h"
      using managed_dns_map [of local nodes sfx] calculation(1) by (fastforce simp: dns_map_def)
    ultimately show ?thesis using host_line_plain by metis
  qed
  ultimately show ?thesis unfolding good_section_def by blast
qed


section \<open>Splicing\<close>

definition is_begin :: "string \<Rightarrow> bool" where "is_begin l \<longleftrightarrow> trim l = begin_marker hosts_tag"
definition is_end :: "string \<Rightarrow> bool" where "is_end l \<longleftrightarrow> trim l = end_marker hosts_tag"

lemma splice_eq:
  "splice_section hosts_tag ins lines =
     (case (position is_begin lines, position is_end lines) of
        (Some b, Some e) \<Rightarrow>
          if e + 1 < b then Inl HostsPanic
          else if drop b (take (e + 1) lines) = ins then Inr None
          else Inr (Some (take b lines @ ins @ drop b (take b lines @ drop (e + 1) lines)))
      | (None, None) \<Rightarrow> Inr (Some (lines @ (if lines \<noteq> [] \<and> last lines \<noteq> [] then [[]] else []) @ ins))
      | _ \<Rightarrow> Inl (HostsIo InvalidData))"
proof -
  have p: "(\<lambda>l. trim l = begin_marker hosts_tag) = is_begin" "(\<lambda>l. trim l = end_marker hosts_tag) = is_end"
    by (simp_all add: is_begin_def is_end_def fun_eq_iff)
  have t: "take b (take b lines @ drop (e + 1) lines) = take b lines" if "position is_begin lines = Some b" for b e
    using that by (simp add: position_Some)
  show ?thesis
    unfolding splice_section_def p Let_def
    by (auto split: option.split simp: t)
qed

text \<open>The parts a rewrite makes of the file: what stands before the section, the section (from the first
  BEGIN to the first END) and what stands after it; or no section; or, in a corner, an END with a BEGIN
  right behind it.\<close>

lemma splice_parts:
  assumes "splice_section hosts_tag ins lines = Inr (Some new)"
  obtains pre old post where "lines = pre @ old @ post" and "new = pre @ ins @ post"
      and "\<forall>l \<in> set pre. \<not> is_begin l \<and> \<not> is_end l"
      and "old \<noteq> [] \<and> is_begin (hd old) \<and> is_end (last old) \<and> (\<forall>l \<in> set (butlast old). \<not> is_end l)"
  | "new = lines @ (if lines \<noteq> [] \<and> last lines \<noteq> [] then [[]] else []) @ ins"
      and "\<forall>l \<in> set lines. \<not> is_begin l \<and> \<not> is_end l"
  | pre post where "lines = pre @ post" and "new = pre @ ins @ post" and "position is_end lines = Some (length pre - 1)"
      and "position is_begin lines = Some (length pre)" and "pre \<noteq> []" and "post \<noteq> []"
proof (cases "position is_begin lines")
  case None
  then have e: "position is_end lines = None" using assms(1) by (simp add: splice_eq split: option.splits)
  show ?thesis
    using assms(1) None e by (intro that(2)) (auto simp: splice_eq position_None)
next
  case (Some b)
  then obtain e where e: "position is_end lines = Some e" "\<not> e + 1 < b"
    using assms(1) by (auto simp: splice_eq split: option.splits if_splits)
  have len: "b < length lines" "e < length lines" and at: "is_begin (lines ! b)" "is_end (lines ! e)"
    and before: "\<forall>j < b. \<not> is_begin (lines ! j)" "\<forall>j < e. \<not> is_end (lines ! j)"
    using Some e(1) by (auto simp: position_Some)
  have new: "new = take b lines @ ins @ drop b (take b lines @ drop (e + 1) lines)"
    using assms(1) Some e by (simp add: splice_eq split: if_splits)
  show ?thesis
  proof (cases "e + 1 = b")
    case True
    then have "length (take b lines) = b" "e = b - 1" "take b lines \<noteq> []" "drop b lines \<noteq> []" using len by auto
    then show ?thesis
      using that(3) [of "take b lines" "drop b lines"] new Some e(1) True by simp
  next
    case False
    then have be: "b \<le> e" using e(2) by simp
    let ?old = "drop b (take (e + 1) lines)"
    have split: "lines = take b lines @ ?old @ drop (e + 1) lines"
    proof -
      have "take (e + 1) lines = take b lines @ ?old"
        using be by (metis append_take_drop_id le_SucI min.absorb1 Suc_eq_plus1 take_take)
      then show ?thesis by (metis append.assoc append_take_drop_id)
    qed
    have "new = take b lines @ ins @ drop (e + 1) lines" using new len by simp
    moreover have "\<forall>l \<in> set (take b lines). \<not> is_begin l \<and> \<not> is_end l"
      using before be len by (auto simp: in_set_conv_nth)
    moreover have "?old \<noteq> [] \<and> is_begin (hd ?old) \<and> is_end (last ?old)"
    proof -
      have "length lines - 1 = e" if "length lines \<le> Suc e" using that len by simp
      then show ?thesis using be len at by (simp add: hd_drop_conv_nth last_conv_nth min_def Suc_le_eq)
    qed
    moreover have "\<forall>l \<in> set (butlast ?old). \<not> is_end l"
    proof -
      have "butlast ?old = drop b (take e lines)" using len be by (simp add: butlast_drop butlast_take)
      moreover have "\<forall>l \<in> set (take e lines). \<not> is_end l" using before(2) len by (auto simp: in_set_conv_nth)
      ultimately show ?thesis by (metis in_set_dropD)
    qed
    ultimately show ?thesis using that(1) [OF split] by blast
  qed
qed

lemma section_found:
  assumes "good_section ins" and "\<forall>l \<in> set pre. \<not> is_begin l \<and> \<not> is_end l"
  shows "splice_section hosts_tag ins (pre @ ins @ post) = Inr None"
proof -
  obtain body where ins: "ins = begin_marker hosts_tag # body @ [end_marker hosts_tag]"
    and body: "\<forall>l \<in> set body. \<not> is_begin l \<and> \<not> is_end l"
    using assms(1) by (auto simp: good_section_def is_begin_def is_end_def)
  have m: "is_begin (begin_marker hosts_tag)" "is_end (end_marker hosts_tag)" "\<not> is_end (begin_marker hosts_tag)"
    using markers by (simp_all add: is_begin_def is_end_def)
  have b: "position is_begin (pre @ ins @ post) = Some (length pre)"
    using assms(2) m by (simp add: position_append ins)
  have "position is_end ((pre @ begin_marker hosts_tag # body) @ end_marker hosts_tag # post)
      = Some (length pre + length body + 1)"
    using assms(2) body m by (subst position_append) auto
  then have e: "position is_end (pre @ ins @ post) = Some (length pre + length body + 1)"
    by (simp add: ins)
  show ?thesis by (simp add: splice_eq b e) (simp add: ins)
qed


section \<open>Writing\<close>

lemma temp_path_differs: "get_temp_path t p = Inr tp \<Longrightarrow> tp \<noteq> p"
proof -
  assume "get_temp_path t p = Inr tp"
  then obtain f q where f: "p \<noteq> []" "last p = Normal f" and "tp = q @ [Normal (f @ ''.tmp'' @ show_nat (nat t))]"
    by (auto simp: get_temp_path_def path_file_name_def with_file_name_def split: option.splits if_splits comp.splits)
  then have "last tp \<noteq> last p" by simp
  then show ?thesis by blast
qed

lemma write_file_cases:
  "write_file F oc wc p s d = (d', r) \<Longrightarrow>
     fs_is_dir d' = fs_is_dir d \<and> (\<forall>q. q \<noteq> p \<longrightarrow> fs_files d' q = fs_files d q)
     \<and> (r = Inr () \<and> fs_files d' p = Some s
        \<or> r = Inl (HostsIo OtherIo) \<and> (fs_files d' p = fs_files d p \<and> fs_fails F oc
            \<or> fs_files d' p = Some (take (written F wc) s) \<and> fs_fails F wc))"
  by (auto simp: write_file_def put_file_def split: if_splits)

lemma write_and_swap_cases:
  assumes "write_and_swap F tp p s d = (d', r)" and "tp \<noteq> p"
  shows "fs_is_dir d' = fs_is_dir d" and "q \<noteq> p \<Longrightarrow> q \<noteq> tp \<Longrightarrow> fs_files d' q = fs_files d q"
    and "(r = Inr () \<and> fs_files d' p = Some s \<and> fs_files d' tp = None)
      \<or> ((\<exists>e. r = Inl e) \<and> fs_files d' p = fs_files d p)"
  using assms
  by (auto simp: write_and_swap_def put_file_def Let_def split: option.splits if_splits sum.splits prod.splits
      dest!: write_file_cases)

text \<open>Content of the file when the rewrite starts: a missing file is created empty.\<close>

definition content_of :: "fs \<Rightarrow> path \<Rightarrow> string" where
  "content_of d p = (case fs_files d p of Some s \<Rightarrow> s | None \<Rightarrow> [])"

definition touched :: "fs \<Rightarrow> path \<Rightarrow> fs" where
  "touched d p = (if fs_files d p = None then put_file p [] d else d)"

lemma touched_facts [simp]:
  "fs_files (touched d p) p = Some (content_of d p)" "fs_is_dir (touched d p) = fs_is_dir d"
  "q \<noteq> p \<Longrightarrow> fs_files (touched d p) q = fs_files d q"
  by (auto simp: touched_def content_of_def put_file_def)

lemma write_to_eq:
  "write_to F t b p d =
     (if fs_is_dir d p then (d, Inl (HostsIo IsADirectory))
      else case get_temp_path t p of
          Inl e \<Rightarrow> (d, Inl e)
        | Inr tp \<Rightarrow>
            if fs_fails F OpenHosts then (d, Inl (HostsIo OtherIo))
            else if fs_fails F ReadHosts then (touched d p, Inl HostsPanic)
            else case lines_unwrap (content_of d p) of
                None \<Rightarrow> (touched d p, Inl HostsPanic)
              | Some lines \<Rightarrow>
                  (case splice_section (hb_tag b) (lines_to_insert b) lines of
                     Inl e \<Rightarrow> (touched d p, Inl e)
                   | Inr None \<Rightarrow> (touched d p, Inr False)
                   | Inr (Some new) \<Rightarrow>
                       (case write_and_swap F tp p (write_lines new) (touched d p) of
                          (d1, Inr u) \<Rightarrow> (d1, Inr True)
                        | (d1, Inl e) \<Rightarrow>
                            (case write_clobber F p (write_lines new) d1 of
                               (d2, Inl e) \<Rightarrow> (d2, Inl e) | (d2, Inr u) \<Rightarrow> (d2, Inr True)))))"
proof -
  have t: "(if fs_files d p = None then put_file p [] d else d) = touched d p" by (simp add: touched_def)
  have c: "the (fs_files (touched d p) p) = content_of d p" by simp
  show ?thesis
    unfolding write_to_def Let_def t c
    by (auto split: option.split sum.split prod.split)
qed

lemma write_to_Inr:
  assumes "write_to F t b p d = (d', Inr changed)"
  obtains tp lines where "get_temp_path t p = Inr tp" and "tp \<noteq> p" and "\<not> fs_is_dir d p"
    and "lines_unwrap (content_of d p) = Some lines" and "fs_is_dir d' = fs_is_dir d"
    and "(\<not> changed \<and> splice_section (hb_tag b) (lines_to_insert b) lines = Inr None \<and> d' = touched d p)
      \<or> (\<exists>new. changed \<and> splice_section (hb_tag b) (lines_to_insert b) lines = Inr (Some new)
          \<and> fs_files d' p = Some (write_lines new))"
proof -
  obtain tp lines where tp: "get_temp_path t p = Inr tp" and nd: "\<not> fs_is_dir d p"
    and ls: "lines_unwrap (content_of d p) = Some lines"
    using assms by (auto simp: write_to_eq split: if_splits sum.splits option.splits)
  have ne: "tp \<noteq> p" using tp by (rule temp_path_differs)
  obtain res where res: "splice_section (hb_tag b) (lines_to_insert b) lines = Inr res"
    using assms tp nd ls by (auto simp: write_to_eq split: if_splits sum.splits)
  show ?thesis
  proof (cases res)
    case None
    with assms tp nd ls res show ?thesis
      by (intro that [OF tp ne nd ls]) (auto simp: write_to_eq split: if_splits)
  next
    case (Some new)
    obtain d1 r1 where w1: "write_and_swap F tp p (write_lines new) (touched d p) = (d1, r1)" by force
    note c1 = write_and_swap_cases [OF w1 ne]
    obtain d2 r2 where w2: "write_clobber F p (write_lines new) d1 = (d2, r2)" by force
    note c2 = write_file_cases [OF w2 [unfolded write_clobber_def]]
    have "changed \<and> fs_is_dir d' = fs_is_dir d \<and> fs_files d' p = Some (write_lines new)"
      using assms tp nd ls res Some w1 w2 c1 c2
      by (cases r1; cases r2) (auto simp: write_to_eq split: if_splits)
    then show ?thesis using res Some by (intro that [OF tp ne nd ls]) auto
  qed
qed


section \<open>Properties of a rewrite\<close>

text \<open>The corner in which the source finds a section that ends right before it begins.\<close>

definition end_then_begin :: "string list \<Rightarrow> bool" where
  "end_then_begin lines \<longleftrightarrow> (\<exists>e. position is_end lines = Some e \<and> position is_begin lines = Some (Suc e))"

lemma rewritten_lines:
  assumes "write_to F t b p d = (d', Inr True)" and "hb_tag b = hosts_tag"
  obtains lines new where "lines_unwrap (content_of d p) = Some lines" and "lines = buf_lines (content_of d p)"
    and "splice_section hosts_tag (lines_to_insert b) lines = Inr (Some new)" and "fs_files d' p = Some (write_lines new)"
  using assms(1)
  by (rule write_to_Inr) (use assms(2) in \<open>auto simp: lines_unwrap_def split: if_splits intro: that\<close>)

text \<open>C35. A rewrite leaves the rest of the file alone. The lines of the file are those before the section,
  the section, and those after it, and in the new file the section stands in the place of the old
  one. The old section reaches from the first BEGIN marker to the first END marker of the file, and no
  further; where there was none, the new one is appended, after one empty line if the last line was
  not empty. In one corner, a file whose first END marker has the first BEGIN marker in the next line,
  the new section goes between the two and nothing is removed. Lines are compared as they are read,
  without their line ends: each is written back with a line feed, so a file with CRLF line ends loses
  the carriage returns. A file without carriage returns is exactly those lines, but for a line feed
  at its end. The builder is one of the daemon's own section.\<close>

theorem hosts_rest_preserved:
  assumes "write_to F t b p d = (d', Inr True)" and "hb_tag b = hosts_tag"
  shows "\<exists>pre old gap post. buf_lines (content_of d p) = pre @ old @ post
    \<and> fs_files d' p = Some (write_lines (pre @ gap @ lines_to_insert b @ post))
    \<and> (\<forall>l \<in> set pre. \<not> is_begin l)
    \<and> (gap = [] \<and> old \<noteq> [] \<and> is_begin (hd old) \<and> is_end (last old) \<and> (\<forall>l \<in> set (pre @ butlast old). \<not> is_end l)
       \<or> old = [] \<and> post = [] \<and> gap = (if pre \<noteq> [] \<and> last pre \<noteq> [] then [[]] else []) \<and> (\<forall>l \<in> set pre. \<not> is_end l)
       \<or> old = [] \<and> gap = [] \<and> pre \<noteq> [] \<and> is_end (last pre) \<and> (\<forall>l \<in> set (butlast pre). \<not> is_end l)
           \<and> post \<noteq> [] \<and> is_begin (hd post))
    \<and> (CR \<notin> set (content_of d p) \<longrightarrow> write_lines (pre @ old @ post) \<in> {content_of d p, content_of d p @ [LF]})"
proof -
  obtain lines new where l: "lines = buf_lines (content_of d p)"
    and sp: "splice_section hosts_tag (lines_to_insert b) lines = Inr (Some new)" and f: "fs_files d' p = Some (write_lines new)"
    using assms by (rule rewritten_lines)
  have bytes: "CR \<notin> set (content_of d p) \<longrightarrow> write_lines lines \<in> {content_of d p, content_of d p @ [LF]}"
    using write_lines_buf_lines [of "content_of d p"] l by simp
  from sp show ?thesis
  proof (rule splice_parts)
    fix pre old post
    assume 1: "lines = pre @ old @ post" "new = pre @ lines_to_insert b @ post" "\<forall>l \<in> set pre. \<not> is_begin l \<and> \<not> is_end l"
      "old \<noteq> [] \<and> is_begin (hd old) \<and> is_end (last old) \<and> (\<forall>l \<in> set (butlast old). \<not> is_end l)"
    show ?thesis
      by (rule exI [of _ pre], rule exI [of _ old], rule exI [of _ "[]"], rule exI [of _ post]) (use 1 l f bytes in auto)
  next
    let ?gap = "if lines \<noteq> [] \<and> last lines \<noteq> [] then [[]] else []"
    assume 1: "new = lines @ ?gap @ lines_to_insert b" "\<forall>l \<in> set lines. \<not> is_begin l \<and> \<not> is_end l"
    show ?thesis
      by (rule exI [of _ lines], rule exI [of _ "[]"], rule exI [of _ ?gap], rule exI [of _ "[]"]) (use 1 l f bytes in simp)
  next
    fix pre post
    assume 1: "lines = pre @ post" "new = pre @ lines_to_insert b @ post" "position is_end lines = Some (length pre - 1)"
      "position is_begin lines = Some (length pre)" "pre \<noteq> []" "post \<noteq> []"
    have "is_begin (hd post)" "\<forall>l \<in> set pre. \<not> is_begin l"
      using 1(1,4,6) by (auto simp: position_Some nth_append hd_conv_nth in_set_conv_nth)
    moreover have "is_end (last pre)" using 1(1,3,5) by (simp add: position_Some nth_append last_conv_nth)
    moreover have before: "\<forall>j < length pre - 1. \<not> is_end (lines ! j)" using 1(3) by (simp add: position_Some)
    have "\<not> is_end (pre ! j)" if "j < length pre - 1" for j
    proof -
      have "j < length pre" using that by linarith
      then have "lines ! j = pre ! j" by (simp add: 1(1) nth_append)
      with before that show ?thesis by metis
    qed
    then have "\<forall>l \<in> set (butlast pre). \<not> is_end l" by (auto simp: in_set_conv_nth nth_butlast)
    ultimately have 2: "is_begin (hd post)" "\<forall>l \<in> set pre. \<not> is_begin l" "is_end (last pre)" "\<forall>l \<in> set (butlast pre). \<not> is_end l"
      by blast+
    show ?thesis
      by (rule exI [of _ pre], rule exI [of _ "[]"], rule exI [of _ "[]"], rule exI [of _ post]) (use 1 2 l f bytes in simp)
  qed
qed

text \<open>A hosts file with one record and no section, and a daemon called a at 0.0.0.1.\<close>

definition demo_fs :: fs where
  "demo_fs = \<lparr>fs_files = [[RootDir, Normal ''etc'', Normal ''hosts''] \<mapsto> ''::1 me'' @ [LF]], fs_is_dir = (\<lambda>p. False)\<rparr>"

definition no_faults :: fs_faults where
  "no_faults = \<lparr>fs_fails = (\<lambda>c. False), copied = None, written = (\<lambda>c. 0)\<rparr>"

definition etc_hosts :: path where
  "etc_hosts = [RootDir, Normal ''etc'', Normal ''hosts'']"

lemma demo_hosts_content: "content_of demo_fs etc_hosts = ''::1 me'' @ [LF]"
  by (simp add: content_of_def demo_fs_def etc_hosts_def)

lemma demo_hosts_lines: "buf_lines (content_of demo_fs etc_hosts) = [''::1 me'']"
  "lines_unwrap (content_of demo_fs etc_hosts) = Some [''::1 me'']"
proof -
  have "plain_line ''::1 me''" by (simp add: plain_line_def is_ascii_def code_in_def)
  then have "LF \<notin> set ''::1 me'' \<and> utf8_ok ''::1 me'' \<and> strip_cr ''::1 me'' = ''::1 me''" by (rule plain_lineD)
  moreover have "content_of demo_fs etc_hosts = write_lines [''::1 me'']"
    by (simp add: demo_hosts_content write_lines_def)
  ultimately show "buf_lines (content_of demo_fs etc_hosts) = [''::1 me'']"
    "lines_unwrap (content_of demo_fs etc_hosts) = Some [''::1 me'']"
    using buf_lines_write_lines [of "[''::1 me'']"] lines_write_lines [of "[''::1 me'']"] by (simp_all del: utf8_ok_def)
qed

lemma demo_hosts_unmarked: "position is_begin [''::1 me''] = None" "position is_end [''::1 me''] = None"
proof -
  have "trim ''::1 me'' = ''::1 me''" by (rule trim_id) (simp add: ws_char_def code_in_def)
  then show "position is_begin [''::1 me''] = None" "position is_end [''::1 me''] = None"
    by (simp_all add: is_begin_def is_end_def begin_marker_def end_marker_def)
qed


lemma write_to_no_faults:
  assumes "\<not> fs_is_dir d p" and "get_temp_path t p = Inr tp" and "lines_unwrap (content_of d p) = Some lines"
    and "splice_section (hb_tag b) (lines_to_insert b) lines = Inr (Some new)"
  shows "\<exists>d'. write_to no_faults t b p d = (d', Inr True)"
proof -
  have "\<exists>d1. write_and_swap no_faults tp p s (touched d p) = (d1, Inr ())" for s
    by (simp add: write_and_swap_def no_faults_def write_file_def Let_def)
  then obtain d1 where "write_and_swap no_faults tp p (write_lines new) (touched d p) = (d1, Inr ())" by blast
  with assms show ?thesis by (simp add: write_to_eq) (simp add: no_faults_def)
qed

lemma demo_temp_path: "\<exists>tp. get_temp_path 5 etc_hosts = Inr tp"
  by (simp add: get_temp_path_def etc_hosts_def path_parent_def path_file_name_def)

theorem hosts_rest_preserved_witness:
  "\<exists>d'. write_to no_faults 5 (hosts_builder_new hosts_tag) etc_hosts demo_fs = (d', Inr True)
     \<and> fs_files d' etc_hosts = Some (write_lines [''::1 me'', []])"
proof -
  have "splice_section hosts_tag [] [''::1 me''] = Inr (Some ([''::1 me''] @ [[]] @ []))"
    unfolding splice_eq demo_hosts_unmarked by simp
  moreover have "\<not> fs_is_dir demo_fs etc_hosts" by (simp add: demo_fs_def)
  ultimately obtain d' where w: "write_to no_faults 5 (hosts_builder_new hosts_tag) etc_hosts demo_fs = (d', Inr True)"
    using demo_temp_path write_to_no_faults [of demo_fs etc_hosts 5 _ "[''::1 me'']" "hosts_builder_new hosts_tag"] demo_hosts_lines(2)
    by (auto simp: hosts_builder_new_def lines_to_insert_def)
  have "hb_tag (hosts_builder_new hosts_tag) = hosts_tag" by (simp add: hosts_builder_new_def)
  from hosts_rest_preserved [OF w this] obtain pre old gap post where
    l: "[''::1 me''] = pre @ old @ post" and f: "fs_files d' etc_hosts = Some (write_lines (pre @ gap @ post))"
    and g: "gap = [] \<and> old \<noteq> [] \<and> is_begin (hd old)
       \<or> old = [] \<and> post = [] \<and> gap = (if pre \<noteq> [] \<and> last pre \<noteq> [] then [[]] else [])
       \<or> old = [] \<and> pre \<noteq> [] \<and> is_end (last pre)"
    by (auto simp: demo_hosts_lines lines_to_insert_def hosts_builder_new_def)
  have unmarked: "\<not> is_begin x \<and> \<not> is_end x" if "x \<in> set (pre @ old @ post)" for x
    using that demo_hosts_unmarked unfolding l [symmetric] position_None by blast
  have "\<not> (old \<noteq> [] \<and> is_begin (hd old))" using unmarked [of "hd old"] by auto
  moreover have "\<not> (pre \<noteq> [] \<and> is_end (last pre))" using unmarked [of "last pre"] by auto
  ultimately have "old = []" "post = []" "gap = (if pre \<noteq> [] \<and> last pre \<noteq> [] then [[]] else [])" using g by blast+
  with l f have "fs_files d' etc_hosts = Some (write_lines [''::1 me'', []])" by auto
  with w show ?thesis by blast
qed

text \<open>C36. Writing the same section again finds nothing to do: after a successful synchronisation with at
  least one record, another one with the same data, with whatever clock, reports no change and
  leaves every file as it is, as long as it can open and read the hosts file. The file must not have
  had a line with two carriage returns or a section that ends right before it begins.\<close>

theorem hosts_sync_idempotent:
  assumes "sync_nodes_to_hosts F t p local nodes sfx d = (d', Inr changed)"
    and "hb_map (managed_builder local nodes sfx) \<noteq> []"
    and "\<not> end_then_begin (buf_lines (content_of d p))"
    and "\<forall>l \<in> set (buf_lines (content_of d p)). strip_cr l = l"
    and "\<not> fs_fails F' OpenHosts" and "\<not> fs_fails F' ReadHosts" and "0 \<le> t'"
  shows "sync_nodes_to_hosts F' t' p local nodes sfx d' = (d', Inr False)"
proof -
  let ?b = "managed_builder local nodes sfx"
  let ?ins = "lines_to_insert ?b"
  have tag: "hb_tag ?b = hosts_tag" by (rule managed_builder_facts)
  note w = assms(1) [unfolded sync_nodes_to_hosts_eq]
  obtain tp lines where tp: "get_temp_path t p = Inr tp" and nd: "\<not> fs_is_dir d p"
    and ls: "lines_unwrap (content_of d p) = Some lines" and dirs: "fs_is_dir d' = fs_is_dir d"
    and res: "(\<not> changed \<and> splice_section hosts_tag ?ins lines = Inr None \<and> d' = touched d p)
      \<or> (\<exists>new. changed \<and> splice_section hosts_tag ?ins lines = Inr (Some new) \<and> fs_files d' p = Some (write_lines new))"
    by (rule write_to_Inr [OF w, unfolded tag])
  have lines: "lines = buf_lines (content_of d p)" using ls by (auto simp: lines_unwrap_def split: if_splits)
  have good: "good_section ?ins" using assms(2) by (rule managed_section)
  have again: "lines_unwrap (content_of d' p) = Some ls' \<and> splice_section hosts_tag ?ins ls' = Inr None \<and> touched d' p = d'"
    if "\<not> changed \<and> ls' = lines \<or> changed \<and> splice_section hosts_tag ?ins lines = Inr (Some ls')" for ls'
  proof (cases changed)
    case False
    then have "d' = touched d p" "splice_section hosts_tag ?ins lines = Inr None" using res by auto
    then show ?thesis
      using False that ls by (cases "fs_files d p") (simp_all add: content_of_def touched_def put_file_def)
  next
    case True
    then have sp: "splice_section hosts_tag ?ins lines = Inr (Some ls')" and f: "fs_files d' p = Some (write_lines ls')"
      using res that by auto
    have old: "LF \<notin> set l \<and> utf8_ok l \<and> strip_cr l = l" if "l \<in> set lines" for l
      using that assms(4) lines buf_lines_no_LF lines_unwrap_utf8 [OF ls] by blast
    have new: "LF \<notin> set l \<and> utf8_ok l \<and> strip_cr l = l" if "l \<in> set ?ins" for l
      using that good markers(1,2) plain_lineD by (auto simp: good_section_def)
    have nec: "\<not> (\<exists>e. position is_end lines = Some e \<and> position is_begin lines = Some (Suc e))"
      using assms(3) lines by (simp add: end_then_begin_def)
    have all: "(\<forall>l \<in> set ls'. LF \<notin> set l \<and> utf8_ok l \<and> strip_cr l = l) \<and> splice_section hosts_tag ?ins ls' = Inr None"
      using sp
    proof (rule splice_parts)
      fix pre old' post
      assume 1: "lines = pre @ old' @ post" "ls' = pre @ ?ins @ post" "\<forall>l \<in> set pre. \<not> is_begin l \<and> \<not> is_end l"
      have "l \<in> set lines \<or> l \<in> set ?ins" if "l \<in> set ls'" for l using that 1 by auto
      then show ?thesis using old new section_found [OF good 1(3)] 1(2) by metis
    next
      define gap :: "string list" where "gap = (if lines \<noteq> [] \<and> last lines \<noteq> [] then [[]] else [])"
      assume "ls' = lines @ (if lines \<noteq> [] \<and> last lines \<noteq> [] then [[]] else []) @ ?ins"
        and "\<forall>l \<in> set lines. \<not> is_begin l \<and> \<not> is_end l"
      then have 1: "ls' = lines @ gap @ ?ins" "gap \<in> {[], [[]]}" "\<forall>l \<in> set lines. \<not> is_begin l \<and> \<not> is_end l"
        by (simp_all add: gap_def)
      have nb: "\<forall>l \<in> set (lines @ gap). \<not> is_begin l \<and> \<not> is_end l"
        using 1(2,3) markers(8,9) by (auto simp: is_begin_def is_end_def trim_id)
      have "l \<in> set lines \<or> l \<in> set ?ins \<or> l = []" if "l \<in> set ls'" for l using that 1 by auto
      moreover have "LF \<notin> set [] \<and> utf8_ok [] \<and> strip_cr [] = []" by (simp add: strip_cr_def)
      moreover have "splice_section hosts_tag ?ins ls' = Inr None"
        using section_found [OF good nb, of "[]"] 1(1) by simp
      ultimately show ?thesis using old new by metis
    next
      fix pre post :: "string list"
      assume "position is_end lines = Some (length pre - 1)" "position is_begin lines = Some (length pre)" "pre \<noteq> []"
      then have False using nec by (metis Suc_pred length_greater_0_conv One_nat_def)
      then show ?thesis ..
    qed
    have "map strip_cr ls' = ls'" using all by (simp add: map_idI)
    moreover have "lines_unwrap (write_lines ls') = Some (map strip_cr ls')"
      using all by (intro lines_write_lines) blast
    ultimately show ?thesis using f all by (simp add: content_of_def touched_def)
  qed
  obtain ls' where "\<not> changed \<and> ls' = lines \<or> changed \<and> splice_section hosts_tag ?ins lines = Inr (Some ls')"
    using res by blast
  note a = again [OF this]
  obtain tp' where "get_temp_path t' p = Inr tp'"
    using tp assms(7) by (auto simp: get_temp_path_def split: option.splits if_splits)
  with a assms(5,6) nd dirs tag show ?thesis
    by (simp add: sync_nodes_to_hosts_eq write_to_eq)
qed


definition alpha_nodes :: "node list" where
  "alpha_nodes = [sample_node 2 2 ''alpha'' 10]"

lemma alpha_canonical: "canonical_hostname ''alpha'' = Some ''alpha''"
  by (rule dns_name_canonical)
    (simp add: dns_name_def dns_char_def is_ascii_lower_def code_in_def is_valid_hostname_label_def
      starts_with_def ends_with_def is_label_char_def is_ascii_alphanumeric_def suffix_def)

lemma alpha_listed: "hb_map (managed_builder (ea_new (EndpointId 1)) alpha_nodes None) \<noteq> []"
proof -
  have ip: "record_ip_for_local (node_addr (sample_node 2 2 ''alpha'' 10)) (ea_new (EndpointId 1)) = Some (IpV4 2)"
    by (simp add: record_ip_for_local_def best_endpoint_addr_for_local_def sample_node_def)
  have "host_entry (ea_new (EndpointId 1)) None (sample_node 2 2 ''alpha'' 10) = Some (IpV4 2, names_of None ''alpha'')"
    unfolding host_entry_iff using ip alpha_canonical
    by (simp add: sample_node_def is_daemon_node_def has_client_marker_def)
  then have "IpV4 2 \<in> fst ` set (hb_map (managed_builder (ea_new (EndpointId 1)) alpha_nodes None))"
    unfolding managed_builder_def builder_fold_ips alpha_nodes_def by simp
  then show ?thesis by auto
qed

theorem hosts_sync_idempotent_witness:
  "\<exists>d'. sync_nodes_to_hosts no_faults 5 etc_hosts (ea_new (EndpointId 1)) alpha_nodes None demo_fs = (d', Inr True)
     \<and> sync_nodes_to_hosts no_faults 9 etc_hosts (ea_new (EndpointId 1)) alpha_nodes None d' = (d', Inr False)"
proof -
  let ?b = "managed_builder (ea_new (EndpointId 1)) alpha_nodes None"
  have "splice_section hosts_tag (lines_to_insert ?b) [''::1 me''] = Inr (Some ([''::1 me''] @ [[]] @ lines_to_insert ?b))"
    unfolding splice_eq demo_hosts_unmarked by simp
  moreover have "\<not> fs_is_dir demo_fs etc_hosts" by (simp add: demo_fs_def)
  ultimately obtain d' where w: "write_to no_faults 5 ?b etc_hosts demo_fs = (d', Inr True)"
    using demo_temp_path write_to_no_faults [of demo_fs etc_hosts 5 _ "[''::1 me'']" ?b] demo_hosts_lines(2)
    by (auto simp: managed_builder_facts)
  then have s: "sync_nodes_to_hosts no_faults 5 etc_hosts (ea_new (EndpointId 1)) alpha_nodes None demo_fs = (d', Inr True)"
    by (simp add: sync_nodes_to_hosts_eq)
  have c: "\<not> end_then_begin (buf_lines (content_of demo_fs etc_hosts))"
    by (simp only: end_then_begin_def demo_hosts_lines demo_hosts_unmarked option.distinct simp_thms)
  have cr: "\<forall>l \<in> set (buf_lines (content_of demo_fs etc_hosts)). strip_cr l = l"
    by (simp add: demo_hosts_lines strip_cr_def)
  have f: "\<not> fs_fails no_faults OpenHosts" "\<not> fs_fails no_faults ReadHosts" "(0::int) \<le> 9"
    by (simp_all add: no_faults_def)
  from hosts_sync_idempotent [OF s alpha_listed c cr f] s show ?thesis by blast
qed



text \<open>C38. What a failure leaves: when a rewrite returns an error or panics, the hosts file has the content
  it had (a missing file counts as empty), unless the fallback that writes it in place was cut short: then it holds exactly the bytes
  already written of the new content, which is the spliced lines, and the rest of the file is lost.
  Files other than it and the temporary one are never touched.\<close>

theorem hosts_failure_outcome:
  assumes "write_to F t b p d = (d', Inl e)"
  shows "(content_of d' p = content_of d p
      \<or> (\<exists>lines new. lines_unwrap (content_of d p) = Some lines
          \<and> splice_section (hb_tag b) (lines_to_insert b) lines = Inr (Some new)
          \<and> fs_files d' p = Some (take (written F WriteClobber) (write_lines new)) \<and> fs_fails F WriteClobber))
    \<and> (q \<noteq> p \<and> get_temp_path t p \<noteq> Inr q \<longrightarrow> fs_files d' q = fs_files d q)"
proof (cases "d' = d \<or> d' = touched d p")
  case True
  moreover have "content_of (touched d p) p = content_of d p"
    by (cases "fs_files d p") (simp_all add: content_of_def touched_def put_file_def)
  ultimately show ?thesis by auto
next
  case False
  then obtain tp lines new d1 e1 where tp: "get_temp_path t p = Inr tp"
    and new: "lines_unwrap (content_of d p) = Some lines" "splice_section (hb_tag b) (lines_to_insert b) lines = Inr (Some new)"
    and w1: "write_and_swap F tp p (write_lines new) (touched d p) = (d1, Inl e1)"
    and w2: "write_clobber F p (write_lines new) d1 = (d', Inl e)"
    using assms by (auto simp: write_to_eq split: if_splits sum.splits option.splits prod.splits)
  have ne: "tp \<noteq> p" using tp by (rule temp_path_differs)
  note c1 = write_and_swap_cases [OF w1 ne]
  note c2 = write_file_cases [OF w2 [unfolded write_clobber_def]]
  have "fs_files d1 p = Some (content_of d p)" using c1(3) by auto
  then have "content_of d' p = content_of d p
      \<or> fs_files d' p = Some (take (written F WriteClobber) (write_lines new)) \<and> fs_fails F WriteClobber"
    using c2 by (auto simp: content_of_def)
  moreover have "fs_files d' q = fs_files d q" if "q \<noteq> p" "q \<noteq> tp"
    using c1(2) [OF that] c2 that by simp
  ultimately show ?thesis using tp new by auto
qed

text \<open>Where the temporary file goes: not beside the hosts file but in the directory above its
  directory; and when the swap fails at the rename, as it does for a bind-mounted hosts file, the
  update succeeds by writing in place and leaves the temporary file, with a full copy of the
  content, behind for good.\<close>

theorem hosts_temp_file_litters:
  assumes "p = base @ [Normal sub, Normal f]" and "0 \<le> t" and "fs_fails F = (\<lambda>c. c = RenameTemp)"
    and "write_to F t b p d = (d', Inr True)"
  shows "get_temp_path t p = Inr (base @ [Normal (f @ ''.tmp'' @ show_nat (nat t))])
    \<and> fs_files d' (base @ [Normal (f @ ''.tmp'' @ show_nat (nat t))]) = fs_files d' p"
proof -
  let ?tp = "base @ [Normal (f @ ''.tmp'' @ show_nat (nat t))]"
  have tp: "get_temp_path t p = Inr ?tp"
    using assms(1,2) by (simp add: get_temp_path_def path_parent_def path_file_name_def with_file_name_def butlast_append)
  have ne: "?tp \<noteq> p" using tp by (rule temp_path_differs)
  obtain lines new where ls: "lines_unwrap (content_of d p) = Some lines"
    and sp: "splice_section (hb_tag b) (lines_to_insert b) lines = Inr (Some new)"
    using assms(4) by (elim write_to_Inr) auto
  let ?s = "write_lines new"
  have "write_and_swap F ?tp p ?s (touched d p) = (put_file ?tp ?s (put_file ?tp (content_of d p) (touched d p)), Inl (HostsIo OtherIo))"
    using assms(3) by (simp add: write_and_swap_def write_file_def Let_def)
  moreover have "write_clobber F p ?s x = (put_file p ?s x, Inr ())" for x
    using assms(3) by (simp add: write_clobber_def write_file_def)
  ultimately have "d' = put_file p ?s (put_file ?tp ?s (put_file ?tp (content_of d p) (touched d p)))"
    using assms(3,4) tp ls sp by (simp add: write_to_eq split: if_splits)
  then show ?thesis using tp ne by (auto simp: put_file_def)
qed


lemma demo_clear:
  assumes "\<not> fs_fails F OpenHosts" and "\<not> fs_fails F ReadHosts"
  shows "write_to F 5 (hosts_builder_new hosts_tag) etc_hosts demo_fs =
    (let tp = [RootDir, Normal (''hosts.tmp'' @ show_nat 5)]; s = write_lines [''::1 me'', []]
     in case write_and_swap F tp etc_hosts s demo_fs of
          (d1, Inr u) \<Rightarrow> (d1, Inr True)
        | (d1, Inl e) \<Rightarrow> (case write_clobber F etc_hosts s d1 of (d2, Inl e) \<Rightarrow> (d2, Inl e) | (d2, Inr u) \<Rightarrow> (d2, Inr True)))"
proof -
  have tp: "get_temp_path 5 etc_hosts = Inr [RootDir, Normal (''hosts.tmp'' @ show_nat 5)]"
    by (simp add: get_temp_path_def etc_hosts_def path_parent_def path_file_name_def with_file_name_def)
  have sp: "splice_section hosts_tag [] [''::1 me''] = Inr (Some [''::1 me'', []])"
    unfolding splice_eq demo_hosts_unmarked by simp
  have d: "touched demo_fs etc_hosts = demo_fs" "\<not> fs_is_dir demo_fs etc_hosts"
    by (simp_all add: touched_def demo_fs_def etc_hosts_def)
  have b: "lines_to_insert (hosts_builder_new hosts_tag) = []" "hb_tag (hosts_builder_new hosts_tag) = hosts_tag"
    by (simp_all add: lines_to_insert_def hosts_builder_new_def)
  show ?thesis
    using assms unfolding write_to_eq tp d b demo_hosts_lines Let_def by (simp add: sp d)
qed

definition mounted :: fs_faults where
  "mounted = \<lparr>fs_fails = (\<lambda>c. c = RenameTemp), copied = None, written = (\<lambda>c. 0)\<rparr>"

definition disk_full :: fs_faults where
  "disk_full = \<lparr>fs_fails = (\<lambda>c. c = WriteTemp \<or> c = WriteClobber), copied = None, written = (\<lambda>c. 2)\<rparr>"

theorem hosts_temp_file_litters_witness:
  "\<exists>d'. write_to mounted 5 (hosts_builder_new hosts_tag) etc_hosts demo_fs = (d', Inr True)
     \<and> fs_files d' [RootDir, Normal (''hosts.tmp'' @ show_nat 5)] = fs_files d' etc_hosts"
proof -
  obtain d' where w: "write_to mounted 5 (hosts_builder_new hosts_tag) etc_hosts demo_fs = (d', Inr True)"
    using demo_clear [of mounted]
    by (auto simp: mounted_def write_and_swap_def write_file_def write_clobber_def Let_def demo_fs_def etc_hosts_def)
  have p: "etc_hosts = [RootDir] @ [Normal ''etc'', Normal ''hosts'']" by (simp add: etc_hosts_def)
  have F: "fs_fails mounted = (\<lambda>c. c = RenameTemp)" by (simp add: mounted_def)
  from hosts_temp_file_litters [OF p _ F w] w show ?thesis by simp
qed

theorem hosts_failure_outcome_witness:
  "\<exists>d' e. write_to disk_full 5 (hosts_builder_new hosts_tag) etc_hosts demo_fs = (d', Inl e)
     \<and> content_of d' etc_hosts = ''::'' \<and> fs_files d' [Normal ''other''] = None"
proof -
  let ?s = "write_lines [''::1 me'', []]"
  obtain d' e where w: "write_to disk_full 5 (hosts_builder_new hosts_tag) etc_hosts demo_fs = (d', Inl e)"
    and c: "fs_files d' etc_hosts = Some (take 2 ?s)"
    using demo_clear [of disk_full]
    by (auto simp: disk_full_def write_and_swap_def write_file_def write_clobber_def Let_def demo_fs_def etc_hosts_def put_file_def)
  have "[Normal ''other''] \<noteq> etc_hosts" "get_temp_path 5 etc_hosts \<noteq> Inr [Normal ''other'']"
    by (simp_all add: etc_hosts_def get_temp_path_def path_parent_def path_file_name_def with_file_name_def)
  with hosts_failure_outcome [OF w, of "[Normal ''other'']"]
  have "fs_files d' [Normal ''other''] = fs_files demo_fs [Normal ''other'']" by blast
  then have "fs_files d' [Normal ''other''] = None" by (simp add: demo_fs_def)
  with w c show ?thesis by (simp add: content_of_def write_lines_def)
qed

text \<open>A file whose END marker stands before its BEGIN marker is not repaired: with a line between
  them the rewrite panics, and with none it inserts the section between the two markers, every time
  again, so the file grows with each synchronisation.\<close>

theorem hosts_reversed_markers:
  assumes "good_section ins" and "is_end e" and "is_begin b"
    and "\<forall>l \<in> set (pre @ mid). \<not> is_begin l \<and> \<not> is_end l"
  shows "(mid \<noteq> [] \<longrightarrow> splice_section hosts_tag ins (pre @ e # mid @ b # post) = Inl HostsPanic)
    \<and> splice_section hosts_tag ins (pre @ e # b # post) = Inr (Some (pre @ e # ins @ b # post))
    \<and> splice_section hosts_tag ins (pre @ e # ins @ b # post) = Inr (Some (pre @ e # ins @ ins @ b # post))"
proof -
  obtain body where ins: "ins = begin_marker hosts_tag # body @ [end_marker hosts_tag]"
    using assms(1) by (auto simp: good_section_def)
  have ne: "\<not> is_begin e" "\<not> is_end b" using assms(2,3) markers(5) by (simp_all add: is_begin_def is_end_def)
  have pe: "position is_end (pre @ e # xs) = Some (length pre)" for xs
    using assms(2,4) by (subst position_append) auto
  have pb: "position is_begin (pre @ e # mid @ b # post) = Some (length pre + Suc (length mid))"
    "position is_begin (pre @ e # b # post) = Some (length pre + Suc 0)"
    using assms(3,4) ne by (simp_all add: position_append)
  have pi: "position is_begin (pre @ e # ins @ b # post) = Some (length pre + Suc 0)"
    using assms(4) ne markers(3) by (simp add: position_append ins is_begin_def)
  show ?thesis by (simp add: splice_eq pe pb pi) (simp add: ins)
qed

theorem hosts_reversed_markers_witness:
  "splice_section hosts_tag (lines_to_insert (managed_builder (ea_new (EndpointId 1)) alpha_nodes None))
     [end_marker hosts_tag, [], begin_marker hosts_tag] = Inl HostsPanic"
proof -
  have e: "is_end (end_marker hosts_tag)" "is_begin (begin_marker hosts_tag)"
    using markers by (simp_all add: is_begin_def is_end_def)
  have "\<forall>l \<in> set ([] @ [[]]). \<not> is_begin l \<and> \<not> is_end l"
    using markers(8,9) by (simp add: is_begin_def is_end_def trim_id)
  from hosts_reversed_markers [OF managed_section [OF alpha_listed] e this, of "[]"] show ?thesis by simp
qed

end
