(* ===== verification/Loop_Props.thy ===== *)
theory Loop_Props
  imports Context_Props Hosts_Props Daemon_Loop
begin

text \<open>
  Properties of the event loop and of the shutdown: what can stop the loop, what a shutdown leaves
  behind, and the frame of every step, which the state machine of the whole process builds on.
\<close>

section \<open>Frames\<close>

lemma later_ok [simp]: "env_ok (later E) = env_ok E"
  by (simp add: later_def env_ok_def)

text \<open>What no step of the loop changes; on disk it writes at most the table of nodes.\<close>

definition same_identity :: "ctx \<Rightarrow> ctx \<Rightarrow> bool" where
  "same_identity c d \<longleftrightarrow> cx_me c = cx_me d \<and> cx_args c = cx_args d \<and> cx_ticket c = cx_ticket d
     \<and> cx_started_at c = cx_started_at d \<and> only_nodes (cx_storage d) (cx_storage c)"

lemma same_identity_refl [simp]: "same_identity c c"
  by (simp add: same_identity_def)

lemma same_identity_trans: "same_identity b c \<Longrightarrow> same_identity a b \<Longrightarrow> same_identity a c"
  by (auto simp: same_identity_def intro: only_nodes_trans)

lemma same_identity_frame: "frame_of c = frame_of d \<Longrightarrow> same_identity c d"
  by (simp add: frame_of_iff same_identity_def)

lemma same_identity_updates [simp]:
  "same_identity (emit e c) d = same_identity c d"
  "same_identity (c\<lparr>cx_hosts_sync := h\<rparr>) d = same_identity c d"
  "same_identity (c\<lparr>cx_join_announced := b\<rparr>) d = same_identity c d"
  "same_identity (c\<lparr>cx_nodes := m\<rparr>) d = same_identity c d"
  by (simp_all add: same_identity_def)

lemma save_trusted_state: "fst (save_trusted L fails E c) = c\<lparr>cx_storage := cx_storage (fst (save_trusted L fails E c))\<rparr>"
  by (simp add: save_trusted_def case_prod_beta Let_def)

lemma save_trusted_identity [simp]: "same_identity (fst (save_trusted L fails E c)) c"
  by (simp add: save_trusted_def case_prod_beta Let_def same_identity_def only_nodes_writers)

lemma hosts_tasks_state:
  "fst (sync_hosts_file S c d) = c\<lparr>cx_hosts_sync := cx_hosts_sync (fst (sync_hosts_file S c d))\<rparr>"
  "fst (clear_hosts_file S c d) = c\<lparr>cx_hosts_sync := cx_hosts_sync (fst (clear_hosts_file S c d))\<rparr>"
  by (simp_all add: sync_hosts_file_def clear_hosts_file_def set_hosts_sync_error_def Let_def case_prod_beta
      split: option.split sum.split hosts_failure.split)

lemma receive_keeps:
  "frame_of (receive W E b c) = frame_of c" "ctx_inv c \<Longrightarrow> ctx_inv (receive W E b c)"
  by (auto simp: receive_def process_message_frame process_message_inv split: sum.split)

lemma announce_join_identity [simp]: "same_identity (announce_join E c) c"
  by (simp add: announce_join_def Let_def)

lemma process_gossip_keeps:
  "same_identity (process_gossip W E ev c) c" "ctx_inv c \<Longrightarrow> ctx_inv (process_gossip W E ev c)"
  using same_identity_frame [OF receive_keeps(1)] receive_keeps(2)
  by (induction W E ev c rule: process_gossip.induct) (simp_all add: announce_join_fields)

lemma broadcast_tick_keeps:
  "same_identity (broadcast_tick L S c) c" "ctx_inv c \<Longrightarrow> ctx_inv (broadcast_tick L S c)"
  "cx_trusted (broadcast_tick L S c) = cx_trusted c"
proof -
  let ?c1 = "if arg_daemon (cx_args c) \<and> \<not> cx_paused c then broadcast_state_update (se_env S) c else c"
  have 1: "same_identity ?c1 c" "ctx_inv ?c1 = ctx_inv c" "cx_trusted ?c1 = cx_trusted c"
    by (simp_all add: broadcast_state_update_def Let_def)
  have 2: "same_identity (cleanup E ?c1) c" for E
    using same_identity_frame [OF cleanup_fields(2)] 1(1) same_identity_trans by blast
  show "same_identity (broadcast_tick L S c) c"
    unfolding broadcast_tick_def Let_def using 2 save_trusted_identity same_identity_trans by blast
  show "ctx_inv (broadcast_tick L S c)" if "ctx_inv c"
    unfolding broadcast_tick_def Let_def using that 1(2) by (simp add: save_trusted_fields cleanup_fields)
  show "cx_trusted (broadcast_tick L S c) = cx_trusted c"
    unfolding broadcast_tick_def Let_def using 1(3) by (simp add: save_trusted_fields cleanup_fields)
qed

lemma sync_tick_keeps:
  "same_identity (sync_tick c) c" "ctx_inv (sync_tick c) = ctx_inv c" "cx_trusted (sync_tick c) = cx_trusted c"
  by (simp_all add: sync_tick_def request_neighbor_sync_def)

lemma graceful_shutdown_keeps:
  assumes "graceful_shutdown L S c d = (c', d', f)"
  shows "same_identity c' c" and "ctx_inv c \<Longrightarrow> ctx_inv c'" and "cx_trusted c' = cx_trusted c" and "cx_nodes c' = cx_nodes c"
    and "f = Stop \<or> f = Unwind"
proof -
  let ?c1 = "if arg_daemon (cx_args c) then emit (Broadcast Left) c else c"
  obtain c2 d2 r where t: "(if arg_hosts_sync (cx_args ?c1) then clear_hosts_file S ?c1 d else (?c1, d, Inr False)) = (c2, d2, r)"
    by (metis prod_cases3)
  have c2: "c2 = ?c1\<lparr>cx_hosts_sync := cx_hosts_sync c2\<rparr>"
    using t hosts_tasks_state(2) [of S ?c1 d] by (auto split: if_splits)
  have s: "same_identity c2 c" "ctx_inv c2 = ctx_inv c" "cx_trusted c2 = cx_trusted c" "cx_nodes c2 = cx_nodes c"
    by (subst c2, simp)+
  have res: "(c', d', f) = (if r = Inl (TaskFailed HostsPanic) then (c2, d2, Unwind)
      else (emit EndpointClose (emit RouterShutdown (fst (save_trusted L (se_db S) (se_env S) c2))), d2, Stop))"
    using assms unfolding graceful_shutdown_def Let_def t by (auto simp: case_prod_beta split: if_splits)
  have sv: "same_identity (fst (save_trusted L (se_db S) (se_env S) c2)) c"
    using save_trusted_identity s(1) same_identity_trans by blast
  show "same_identity c' c" "ctx_inv c \<Longrightarrow> ctx_inv c'" "cx_trusted c' = cx_trusted c" "cx_nodes c' = cx_nodes c"
    "f = Stop \<or> f = Unwind"
    using res s sv by (auto simp: save_trusted_fields split: if_splits)
qed

lemma loop_step_keeps:
  assumes "loop_step W L interactive S i c d = (c', d', f)"
  shows "same_identity c' c" and "ctx_inv c \<Longrightarrow> ctx_inv c'"
  using assms same_identity_frame [OF receive_keeps(1)] receive_keeps(2) graceful_shutdown_keeps(1,2)
    process_gossip_keeps broadcast_tick_keeps(1,2) sync_tick_keeps(1,2)
  by (induction W L interactive S i c d rule: loop_step.induct) (auto split: if_splits)


section \<open>What stops the loop\<close>

definition stopping :: "loop_input \<Rightarrow> bool" where
  "stopping i \<longleftrightarrow> i = SigTerm \<or> i = DirectMsg None \<or> i = GossipNext (Inr None)"

lemma loop_step_flow:
  assumes "arg_daemon (cx_args c)" and "\<not> interactive"
  shows "snd (snd (loop_step W L interactive S i c d)) = GoOn \<longleftrightarrow> \<not> stopping i"
proof -
  obtain c' d' f where "graceful_shutdown L S c d = (c', d', f)" by (metis prod_cases3)
  with graceful_shutdown_keeps(5) [OF this] assms show ?thesis
    by (induction W L interactive S i c d rule: loop_step.induct) (auto simp: stopping_def)
qed

lemma run_loop_flow:
  assumes "arg_daemon (cx_args c)" and "\<not> interactive"
  shows "snd (snd (run_loop W L interactive inputs c d)) = GoOn \<longleftrightarrow> (\<forall>e \<in> set inputs. \<not> stopping (snd e))"
  using assms
proof (induction inputs arbitrary: c d)
  case (Cons e rest)
  obtain S i where e: "e = (S, i)" by force
  obtain c' d' f where st: "loop_step W L interactive S i c d = (c', d', f)" by (metis prod_cases3)
  have f: "f = GoOn \<longleftrightarrow> \<not> stopping i" using loop_step_flow [OF Cons.prems, of W L S i d] st by simp
  have "arg_daemon (cx_args c')" using loop_step_keeps(1) [OF st] Cons.prems(1) by (simp add: same_identity_def)
  then have "snd (snd (run_loop W L interactive rest c' d')) = GoOn \<longleftrightarrow> (\<forall>e \<in> set rest. \<not> stopping (snd e))"
    using Cons.prems(2) by (rule Cons.IH)
  with f st e show ?case by (cases f) auto
qed simp

text \<open>C14. What ends the event loop of a daemon that runs without a terminal: SIGTERM or the end of one of
  its two message channels, and nothing else. It handles every other input, whatever it holds and
  whatever fails meanwhile (Ctrl-C, ticks, envelopes that do not decode, gossip errors), and waits
  for the next; the first stopping input ends it, however the shutdown goes.\<close>

theorem daemon_loop_ends:
  assumes "arg_daemon (cx_args c)" and "\<not> interactive"
  shows "snd (snd (run_daemon_loop W L interactive inputs c d)) = GoOn
    \<longleftrightarrow> (\<forall>(S, i) \<in> set inputs. i \<noteq> SigTerm \<and> i \<noteq> DirectMsg None \<and> i \<noteq> GossipNext (Inr None))"
proof -
  have "arg_daemon (cx_args (request_neighbor_sync c))" using assms(1) by (simp add: request_neighbor_sync_def)
  from run_loop_flow [OF this assms(2), of W L inputs d] show ?thesis
    by (auto simp: run_daemon_loop_def stopping_def)
qed

definition quiet_step :: "u64 \<Rightarrow> step_env" where
  "quiet_step t = \<lparr>se_env = demo_env t, se_db = (\<lambda>x. False), se_fs = no_faults, se_millis = 5, se_error_text = (\<lambda>e. ''io'')\<rparr>"

theorem daemon_loop_ends_witness:
  "snd (snd (run_daemon_loop demo_lib demo_store_lib False
     [(quiet_step 200, CtrlC True), (quiet_step 200, GossipNext (Inl ''lag'')), (quiet_step 200, SyncTick)] demo_ctx demo_fs)) = GoOn
   \<and> snd (snd (run_daemon_loop demo_lib demo_store_lib False [(quiet_step 200, CtrlC True), (quiet_step 200, SigTerm)] demo_ctx demo_fs)) \<noteq> GoOn"
  using daemon_loop_ends [of demo_ctx False demo_lib demo_store_lib "[(quiet_step 200, CtrlC True), (quiet_step 200, GossipNext (Inl ''lag'')), (quiet_step 200, SyncTick)]" demo_fs]
    daemon_loop_ends [of demo_ctx False demo_lib demo_store_lib "[(quiet_step 200, CtrlC True), (quiet_step 200, SigTerm)]" demo_fs]
  by simp

section \<open>Shutting down\<close>

lemma save_trusted_cong:
  "cx_trusted c = cx_trusted c' \<Longrightarrow> cx_storage c = cx_storage c' \<Longrightarrow> cx_me c = cx_me c' \<Longrightarrow>
   cx_storage (fst (save_trusted L fails E c)) = cx_storage (fst (save_trusted L fails E c'))"
  by (simp add: save_trusted_def case_prod_beta Let_def)

lemma save_trusted_effects: "cx_effects (fst (save_trusted L fails E c)) = cx_effects c"
  by (subst save_trusted_state) simp

lemma clear_hosts_panics:
  "snd (snd (clear_hosts_file S c d)) = Inl (TaskFailed HostsPanic) \<longleftrightarrow>
     arg_hosts_sync (cx_args c) \<and> (\<exists>p. hosts_sync_path d (cx_args c) = Some p
       \<and> snd (clear_managed_hosts (se_fs S) (se_millis S) (path_of p) d) = Inl HostsPanic)"
  by (auto simp: clear_hosts_file_def case_prod_beta Let_def split: option.split sum.split hosts_failure.split)

lemma shutdown_cases:
  assumes "graceful_shutdown L S c d = (c', d', f)"
  shows "let farewell = (if arg_daemon (cx_args c) then [Broadcast Left] else []);
             panics = (arg_hosts_sync (cx_args c) \<and> (\<exists>p. hosts_sync_path d (cx_args c) = Some p
               \<and> snd (clear_managed_hosts (se_fs S) (se_millis S) (path_of p) d) = Inl HostsPanic))
    in (if panics then f = Unwind \<and> cx_effects c' = cx_effects c @ farewell \<and> cx_storage c' = cx_storage c
        else f = Stop \<and> cx_effects c' = cx_effects c @ farewell @ [RouterShutdown, EndpointClose]
          \<and> cx_storage c' = cx_storage (fst (save_trusted L (se_db S) (se_env S) c)))"
proof -
  let ?c1 = "if arg_daemon (cx_args c) then emit (Broadcast Left) c else c"
  obtain c2 d2 r where t: "(if arg_hosts_sync (cx_args ?c1) then clear_hosts_file S ?c1 d else (?c1, d, Inr False)) = (c2, d2, r)"
    by (metis prod_cases3)
  have c2: "c2 = ?c1\<lparr>cx_hosts_sync := cx_hosts_sync c2\<rparr>"
    using t hosts_tasks_state(2) [of S ?c1 d] by (auto split: if_splits)
  have s: "cx_effects c2 = cx_effects ?c1" "cx_storage c2 = cx_storage c" "cx_trusted c2 = cx_trusted c" "cx_me c2 = cx_me c"
    by (subst c2, simp)+
  have panic: "r = Inl (TaskFailed HostsPanic) \<longleftrightarrow> arg_hosts_sync (cx_args c) \<and> (\<exists>p. hosts_sync_path d (cx_args c) = Some p
       \<and> snd (clear_managed_hosts (se_fs S) (se_millis S) (path_of p) d) = Inl HostsPanic)"
    using t clear_hosts_panics [of S ?c1 d] by (auto split: if_splits)
  have res: "(c', d', f) = (if r = Inl (TaskFailed HostsPanic) then (c2, d2, Unwind)
      else (emit EndpointClose (emit RouterShutdown (fst (save_trusted L (se_db S) (se_env S) c2))), d2, Stop))"
    using assms unfolding graceful_shutdown_def Let_def t by (auto simp: case_prod_beta split: if_splits)
  have st: "cx_storage (fst (save_trusted L (se_db S) (se_env S) c2)) = cx_storage (fst (save_trusted L (se_db S) (se_env S) c))"
    using s by (intro save_trusted_cong) simp_all
  show ?thesis
    unfolding Let_def panic [symmetric] using res s(1,2) st by (auto simp: save_trusted_effects)
qed

text \<open>C13. What a shutdown does: a daemon says farewell first; then, unless clearing its section of the
  hosts file panics, it saves its trusted nodes, shuts the router down and closes the endpoint, and
  a failing hosts file or database does not stop it. A panic, on a hosts file that is not UTF-8 or
  whose markers are out of order, skips all three: the others have been told that the daemon left,
  but what it learned since the last save is lost.\<close>

theorem shutdown_outcome:
  assumes "graceful_shutdown L S c d = (c', d', f)"
  shows "let farewell = (if arg_daemon (cx_args c) then [Broadcast Left] else []);
             panics = (arg_hosts_sync (cx_args c) \<and> (\<exists>p. hosts_sync_path d (cx_args c) = Some p
               \<and> snd (clear_managed_hosts (se_fs S) (se_millis S) (path_of p) d) = Inl HostsPanic))
    in (if panics then f = Unwind \<and> cx_effects c' = cx_effects c @ farewell \<and> cx_storage c' = cx_storage c
        else f = Stop \<and> cx_effects c' = cx_effects c @ farewell @ [RouterShutdown, EndpointClose]
          \<and> cx_storage c' = cx_storage (fst (save_trusted L (se_db S) (se_env S) c)))"
  using assms by (rule shutdown_cases)

text \<open>A hosts file with one byte that is not UTF-8.\<close>

definition latin_fs :: fs where
  "latin_fs = \<lparr>fs_files = [etc_hosts \<mapsto> [CHR 0xFF]], fs_is_dir = (\<lambda>p. False)\<rparr>"

definition syncing_ctx :: ctx where
  "syncing_ctx = demo_ctx\<lparr>cx_args := (cx_args demo_ctx)\<lparr>arg_hosts_sync := True, arg_hosts_path := Some ''/etc/hosts''\<rparr>\<rparr>"

lemma path_of_etc_hosts: "path_of ''/etc/hosts'' = etc_hosts"
  by code_simp

lemma latin_panics: "snd (clear_managed_hosts no_faults 5 etc_hosts latin_fs) = Inl HostsPanic"
proof -
  obtain tp where "get_temp_path 5 etc_hosts = Inr tp" using demo_temp_path by blast
  moreover have "lines_unwrap (content_of latin_fs etc_hosts) = None"
    by (simp add: lines_unwrap_def content_of_def latin_fs_def utf8_ok_def utf8_lead_def code_in_def)
  ultimately show ?thesis by (simp add: clear_managed_hosts_def write_to_eq latin_fs_def no_faults_def)
qed

theorem shutdown_outcome_witness:
  "\<exists>c' d'. graceful_shutdown demo_store_lib (quiet_step 200) syncing_ctx latin_fs = (c', d', Unwind)
    \<and> cx_effects c' = [Broadcast Left] \<and> cx_storage c' = empty_storage"
proof -
  obtain c' d' f where eq: "graceful_shutdown demo_store_lib (quiet_step 200) syncing_ctx latin_fs = (c', d', f)"
    by (metis prod_cases3)
  have "hosts_sync_path latin_fs (cx_args syncing_ctx) = Some ''/etc/hosts''"
    by (simp add: hosts_sync_path_def syncing_ctx_def)
  moreover have "arg_hosts_sync (cx_args syncing_ctx)" "arg_daemon (cx_args syncing_ctx)" "cx_effects syncing_ctx = []"
    "cx_storage syncing_ctx = empty_storage"
    by (simp_all add: syncing_ctx_def) (simp add: demo_ctx_def)
  ultimately show ?thesis
    using shutdown_outcome [OF eq] latin_panics eq by (simp add: quiet_step_def path_of_etc_hosts Let_def)
qed

end
