(* ===== verification/Admin_Props.thy ===== *)
theory Admin_Props
  imports Client_Admin Context_Props
begin

text \<open>
  Properties of the admin commands of \<open>Client_Admin\<close>: who may act, which node a prefix names, and
  what adding and removing a node leaves in the tables and on disk.
\<close>

section \<open>Lemmas on the handlers\<close>

definition ticket_presented :: "admin_lib \<Rightarrow> auth_request \<Rightarrow> ctx \<Rightarrow> bool" where
  "ticket_presented L req c = (\<exists>t. ticket_from_str (al_ticket L) (ar_ticket req) = Inr t
     \<and> t_topic t = t_topic (cx_ticket c) \<and> t_rnum t = t_rnum (cx_ticket c))"

lemma authenticate_eq:
  "authenticate_and_register L E mode req c r =
     (if \<not> (ticket_presented L req c \<or> mode = AllowLocalTicketless)
      then (c, r, \<lparr>as_success = False, as_error = Some ''Invalid ticket'', as_daemon_public_key = None\<rparr>, None)
      else case client_key L req of
             None \<Rightarrow> (c, r, accepted L c, None)
           | Some pk \<Rightarrow> if is_client_node r pk then (c, r, accepted L c, Some pk)
               else (c\<lparr>cx_nodes := (cx_nodes c)(pk \<mapsto> client_node L E req c pk)\<rparr>,
                     add_client r pk (new_client_info E req), accepted L c, Some pk))"
proof -
  have "(case ticket_from_str (al_ticket L) (ar_ticket req) of
      Inr t \<Rightarrow> ticket_validate t (t_topic (cx_ticket c)) (t_rnum (cx_ticket c)) | Inl e \<Rightarrow> False)
    \<longleftrightarrow> ticket_presented L req c"
    by (auto simp: ticket_presented_def ticket_validate_def split: sum.split)
  then show ?thesis by (auto simp: authenticate_and_register_def Let_def split: option.split)
qed

lemma client_node_fields [simp]:
  "node_id (client_node L E req c pk) = pk" "has_client_marker (client_node L E req c pk)"
  "\<not> is_daemon_node (client_node L E req c pk)" "node_addr (client_node L E req c pk) = ea_new pk"
  by (simp_all add: client_node_def has_client_marker_def is_daemon_node_def bt_contains_key_def)

lemma authenticate_keeps:
  assumes "authenticate_and_register L E mode req c r = (c', r', resp, who)"
  shows "cx_trusted c' = cx_trusted c" and "frame_of c' = frame_of c" and "cx_effects c' = cx_effects c"
    and "ctx_inv c \<Longrightarrow> ctx_inv c'"
  using assms by (auto simp: authenticate_eq intro: ctx_inv_put_node split: if_splits option.splits)

text \<open>Every command keeps the invariant of the context and changes neither our id nor our ticket.\<close>

lemma add_node_keeps:
  assumes "add_node L fails c arg = (c', out)"
  shows "ctx_inv c \<Longrightarrow> ctx_inv c'" and "cx_me c' = cx_me c" and "cx_ticket c' = cx_ticket c" and "cx_args c' = cx_args c"
  using assms
  by (auto simp: add_node_def Let_def case_prod_beta upsert.inv trust.inv upsert.keeps trust.keeps
      split: sum.splits if_splits)

definition drop_node :: "admin_lib \<Rightarrow> faults \<Rightarrow> ctx \<Rightarrow> endpoint_id \<Rightarrow> ctx" where
  "drop_node L fails c j = c\<lparr>cx_nodes := (cx_nodes c)(j := None), cx_trusted := (cx_trusted c)(j := None),
     cx_storage := fst (remove_node (al_store L) fails (cx_storage c) j)\<rparr>"

lemma drop_node_inv: "ctx_inv c \<Longrightarrow> ctx_inv (drop_node L fails c j)"
proof -
  assume "ctx_inv c"
  then have "ctx_inv (c\<lparr>cx_nodes := (cx_nodes c)(j := None)\<rparr>)"
    by (rule ctx_inv_drop_nodes) (simp split: if_splits)
  from ctx_inv_drop_trusted [OF this, of j] show ?thesis
    by (simp add: drop_node_def)
qed

lemma remove_node_cmd_state:
  "fst (remove_node_cmd L fails E c r i) =
     (case resolve_node_id L E c r i of Inl msg \<Rightarrow> c
      | Inr j \<Rightarrow> if j = node_id (cx_me c) then c else drop_node L fails c j)"
  "fst (snd (remove_node_cmd L fails E c r i)) =
     (case resolve_node_id L E c r i of Inl msg \<Rightarrow> r
      | Inr j \<Rightarrow> if j = node_id (cx_me c) then r else remove_client r j)"
  by (simp_all add: remove_node_cmd_def drop_node_def untrust_node_def Let_def case_prod_beta split: sum.split)

lemma remove_node_cmd_keeps:
  "ctx_inv c \<Longrightarrow> ctx_inv (fst (remove_node_cmd L fails E c r i))"
  "cx_me (fst (remove_node_cmd L fails E c r i)) = cx_me c"
  "cx_ticket (fst (remove_node_cmd L fails E c r i)) = cx_ticket c"
  "cx_args (fst (remove_node_cmd L fails E c r i)) = cx_args c"
  by (simp_all add: remove_node_cmd_state drop_node_inv split: sum.split) (simp_all add: drop_node_def)

lemma handle_command_keeps:
  "ctx_inv c \<Longrightarrow> ctx_inv (fst (handle_command L fails E cmd c r))"
  "cx_me (fst (handle_command L fails E cmd c r)) = cx_me c"
  "cx_ticket (fst (handle_command L fails E cmd c r)) = cx_ticket c"
  "cx_args (fst (handle_command L fails E cmd c r)) = cx_args c"
  using add_node_keeps [OF surjective_pairing] remove_node_cmd_keeps
  by (cases cmd; simp add: set_paused_def case_prod_beta)+


section \<open>Clients and permissions\<close>

definition full_permissions :: "client_registry \<Rightarrow> bool" where
  "full_permissions r \<longleftrightarrow> (\<forall>i info. cr_clients r i = Some info \<longrightarrow>
     ci_permissions info = \<lparr>can_query = True, can_add_node = True, can_remove_node = True, can_control = True\<rparr>)"

lemma full_permissions_new: "full_permissions registry_new"
  by (simp add: full_permissions_def registry_new_def)

lemma full_permissions_authenticate:
  "full_permissions r \<Longrightarrow> full_permissions (fst (snd (authenticate_and_register L E mode req c r)))"
  by (auto simp: authenticate_eq full_permissions_def add_client_def new_client_info_def split: option.split)

lemma full_permissions_remove: "full_permissions r \<Longrightarrow> full_permissions (remove_client r i)"
  by (simp add: full_permissions_def remove_client_def)

lemma full_permissions_command:
  "full_permissions r \<Longrightarrow> full_permissions (fst (snd (handle_command L fails E cmd c r)))"
  by (cases cmd) (simp_all add: remove_node_cmd_state full_permissions_remove case_prod_beta split: sum.split)

lemma full_permissions_check:
  "full_permissions r \<Longrightarrow> check_permission r pk (required_permission cmd) = is_client_node r pk"
  by (cases "cr_clients r pk"; cases cmd)
    (simp_all add: check_permission_def full_permissions_def is_client_node_def)

text \<open>C10. Authentication: it succeeds exactly for a ticket with our topic and secret, or in the mode that
  trusts local clients. A refusal changes nothing and names no client. A success names the key in
  the request, if there is a valid one, leaves it registered, and changes no other registration,
  no other record and nothing else in the context.\<close>

theorem authentication_outcome:
  assumes "authenticate_and_register L E mode req c r = (c', r', resp, who)"
  shows "(as_success resp \<longleftrightarrow> ticket_presented L req c \<or> mode = AllowLocalTicketless)
    \<and> who = (if as_success resp then client_key L req else None)
    \<and> (cr_clients r' j = cr_clients r j \<or> who = Some j)
    \<and> (cx_nodes c' j = cx_nodes c j \<or> who = Some j)
    \<and> (who = Some pk \<longrightarrow> is_client_node r' pk)
    \<and> (\<not> as_success resp \<longrightarrow> c' = c \<and> r' = r)
    \<and> c'\<lparr>cx_nodes := cx_nodes c\<rparr> = c"
  using assms
  by (auto simp: authenticate_eq accepted_def add_client_def is_client_node_def split: if_splits option.splits)

definition demo_admin_lib :: admin_lib where
  "demo_admin_lib =
     \<lparr>al_ticket = demo_ticket_lib, al_store = demo_store_lib,
      key_b64_decode = (\<lambda>s. Some (replicate 32 (of_nat (length s)))), key_b64_encode = (\<lambda>b. ''k''),
      key_from_bytes = (\<lambda>b. Some (EndpointId (of_nat (unat (hd b))))), key_as_bytes = (\<lambda>i. replicate 32 0),
      id_from_str = (\<lambda>s. if s = ''x'' then Some (EndpointId 1) else None), to_lowercase = to_ascii_lowercase,
      debug_addr = (\<lambda>a. ''addr''), show_ticket_error = (\<lambda>e. ''ticket''),
      show_storage_error = (\<lambda>e. ''storage'')\<rparr>"

definition peer_key_request :: auth_request where
  "peer_key_request = \<lparr>ar_ticket = ''none'', ar_client_public_key = Some ''ab'', ar_client_name = Some ''cli''\<rparr>"

lemma demo_client_key: "client_key demo_admin_lib peer_key_request = Some (EndpointId 2)"
  by (simp add: client_key_def demo_admin_lib_def peer_key_request_def)

theorem authentication_outcome_witness:
  "\<exists>c' r' resp. authenticate_and_register demo_admin_lib (demo_env 200) RequireTicket peer_key_request demo_ctx registry_new
      = (c', r', resp, None) \<and> \<not> as_success resp \<and> c' = demo_ctx \<and> r' = registry_new"
proof -
  obtain c' r' resp who where eq: "authenticate_and_register demo_admin_lib (demo_env 200) RequireTicket peer_key_request
      demo_ctx registry_new = (c', r', resp, who)" by (metis prod_cases4)
  have "\<not> ticket_presented demo_admin_lib peer_key_request demo_ctx"
    by (simp add: ticket_presented_def demo_admin_lib_def peer_key_request_def ticket_from_str_def demo_ticket_lib_def
        res_bind_def or_err_def split: option.split)
  with authentication_outcome [OF eq] eq show ?thesis by auto
qed

text \<open>C31. Permissions are all or nothing: in every registry that the daemon can build (it starts empty
  and only authentication and commands change it) a client may run every command or none, and it
  may run them exactly while it is registered.\<close>

theorem permissions_are_all_or_nothing:
  assumes "full_permissions r"
  shows "full_permissions registry_new
    \<and> full_permissions (fst (snd (authenticate_and_register L E mode req c r)))
    \<and> full_permissions (fst (snd (run_command L fails E pk cmd c r)))
    \<and> check_permission r pk (required_permission cmd) = is_client_node r pk
    \<and> (\<not> is_client_node r pk \<longrightarrow> run_command L fails E pk cmd c r = (c, r, reply (ErrorIs ''Permission denied'')))"
  using assms full_permissions_command
  by (simp add: full_permissions_new full_permissions_authenticate full_permissions_check run_command_def)

theorem permissions_are_all_or_nothing_witness:
  "run_command demo_admin_lib (\<lambda>x. False) (demo_env 200) (EndpointId 2) Shutdown demo_ctx registry_new
     = (demo_ctx, registry_new, reply (ErrorIs ''Permission denied''))"
  using permissions_are_all_or_nothing [OF full_permissions_new, of demo_admin_lib "demo_env 200" RequireTicket
      peer_key_request demo_ctx "\<lambda>x. False" "EndpointId 2" Shutdown]
  by (simp add: is_client_node_def registry_new_def)

text \<open>C33. Registering needs no proof that one holds the key: a client that names the public key of a
  known daemon replaces that daemon's record by a client record without any address, and the daemon
  disappears from the answers to \<open>Query\<close> and from the lists sent to other daemons.\<close>

theorem registration_shadows_peer:
  assumes "ctx_inv c" and "env_ok E'" and "cx_nodes c pk = Some d" and "\<not> is_client_node r pk"
    and "mode = AllowLocalTicketless \<or> ticket_presented L req c" and "client_key L req = Some pk"
    and "authenticate_and_register L E mode req c r = (c', r', resp, who)"
  shows "\<exists>n. cx_nodes c' pk = Some n \<and> ea_is_empty (node_addr n) \<and> \<not> is_daemon_node n
    \<and> (\<forall>m \<in> set (query_nodes E' c' r'). node_id m \<noteq> pk)
    \<and> (pk \<noteq> node_id (cx_me c) \<longrightarrow> (\<forall>m \<in> set (sync_nodes E' c'). node_id m \<noteq> pk))"
proof -
  have c': "c' = c\<lparr>cx_nodes := (cx_nodes c)(pk \<mapsto> client_node L E req c pk)\<rparr>"
    and r': "r' = add_client r pk (new_client_info E req)"
    using assms(4-7) by (auto simp: authenticate_eq)
  have inv: "ctx_inv c'" using assms(1,7) by (metis authenticate_keeps(4))
  then have mem: "(k, v) \<in> set (iter_nodes E' (cx_nodes c')) \<longleftrightarrow> cx_nodes c' k = Some v" for k v
    using assms(2) by (intro snapshot_of_mem) (simp add: env_ok_def ctx_inv_def)
  have "node_id m \<noteq> pk" if "m \<in> set (query_nodes E' c' r')" for m
    using that ctx_inv_nodesD [OF inv] mem by (auto simp: query_nodes_def r' is_client_node_def add_client_def)
  moreover have "node_id m \<noteq> pk" if "m \<in> set (sync_nodes E' c')" and "pk \<noteq> node_id (cx_me c)" for m
  proof -
    have "node_id m \<noteq> pk" if "cx_nodes c' k = Some m" "is_daemon_node m" for k
      using that ctx_inv_nodesD [OF inv] by (auto simp: c' split: if_splits)
    then show ?thesis using that mem by (auto simp: sync_nodes_def current_node_state_def c')
  qed
  ultimately show ?thesis by (auto simp: c' ea_is_empty_def ea_new_def)
qed

theorem registration_shadows_peer_witness:
  "\<exists>n. cx_nodes (fst (authenticate_and_register demo_admin_lib (demo_env 200) AllowLocalTicketless peer_key_request
        demo_ctx registry_new)) (EndpointId 2) = Some n \<and> \<not> is_daemon_node n"
proof -
  obtain c' r' resp who where eq: "authenticate_and_register demo_admin_lib (demo_env 200) AllowLocalTicketless peer_key_request
      demo_ctx registry_new = (c', r', resp, who)" by (metis prod_cases4)
  have "cx_nodes demo_ctx (EndpointId 2) = Some peer" and "\<not> is_client_node registry_new (EndpointId 2)"
    by (simp_all add: is_client_node_def registry_new_def)
  from registration_shadows_peer [OF demo_ctx_inv demo_env_ok this disjI1 [OF refl] demo_client_key eq, of 200]
  show ?thesis unfolding eq fst_conv by blast
qed


section \<open>Removing and adding nodes\<close>

definition removable_ids :: "ctx \<Rightarrow> client_registry \<Rightarrow> endpoint_id set" where
  "removable_ids c r = {k \<in> dom (cx_nodes c). \<not> is_client_node r k} \<union> dom (cx_trusted c)"

lemma prefix_matches_set:
  assumes "ctx_inv c" and "env_ok E"
  shows "set (prefix_matches L E c r pre) = {k \<in> removable_ids c r. id_has_prefix L pre k}"
    and "distinct (prefix_matches L E c r pre)"
proof -
  have n: "snapshot_of (iter_nodes E (cx_nodes c)) (cx_nodes c)"
    and t: "snapshot_of (iter_nodes E (cx_trusted c)) (cx_trusted c)"
    using assms by (simp_all add: env_ok_def ctx_inv_def)
  have "fst ` set (iter_nodes E (cx_nodes c)) = dom (cx_nodes c)"
    and "fst ` set (iter_nodes E (cx_trusted c)) = dom (cx_trusted c)"
    using snapshot_of_dom [OF n] snapshot_of_dom [OF t] by simp_all
  then show "set (prefix_matches L E c r pre) = {k \<in> removable_ids c r. id_has_prefix L pre k}"
    unfolding prefix_matches_def trusted_node_ids_with_prefix_def removable_ids_def
    by (auto simp: push_new_fold)
  have "distinct (fold push_new xs ys)" if "distinct ys" for xs ys :: "endpoint_id list"
    using that by (induction xs arbitrary: ys) (auto simp: push_new_def)
  moreover have "distinct (map fst (filter P (iter_nodes E (cx_nodes c))))" for P
    using n by (auto simp: snapshot_of_def distinct_map_filter)
  ultimately show "distinct (prefix_matches L E c r pre)"
    unfolding prefix_matches_def by (simp only: filter_filter)
qed

text \<open>C29. What a node argument names: a text that parses as an id names that id; any other text is a
  prefix, and names a node exactly when that is the only node, trusted or listed and no client,
  whose printed id has the lowercased prefix. Otherwise the command is refused.\<close>

theorem resolve_prefix:
  assumes "ctx_inv c" and "env_ok E"
  shows "resolve_node_id L E c r arg = Inr j \<longleftrightarrow>
    (case id_from_str L arg of
       Some k \<Rightarrow> j = k
     | None \<Rightarrow> {k \<in> removable_ids c r. id_has_prefix L (to_lowercase L arg) k} = {j})"
proof (cases "id_from_str L arg")
  case None
  note m = prefix_matches_set [OF assms, of L r "to_lowercase L arg"]
  show ?thesis
  proof (cases "prefix_matches L E c r (to_lowercase L arg)")
    case Nil
    with m(1) have "{k \<in> removable_ids c r. id_has_prefix L (to_lowercase L arg) k} = {}" by simp
    then have "{k \<in> removable_ids c r. id_has_prefix L (to_lowercase L arg) k} \<noteq> {j}" by (simp only: empty_not_insert not_False_eq_True)
    with Nil None show ?thesis by (simp add: resolve_node_id_def)
  next
    case (Cons k ks)
    show ?thesis
    proof (cases ks)
      case Nil
      with Cons None m(1) [symmetric] show ?thesis by (simp add: resolve_node_id_def)
    next
      case (Cons k' ks')
      with \<open>prefix_matches L E c r (to_lowercase L arg) = k # ks\<close> None m show ?thesis
        by (auto simp: resolve_node_id_def)
    qed
  qed
qed (auto simp: resolve_node_id_def)

lemma demo_prefix:
  "to_ascii_lowercase ''XX'' = ''xx''" "to_ascii_lowercase ''xx'' = ''xx''" "id_string demo_store_lib (EndpointId 2) = ''xx''"
    apply code_simp
   apply code_simp
  apply (simp add: demo_store_lib_def)
  apply (simp only: numeral_2_eq_2 replicate_Suc replicate_0)
  done

theorem resolve_prefix_witness:
  "resolve_node_id demo_admin_lib (demo_env 200) demo_ctx registry_new ''XX'' = Inr (EndpointId 2)"
proof -
  have ids: "removable_ids demo_ctx registry_new = {EndpointId 2}"
    by (auto simp: removable_ids_def registry_new_def is_client_node_def)
  have lib: "to_lowercase demo_admin_lib = to_ascii_lowercase" "al_store demo_admin_lib = demo_store_lib"
    "id_from_str demo_admin_lib ''XX'' = None"
    by (simp_all add: demo_admin_lib_def)
  have "id_has_prefix demo_admin_lib ''xx'' (EndpointId 2)"
    by (simp add: id_has_prefix_def lib demo_prefix starts_with_def)
  then have "{k \<in> removable_ids demo_ctx registry_new. id_has_prefix demo_admin_lib ''xx'' k} = {EndpointId 2}"
    unfolding ids by blast
  then show ?thesis
    using resolve_prefix [OF demo_ctx_inv demo_env_ok, of demo_admin_lib 200 registry_new "''XX''" "EndpointId 2"]
    by (simp only: lib demo_prefix option.case)
qed

text \<open>C9. Removing a node takes it out everywhere at once: after a removal that is acknowledged the node
  is in neither table, is no client and has no record on disk; every other entry of the tables, of
  the registry and of the database is as before. A refused removal changes nothing, and the daemon
  never removes itself.\<close>

theorem remove_node_everywhere:
  assumes "remove_node_cmd L fails E c r arg = (c', r', out)"
  shows "(co_response out \<in> range Ack \<longrightarrow>
      (\<exists>j. resolve_node_id L E c r arg = Inr j \<and> j \<noteq> node_id (cx_me c)
        \<and> cx_nodes c' = (cx_nodes c)(j := None) \<and> cx_trusted c' = (cx_trusted c)(j := None)
        \<and> cr_clients r' = (cr_clients r)(j := None)
        \<and> node_table (al_store L) (cx_storage c') = (node_table (al_store L) (cx_storage c))(id_string (al_store L) j := None)))
    \<and> (resolve_node_id L E c r arg = Inr (node_id (cx_me c)) \<or> (\<exists>msg. resolve_node_id L E c r arg = Inl msg)
        \<longrightarrow> c' = c \<and> r' = r \<and> co_response out \<in> range ErrorIs)"
proof (cases "resolve_node_id L E c r arg")
  case (Inl msg)
  with assms show ?thesis by (auto simp: remove_node_cmd_def reply_def)
next
  case (Inr j)
  obtain st res where st: "remove_node (al_store L) fails (cx_storage c) j = (st, res)" by force
  show ?thesis
  proof (cases "j = node_id (cx_me c)")
    case True
    with Inr assms show ?thesis by (auto simp: remove_node_cmd_def reply_def)
  next
    case False
    have "node_table (al_store L) st = (node_table (al_store L) (cx_storage c))(id_string (al_store L) j := None)"
      if "res = Inr ()" using st that by (intro node_table_remove) simp
    with False Inr assms st show ?thesis
      by (cases res) (auto simp: remove_node_cmd_def reply_def untrust_node_def remove_client_def Let_def)
  qed
qed

theorem remove_node_everywhere_witness:
  "cx_trusted (fst (remove_node_cmd demo_admin_lib (\<lambda>x. False) (demo_env 200) save_ctx registry_new ''x'')) = Map.empty"
proof -
  obtain c' r' out where eq: "remove_node_cmd demo_admin_lib (\<lambda>x. False) (demo_env 200) save_ctx registry_new ''x'' = (c', r', out)"
    by (metis prod_cases3)
  have res: "resolve_node_id demo_admin_lib (demo_env 200) save_ctx registry_new ''x'' = Inr (EndpointId 1)"
    by (simp add: resolve_node_id_def demo_admin_lib_def)
  have "node_id (cx_me save_ctx) = EndpointId 9" by (simp add: save_ctx_def)
  then have "co_response out \<in> range Ack"
    using eq res by (auto simp: remove_node_cmd_def reply_def Let_def remove_node_def write_txn_def try_call_def
        split: prod.splits sum.splits)
  with remove_node_everywhere [OF eq] res have "cx_trusted c' = (cx_trusted save_ctx)(EndpointId 1 := None)" by auto
  with eq show ?thesis by (simp add: save_ctx_def)
qed


text \<open>C30. Adding a node by ticket: acknowledged only for a ticket of our network, and then the ticket's
  inviter is on disk, and, if it is another daemon, trusted and listed. The ticket's secret is not
  looked at. Nothing else in the tables changes, and a ticket of another network changes nothing.\<close>

theorem add_node_outcome:
  assumes "ctx_inv c" and "store_lib_ok (al_store L)" and "storage_ok (cx_storage c)"
    and "add_node L fails c arg = (c', out)" and "ticket_from_str (al_ticket L) arg = Inr t"
  defines "n \<equiv> t_invitor t"
  shows "(co_response out \<in> range Ack \<longrightarrow> t_topic t = t_topic (cx_ticket c)
        \<and> node_table (al_store L) (cx_storage c') = (node_table (al_store L) (cx_storage c))(id_string (al_store L) (node_id n) \<mapsto> n)
        \<and> (node_id n \<noteq> node_id (cx_me c) \<longrightarrow> cx_nodes c' = (cx_nodes c)(node_id n \<mapsto> n))
        \<and> (node_id n \<noteq> node_id (cx_me c) \<and> is_daemon_node n \<longrightarrow> is_node_trusted c' (node_id n)))
    \<and> (\<forall>k. k \<noteq> node_id n \<longrightarrow> cx_trusted c' k = cx_trusted c k \<and> cx_nodes c' k = cx_nodes c k)
    \<and> (t_topic t \<noteq> t_topic (cx_ticket c) \<longrightarrow> c' = c)"
proof (cases "t_topic t = t_topic (cx_ticket c)")
  case False
  with assms(4,5) show ?thesis by (auto simp: add_node_def ticket_flatten_def reply_def)
next
  case True
  let ?c = "upsert_active_node (trust_daemon_node c n) n"
  obtain st res where st: "save_node (al_store L) fails (cx_storage c) n = (st, res)" by force
  have storage: "cx_storage ?c = cx_storage c" by (simp only: upsert.keeps trust.keeps)
  have c': "c' = ?c\<lparr>cx_storage := st\<rparr>"
    and out: "co_response out \<in> range Ack \<Longrightarrow> res = Inr ()"
    using assms(4,5) True storage st
    by (auto simp: add_node_def ticket_flatten_def reply_def n_def Let_def split: sum.splits)
  have me: "cx_me (trust_daemon_node c n) = cx_me c" by (rule trust.keeps)
  have tab: "node_table (al_store L) st = (node_table (al_store L) (cx_storage c))(id_string (al_store L) (node_id n) \<mapsto> n)"
    if "res = Inr ()" using st that assms(2,3) by (intro node_table_save) simp_all
  show ?thesis
    using True out tab assms(1)
    by (auto simp: c' upsert_active_node_simps trust_daemon_node_simps me is_node_trusted_def)
qed

definition lone_ctx :: ctx where
  "lone_ctx = save_ctx\<lparr>cx_trusted := Map.empty\<rparr>"

lemma lone_ctx_facts:
  "ctx_inv lone_ctx" "storage_ok (cx_storage lone_ctx)" "node_id (cx_me lone_ctx) = EndpointId 9"
  "cx_storage lone_ctx = empty_storage" "cx_ticket lone_ctx = demo_ticket"
proof -
  have "ctx_inv c \<Longrightarrow> ctx_inv (c\<lparr>cx_trusted := Map.empty\<rparr>)" for c by (simp add: ctx_inv_def)
  then show "ctx_inv lone_ctx" unfolding lone_ctx_def using save_ctx_saved(1) by blast
qed (simp_all add: lone_ctx_def save_ctx_def empty_storage_def storage_ok_def)

lemma demo_ticket_invitor: "t_invitor demo_ticket = demo_node"
  by (simp add: demo_ticket_def ticket_from_parts_def demo_node_def)

lemma save_demo_node: "snd (save_node demo_store_lib (\<lambda>x. False) empty_storage demo_node) = Inr ()"
  by (simp add: save_node_def write_txn_def try_call_def insert_node_def or_err_def demo_store_lib_def)

theorem add_node_outcome_witness:
  "is_node_trusted (fst (add_node demo_admin_lib (\<lambda>x. False) lone_ctx (ticket_to_string demo_ticket_lib demo_ticket)))
     (EndpointId 1)"
proof -
  let ?arg = "ticket_to_string demo_ticket_lib demo_ticket"
  have lib: "al_store demo_admin_lib = demo_store_lib" "al_ticket demo_admin_lib = demo_ticket_lib"
    by (simp_all add: demo_admin_lib_def)
  have ok: "store_lib_ok (al_store demo_admin_lib)" by (simp add: lib demo_store_lib_ok)
  have t: "ticket_from_str (al_ticket demo_admin_lib) ?arg = Inr demo_ticket"
    unfolding lib using demo_ticket_lib_ok
    by (simp add: ticket_from_str_def ticket_to_string_def demo_ticket_lib_def or_err_def comp_def)
  obtain c' out where eq: "add_node demo_admin_lib (\<lambda>x. False) lone_ctx ?arg = (c', out)" by force
  have "cx_storage (upsert_active_node (trust_daemon_node lone_ctx demo_node) demo_node) = empty_storage"
    by (simp only: upsert.keeps trust.keeps lone_ctx_facts)
  then have "co_response out \<in> range Ack"
    using eq t save_demo_node
    by (auto simp: add_node_def ticket_flatten_def lone_ctx_facts lib reply_def demo_ticket_invitor Let_def case_prod_beta)
  moreover have "node_id demo_node = EndpointId 1" "is_daemon_node demo_node"
    by (simp_all add: demo_node_def)
  ultimately show ?thesis
    using add_node_outcome [OF lone_ctx_facts(1) ok lone_ctx_facts(2) eq t]
    by (simp add: eq demo_ticket_invitor lone_ctx_facts)
qed

text \<open>Looking does not touch: a query, a status request, a request for the ticket and a shutdown
  request leave the context and the registry as they are, and a query returns exactly the records of
  the table that are filed under no client. Only a shutdown asks for an action; pausing sets the flag
  and resuming clears it, and neither changes anything else.\<close>

theorem commands_that_only_look:
  assumes "ctx_inv c" and "env_ok E"
  shows "(\<forall>cmd \<in> {Query, Status, GetTicket, Shutdown}.
        fst (handle_command L fails E cmd c r) = c \<and> fst (snd (handle_command L fails E cmd c r)) = r)
    \<and> (\<exists>ns. co_response (snd (snd (handle_command L fails E Query c r))) = Nodes ns
        \<and> set ns = {n \<in> ran (cx_nodes c). \<not> is_client_node r (node_id n)})
    \<and> (co_action (snd (snd (handle_command L fails E cmd c r))) = Some ActShutdown \<longleftrightarrow> cmd = Shutdown)
    \<and> fst (handle_command L fails E Pause c r) = c\<lparr>cx_paused := True\<rparr>
    \<and> fst (handle_command L fails E Resume c r) = c\<lparr>cx_paused := False\<rparr>"
proof -
  have "(k, v) \<in> set (iter_nodes E (cx_nodes c)) \<longleftrightarrow> cx_nodes c k = Some v" for k v
    using assms by (intro snapshot_of_mem) (simp add: env_ok_def ctx_inv_def)
  then have q: "set (query_nodes E c r) = {n \<in> ran (cx_nodes c). \<not> is_client_node r (node_id n)}"
    using ctx_inv_nodesD [OF assms(1)] by (force simp: query_nodes_def ran_def)
  have act: "co_action (snd (add_node L fails c arg)) = None" for arg
    by (simp add: add_node_def reply_def case_prod_beta Let_def split: sum.split)
  have act': "co_action (snd (snd (remove_node_cmd L fails E c r arg))) = None" for arg
    by (simp add: remove_node_cmd_def reply_def case_prod_beta Let_def split: sum.split)
  have "co_action (snd (snd (handle_command L fails E cmd c r))) = Some ActShutdown \<longleftrightarrow> cmd = Shutdown"
    by (cases cmd) (simp_all add: act act' reply_def case_prod_beta)
  with q show ?thesis by (simp add: reply_def set_paused_def)
qed

theorem commands_that_only_look_witness:
  "\<exists>ns. co_response (snd (snd (handle_command demo_admin_lib (\<lambda>x. False) (demo_env 200) Query demo_ctx registry_new))) = Nodes ns
     \<and> set ns = {peer}"
  using commands_that_only_look [OF demo_ctx_inv demo_env_ok, of demo_admin_lib "\<lambda>x. False" 200 registry_new Query]
  by (simp add: is_client_node_def registry_new_def)

text \<open>C32. A removal does not last: when a node was removed and another trusted node, not yet aware of
  it, sends a fresh node list that names the removed daemon, it is listed and trusted again.\<close>

theorem removal_is_undone_by_gossip:
  assumes "ctx_inv c" and "remove_node_cmd L fails E c r arg = (c1, r1, out)"
    and "resolve_node_id L E c r arg = Inr j" and "j \<noteq> node_id (cx_me c)"
    and "n \<in> set ns" and "node_id n = j" and "is_daemon_node n" and "vs_passed s"
  shows "\<not> is_node_trusted c1 j \<and> is_node_trusted (process_message E' c1 src (SyncResponse ns) s) j
    \<and> cx_nodes (process_message E' c1 src (SyncResponse ns) s) j \<noteq> None"
proof -
  have c1: "c1 = drop_node L fails c j"
    using remove_node_cmd_state(1) [of L fails E c r arg] assms(2-4) by simp
  have gone: "cx_nodes c1 j = None" "\<not> is_node_trusted c1 j" "cx_me c1 = cx_me c"
    by (simp_all add: c1 drop_node_def is_node_trusted_def)
  have inv: "ctx_inv c1" using assms(1) by (simp add: c1 drop_node_inv)
  let ?t = "touch_sender E' c1 src s"
  have t: "ctx_inv ?t" "cx_me ?t = cx_me c1" using inv by (simp_all add: touch.inv touch.keeps)
  have "cx_nodes ?t j = None"
    using gone(1) touch_sender_other [OF inv, of j src E' s] touch_sender_unknown [of c1 src E' s] by (cases "j = src") auto
  then have lt: "listed_trusted j (fold (absorb_node E' src) ns ?t)"
    by (intro loop_listed_trusted t) (simp add: listed_trusted_def)
  have "relevant ?t n" using assms(4,6,7) t(2) gone(3) by (simp add: relevant_def)
  then have "covers (fold (absorb_node E' src) ns ?t) n" using t(1) assms(5) by (intro covers_loop)
  then have listed: "cx_nodes (fold (absorb_node E' src) ns ?t) j \<noteq> None" using assms(6) by (auto simp: covers_def)
  have "process_message E' c1 src (SyncResponse ns) s = emit NetworkChange (fold (absorb_node E' src) ns ?t)"
    using assms(8) by (simp add: process_message_def absorb_nodes_def Let_def)
  then show ?thesis
    using gone(2) lt listed by (auto simp: listed_trusted_def is_node_trusted_def)
qed

theorem removal_is_undone_by_gossip_witness:
  "is_node_trusted (process_message (demo_env 200)
      (fst (remove_node_cmd demo_admin_lib (\<lambda>x. False) (demo_env 200) save_ctx registry_new ''x''))
      (EndpointId 2) (SyncResponse [demo_node]) \<lparr>vs_trusted = True, vs_fresh = True\<rparr>) (EndpointId 1)"
proof -
  obtain c1 r1 out where eq: "remove_node_cmd demo_admin_lib (\<lambda>x. False) (demo_env 200) save_ctx registry_new ''x'' = (c1, r1, out)"
    by (metis prod_cases3)
  have res: "resolve_node_id demo_admin_lib (demo_env 200) save_ctx registry_new ''x'' = Inr (EndpointId 1)"
    by (simp add: resolve_node_id_def demo_admin_lib_def)
  have "EndpointId 1 \<noteq> node_id (cx_me save_ctx)" by (simp add: save_ctx_def)
  from removal_is_undone_by_gossip [OF save_ctx_saved(1) eq res this, of demo_node "[demo_node]" "\<lparr>vs_trusted = True, vs_fresh = True\<rparr>" "demo_env 200"]
  show ?thesis by (simp add: eq vs_passed_def demo_node_def)
qed

end
