(* ===== verification/Http_Wire.thy ===== *)
theory Http_Wire
  imports Admin_Http Text_Trim
begin

text \<open>
  Reading back what the HTTP daemon and client write: where the header ends, however the bytes
  arrive, which lines it has, and that request and response are parsed into what was sent.
\<close>

section \<open>The end of the header\<close>

lemma find_sub_Some:
  "pat \<noteq> [] \<Longrightarrow> find_sub pat s = Some i \<longleftrightarrow> prefix pat (drop i s) \<and> (\<forall>j < i. \<not> prefix pat (drop j s))"
proof (induction s arbitrary: i)
  case (Cons c s)
  show ?case
  proof (cases i)
    case (Suc k)
    with Cons show ?thesis by (auto simp: less_Suc_eq_0_disj)
  qed (use Cons in auto)
qed auto

lemma find_sub_bound: "pat \<noteq> [] \<Longrightarrow> find_sub pat s = Some i \<Longrightarrow> i + length pat \<le> length s"
proof -
  assume "pat \<noteq> []" and "find_sub pat s = Some i"
  then have "length pat \<le> length (drop i s)" by (auto simp: find_sub_Some dest: prefix_length_le)
  moreover have "0 < length pat" using \<open>pat \<noteq> []\<close> by simp
  ultimately show ?thesis unfolding length_drop by linarith
qed

lemma find_sub_extend: "pat \<noteq> [] \<Longrightarrow> find_sub pat x = Some i \<Longrightarrow> find_sub pat (x @ y) = Some i"
proof -
  assume p: "pat \<noteq> []" and x: "find_sub pat x = Some i"
  have b: "i + length pat \<le> length x" using p x by (rule find_sub_bound)
  have same: "prefix pat (drop j (x @ y)) \<longleftrightarrow> prefix pat (drop j x)" if "j \<le> i" for j
  proof -
    have "length pat \<le> length (drop j x)" and "drop j (x @ y) = drop j x @ y" using that b by simp_all
    then show ?thesis by (auto simp: prefix_append)
  qed
  have "prefix pat (drop i x)" "\<forall>j < i. \<not> prefix pat (drop j x)" using p x by (simp_all add: find_sub_Some)
  then show ?thesis using p same by (simp add: find_sub_Some)
qed

lemma find_sub_skip: "hd pat \<notin> set l \<Longrightarrow> pat \<noteq> [] \<Longrightarrow> find_sub pat (l @ t) = map_option ((+) (length l)) (find_sub pat t)"
proof (induction l)
  case (Cons c l)
  then have "\<not> prefix pat ((c # l) @ t)" by (cases pat) auto
  with Cons show ?case by (simp add: option.map_comp comp_def)
qed (cases "find_sub pat t", simp_all)

definition header_lines :: "string list \<Rightarrow> string" where
  "header_lines ls = concat (map (\<lambda>l. l @ CRLF) ls)"

lemma header_lines_simps [simp]:
  "header_lines [] = []" "header_lines (l # ls) = l @ CR # LF # header_lines ls"
  by (simp_all add: header_lines_def)

definition header_line :: "string \<Rightarrow> bool" where
  "header_line l \<longleftrightarrow> l \<noteq> [] \<and> list_all is_ascii l \<and> CR \<notin> set l \<and> LF \<notin> set l"

lemma find_terminator:
  "ls \<noteq> [] \<Longrightarrow> list_all header_line ls \<Longrightarrow>
   find_sub header_terminator (header_lines ls @ CRLF @ rest) = Some (length (header_lines ls) - 2)"
proof (induction ls)
  case (Cons l ls)
  have l: "find_sub header_terminator (l @ t) = map_option ((+) (length l)) (find_sub header_terminator t)" for t
    using Cons.prems(2) by (intro find_sub_skip) (auto simp: header_terminator_def header_line_def)
  show ?case
  proof (cases ls)
    case Nil
    then show ?thesis using l [of "CR # LF # CRLF @ rest"] by (simp add: header_terminator_def)
  next
    case (Cons k ks)
    then obtain c k' where k: "k = c # k'" "c \<noteq> CR"
      using Cons.prems(2) by (cases k) (auto simp: header_line_def)
    have IH: "find_sub header_terminator (header_lines ls @ CRLF @ rest) = Some (length (header_lines ls) - 2)"
      using Cons Cons.prems by (intro Cons.IH) simp_all
    have "find_sub header_terminator (CR # LF # header_lines ls @ CRLF @ rest)
        = Some (Suc (Suc (length (header_lines ls) - 2)))"
      using k Cons IH by (simp add: header_terminator_def)
    then show ?thesis using l [of "CR # LF # header_lines ls @ CRLF @ rest"] Cons by simp
  qed
qed simp

section \<open>The lines of the header\<close>

lemma split_crlf_line: "CR \<notin> set l \<Longrightarrow> split_crlf (l @ CR # LF # t) = l # split_crlf t"
proof (induction l)
  case (Cons c l)
  then show ?case by (cases l) auto
qed simp

lemma split_header_lines: "list_all header_line ls \<Longrightarrow> split_crlf (header_lines ls @ CRLF) = ls @ [[], []]"
  by (induction ls) (simp_all add: header_line_def split_crlf_line)

lemma split_on_LF_lines: "list_all header_line ls \<Longrightarrow> split_on LF (header_lines ls @ rest) = map (\<lambda>l. l @ [CR]) ls @ split_on LF rest"
proof (induction ls)
  case (Cons l ls)
  have "LF \<notin> set (l @ [CR])" using Cons.prems by (simp add: header_line_def)
  from split_on_append [OF this, of "header_lines ls @ rest"] Cons show ?case by simp
qed simp

lemma header_lines_ascii: "list_all header_line ls \<Longrightarrow> list_all is_ascii (header_lines ls)"
  by (induction ls) (auto simp: header_line_def is_ascii_def code_in_def)

section \<open>Words and values\<close>

definition plain_word :: "string \<Rightarrow> bool" where
  "plain_word w \<longleftrightarrow> w \<noteq> [] \<and> list_all (\<lambda>c. is_ascii c \<and> \<not> ws_char c) w"

lemma ws_prefix_start: "list_ex (\<lambda>w. prefix w (c # s)) ws_encodings \<Longrightarrow> ws_char c"
proof -
  assume "list_ex (\<lambda>w. prefix w (c # s)) ws_encodings"
  then obtain w where w: "w \<in> set ws_encodings" "prefix w (c # s)" by (auto simp: list_ex_iff)
  with ws_encodings_ends [OF w(1)] show ?thesis by (cases w) auto
qed

lemma until_ws_word: "list_all (\<lambda>c. \<not> ws_char c) w \<Longrightarrow> until_ws (w @ CHR '' '' # s) = w"
proof (induction w)
  case Nil
  have "list_ex (\<lambda>w. prefix w (CHR '' '' # s)) ws_encodings" by (simp add: ws_encodings_def)
  then show ?case by simp
next
  case (Cons c w)
  then show ?case using ws_prefix_start [of c "w @ CHR '' '' # s"] by auto
qed

lemma until_ws_last: "list_all (\<lambda>c. \<not> ws_char c) w \<Longrightarrow> until_ws w = w"
proof (induction w)
  case (Cons c w)
  then show ?case using ws_prefix_start [of c w] by auto
qed simp

lemma trim_start_blank: "s = [] \<or> \<not> ws_char (hd s) \<Longrightarrow> trim_start (CHR '' '' # s) = s"
proof -
  assume s: "s = [] \<or> \<not> ws_char (hd s)"
  have "find (\<lambda>w. w \<noteq> [] \<and> prefix w (CHR '' '' # s)) ws_encodings = Some '' ''"
    by (simp add: ws_encodings_def)
  then have "trim_start (CHR '' '' # s) = strip_any ws_encodings s"
    unfolding trim_start_def by (subst strip_any.simps) simp
  with trim_start_id [OF s] show ?thesis by (simp add: trim_start_def)
qed

lemma plain_word_hd: "plain_word w \<Longrightarrow> w \<noteq> [] \<and> \<not> ws_char (hd w) \<and> \<not> ws_char (last w)"
  by (cases w) (auto simp: plain_word_def list_all_iff)

lemma trim_blank_word: "plain_word w \<Longrightarrow> trim (CHR '' '' # w) = w"
  using plain_word_hd [of w] by (simp add: trim_def trim_start_blank trim_end_id)

lemma split_ws_first: "plain_word w \<Longrightarrow> split_whitespace (w @ CHR '' '' # s) = w # split_whitespace (CHR '' '' # s)"
proof -
  assume w: "plain_word w"
  have "trim_start (w @ CHR '' '' # s) = w @ CHR '' '' # s"
    using plain_word_hd [OF w] by (intro trim_start_id) simp
  moreover have "until_ws (w @ CHR '' '' # s) = w"
    using w by (intro until_ws_word) (auto simp: plain_word_def list_all_iff)
  ultimately show ?thesis
    using w by (subst split_whitespace.simps) (simp add: plain_word_def Let_def)
qed

lemma split_ws_blank: "s = [] \<or> \<not> ws_char (hd s) \<Longrightarrow> split_whitespace (CHR '' '' # s) = split_whitespace s"
  by (simp add: split_whitespace.simps [of "CHR '' '' # s"] split_whitespace.simps [of s] trim_start_blank trim_start_id Let_def)

lemma split_ws_last: "plain_word w \<Longrightarrow> split_whitespace w = [w]"
proof -
  assume w: "plain_word w"
  have "split_whitespace [] = []" by (subst split_whitespace.simps) (simp add: trim_start_id Let_def)
  moreover have "trim_start w = w" "until_ws w = w"
    using w plain_word_hd [OF w] by (auto intro: trim_start_id until_ws_last simp: plain_word_def list_all_iff)
  ultimately show ?thesis using w by (subst split_whitespace.simps) (simp add: plain_word_def Let_def)
qed


section \<open>How long the printed numbers and addresses are\<close>

lemma show_nat_length: "n < 10 ^ k \<Longrightarrow> 0 < k \<Longrightarrow> length (show_nat n) \<le> k"
proof (induction k arbitrary: n)
  case (Suc k)
  show ?case
  proof (cases "n < 10")
    case False
    then have "0 < k" "n div 10 < 10 ^ k" using Suc.prems(1) by (cases k, auto simp: div_less_iff_less_mult mult.commute)
    then have "length (show_nat (n div 10)) \<le> k" by (intro Suc.IH)
    with False show ?thesis by (subst show_nat.simps) simp
  qed (subst show_nat.simps, simp)
qed simp

lemma show_hex_length: "n < 16 ^ k \<Longrightarrow> 0 < k \<Longrightarrow> length (show_hex n) \<le> k"
proof (induction k arbitrary: n)
  case (Suc k)
  show ?case
  proof (cases "n < 16")
    case False
    then have "0 < k" "n div 16 < 16 ^ k" using Suc.prems(1) by (cases k, auto simp: div_less_iff_less_mult mult.commute)
    then have "length (show_hex (n div 16)) \<le> k" by (intro Suc.IH)
    with False show ?thesis by (subst show_hex.simps) simp
  qed (subst show_hex.simps, simp)
qed simp

lemma join_length: "(\<And>x. x \<in> set xs \<Longrightarrow> length x \<le> m) \<Longrightarrow> length (join sep xs) \<le> (m + length sep) * length xs"
proof (induction sep xs rule: join.induct)
  case (3 sep x y ys)
  then have "length (join sep (y # ys)) \<le> (m + length sep) * length (y # ys)" "length x \<le> m" by auto
  then show ?case by (simp add: algebra_simps)
qed auto

lemma show_ipv4_length: "length (show_ipv4 a) \<le> 16"
proof -
  have "length (show_nat (ipv4_octet i a)) \<le> 3" for i
  proof (rule show_nat_length)
    have "ipv4_octet i a < 256" by (simp add: ipv4_octet_def)
    then show "ipv4_octet i a < 10 ^ 3" by simp
  qed simp
  then have "length (show_ipv4 a) \<le> (3 + length ''.'') * length [0 :: nat, 1, 2, 3]"
    unfolding show_ipv4_def using join_length [of "map (\<lambda>i. show_nat (ipv4_octet i a)) [0, 1, 2, 3]" 3 "''.''"] by auto
  then show ?thesis by simp
qed

lemma show_segments_length:
  "(\<And>x. x \<in> set ss \<Longrightarrow> x < 65536) \<Longrightarrow> length ss \<le> 8 \<Longrightarrow> length (show_segments ss) \<le> 40"
proof -
  assume ss: "\<And>x. x \<in> set ss \<Longrightarrow> x < 65536" and len: "length ss \<le> 8"
  have "length (show_hex x) \<le> 4" if "x \<in> set ss" for x
    using ss [OF that] by (intro show_hex_length) simp_all
  then have "length (show_segments ss) \<le> (4 + length '':'') * length (map show_hex ss)"
    unfolding show_segments_def by (intro join_length) auto
  with len show ?thesis by simp
qed

lemma show_ip_length: "length (show_ip a) \<le> 100"
proof (cases a)
  case (IpV4 w)
  then show ?thesis using show_ipv4_length [of w] by simp
next
  case (IpV6 w)
  define ss where "ss = map (\<lambda>i. ipv6_segment i w) [0, 1, 2, 3, 4, 5, 6, 7]"
  have x: "x < 65536" if "x \<in> set ss" for x
    using that by (auto simp: ss_def ipv6_segment_def)
  have 8: "length ss = 8" by (simp add: ss_def)
  have part: "length (show_segments (take n ss)) \<le> 40" "length (show_segments (drop n ss)) \<le> 40"
    "length (show_segments ss) \<le> 40" for n
    using 8 x by (auto intro!: show_segments_length dest: in_set_takeD in_set_dropD)
  obtain start len where z: "zero_run 0 (0, 0) (0, 0) ss = (start, len)" by force
  have "length (show_ipv6 w) \<le> 100"
    unfolding show_ipv6_def Let_def ss_def [symmetric] z prod.case
    using part(1) [of start] part(2) [of "start + len"] part(3)
      show_ipv4_length [of "of_nat (unat w mod 2 ^ 32)"]
    by (auto split: if_split)
  with IpV6 show ?thesis by simp
qed

lemma show_socket_addr_length: "length (show_socket_addr a) \<le> 200"
proof (cases a)
  case (SockV4 i p)
  have "unat p < 10 ^ 5" using unsigned_less [of p, where 'a = nat] by simp
  then have "length (show_nat (unat p)) \<le> 5" by (intro show_nat_length) simp_all
  with SockV4 show ?thesis using show_ip_length [of "IpV4 i"] by simp
next
  case (SockV6 i p f sc)
  have "unat p < 10 ^ 5" "unat sc < 10 ^ 10"
    using unsigned_less [of p, where 'a = nat] unsigned_less [of sc, where 'a = nat] by simp_all
  then have "length (show_nat (unat p)) \<le> 5" "length (show_nat (unat sc)) \<le> 10"
    by (auto intro!: show_nat_length)
  with SockV6 show ?thesis using show_ip_length [of "IpV6 i"] by simp
qed


section \<open>Reading in pieces\<close>

lemma find_sub_shrink:
  assumes "pat \<noteq> []" and "find_sub pat (x @ y) = Some p" and "p + length pat \<le> length x"
  shows "find_sub pat x = Some p"
proof -
  have same: "prefix pat (drop j (x @ y)) \<longleftrightarrow> prefix pat (drop j x)" if "j \<le> p" for j
  proof -
    have "length pat \<le> length (drop j x)" and "drop j (x @ y) = drop j x @ y" using that assms(3) by simp_all
    then show ?thesis by (auto simp: prefix_append)
  qed
  have "prefix pat (drop p (x @ y))" "\<forall>j < p. \<not> prefix pat (drop j (x @ y))"
    using assms(1,2) by (simp_all add: find_sub_Some)
  then show ?thesis using assms(1) same by (simp add: find_sub_Some)
qed

lemma terminator_facts: "header_terminator \<noteq> []" "length header_terminator = 4"
  by (simp_all add: header_terminator_def)

lemma read_some_step:
  assumes "r \<noteq> None" and "0 < cap" and "s \<noteq> []"
  obtains chunk rest where "read_some r cap s = Inr (chunk, rest)" "s = chunk @ rest" "chunk \<noteq> []" "length chunk \<le> cap"
proof -
  from assms(1) obtain chunk rest where r: "read_some r cap s = Inr (chunk, rest)"
    by (auto simp: read_some_def Let_def)
  with assms show ?thesis by (intro that [OF r]) (auto dest: read_some_Inr read_some_nonempty)
qed

lemma read_head_ok:
  assumes "\<And>i. rd i \<noteq> None" and "find_sub header_terminator (buf @ s) = Some p"
    and "find_sub header_terminator buf = None" and "p + 4 \<le> max_header_size"
  shows "\<exists>extra i' rest. read_head rd i buf s = Inr (take (p + 4) (buf @ s) @ extra, p + 4, i', rest)
    \<and> drop (p + 4) (buf @ s) = extra @ rest"
  using assms
proof (induction rd i buf s rule: read_head.induct)
  case (1 rd i buf s)
  have "s \<noteq> []" using 1 by auto
  then obtain chunk rest where r: "read_some (rd i) 1024 s = Inr (chunk, rest)" "s = chunk @ rest" "chunk \<noteq> []"
    using read_some_step [of "rd i" 1024 s, OF 1(2)] by (metis zero_less_numeral)
  have p: "find_sub header_terminator ((buf @ chunk) @ rest) = Some p" using 1(3) r(2) by simp
  show ?case
  proof (cases "find_sub header_terminator (buf @ chunk)")
    case None
    have "length (buf @ chunk) < p + 4"
    proof (rule ccontr)
      assume "\<not> ?thesis"
      then have "find_sub header_terminator (buf @ chunk) = Some p"
        by (intro find_sub_shrink [OF terminator_facts(1) p]) (simp add: terminator_facts(2))
      with None show False by simp
    qed
    then have "\<not> max_header_size < length (buf @ chunk)" using 1(5) by simp
    then have "read_head rd i buf s = read_head rd (Suc i) (buf @ chunk) rest"
      using r None by (subst read_head.simps) simp
    moreover have "\<exists>extra i' rest'. read_head rd (Suc i) (buf @ chunk) rest
        = Inr (take (p + 4) ((buf @ chunk) @ rest) @ extra, p + 4, i', rest')
        \<and> drop (p + 4) ((buf @ chunk) @ rest) = extra @ rest'"
      by (rule 1(1) [OF r(1) refl r(3) None])
        (use \<open>\<not> max_header_size < length (buf @ chunk)\<close> 1(2,5) p None in simp_all)
    ultimately show ?thesis using r(2) by simp
  next
    case (Some q)
    then have "q = p" using find_sub_extend [OF terminator_facts(1) Some, of rest] p by simp
    moreover have "p + 4 \<le> length (buf @ chunk)"
      using find_sub_bound [OF terminator_facts(1) Some] calculation by (simp add: terminator_facts(2))
    moreover have "read_head rd i buf s = Inr (buf @ chunk, q + 4, Suc i, rest)"
      using r Some by (subst read_head.simps) simp
    ultimately have "read_head rd i buf s
        = Inr (take (p + 4) (buf @ s) @ drop (p + 4) (buf @ chunk), p + 4, Suc i, rest)
      \<and> drop (p + 4) (buf @ s) = drop (p + 4) (buf @ chunk) @ rest"
      using r(2) append_take_drop_id [of "p + 4" "buf @ chunk"]
        take_append [of "p + 4" "buf @ chunk" rest] drop_append [of "p + 4" "buf @ chunk" rest] by simp
    then show ?thesis by blast
  qed
qed

lemma read_body_ok:
  assumes "\<And>i. rd i \<noteq> None" and "length body + length s = n" and "n \<le> max_body_size"
  shows "read_body rd i n body s = Inr (body @ s)"
  using assms
proof (induction rd i n body s rule: read_body.induct)
  case (1 rd i n body s)
  show ?case
  proof (cases "s = []")
    case False
    then have "\<not> n \<le> length body" and "0 < n - length body" using 1(3) by auto
    obtain chunk rest where r: "read_some (rd i) (n - length body) s = Inr (chunk, rest)" "s = chunk @ rest" "chunk \<noteq> []"
      using 1(2) \<open>0 < n - length body\<close> False by (rule read_some_step) auto
    then have "\<not> max_body_size < length (body @ chunk)" using 1(3,4) by simp
    then have "read_body rd i n body s = read_body rd (Suc i) n (body @ chunk) rest"
      using r \<open>\<not> n \<le> length body\<close> by (subst read_body.simps) simp
    also have "\<dots> = Inr ((body @ chunk) @ rest)"
      by (rule 1(1) [OF \<open>\<not> n \<le> length body\<close> r(1) refl r(3)])
        (use \<open>\<not> max_body_size < length (body @ chunk)\<close> 1(2-4) r(2) in simp_all)
    finally show ?thesis using r(2) by simp
  qed (use 1 in \<open>subst read_body.simps, simp\<close>)
qed


section \<open>The client's request\<close>

definition request_lines :: "string \<Rightarrow> socket_addr \<Rightarrow> nat \<Rightarrow> string list" where
  "request_lines path bind n =
     [''POST '' @ path @ '' HTTP/1.1'', ''Host: '' @ show_socket_addr bind,
      ''Content-Type: application/postcard'', ''Content-Length: '' @ show_nat n, ''Connection: close'']"

lemma http_request_lines:
  "http_request path bind body = header_lines (request_lines path bind (length body)) @ CRLF @ body"
  by (simp add: http_request_def request_lines_def)

definition line_char :: "char \<Rightarrow> bool" where
  "line_char c \<longleftrightarrow> is_ascii c \<and> c \<noteq> CR \<and> c \<noteq> LF"

lemma header_line_iff: "header_line l \<longleftrightarrow> l \<noteq> [] \<and> list_all line_char l"
  by (auto simp: header_line_def line_char_def list_all_iff)

lemma line_char_sources: "ip_char c \<Longrightarrow> line_char c" "is_ascii c \<Longrightarrow> \<not> ws_char c \<Longrightarrow> line_char c"
  by (auto simp: line_char_def ip_char_plain ws_char_def code_in_def)

lemma show_nat_line [simp]: "list_all line_char (show_nat n)"
  using show_nat_ip [of n] by (rule list.pred_mono_strong) (simp add: line_char_sources)

lemma show_ip_line [simp]: "list_all line_char (show_ip a)"
  using show_ip_chars [of a] by (rule list.pred_mono_strong) (simp add: line_char_sources)

lemma plain_word_line: "plain_word w \<Longrightarrow> list_all line_char w"
  by (auto simp: plain_word_def list_all_iff line_char_sources)

lemma show_socket_addr_line [simp]: "list_all line_char (show_socket_addr a)"
proof -
  have "line_char (CHR '':'')" "line_char (CHR ''['')" "line_char (CHR '']'')" "line_char (CHR ''%'')"
    by (simp_all add: line_char_def is_ascii_def code_in_def)
  then show ?thesis by (cases a) (simp_all del: show_ip.simps)
qed

lemma request_lines_ok: "plain_word path \<Longrightarrow> list_all header_line (request_lines path bind n)"
  using plain_word_line [of path]
  by (simp add: request_lines_def header_line_iff) (simp add: line_char_def is_ascii_def code_in_def)

lemma request_length: "length path \<le> 1000 \<Longrightarrow> n \<le> max_body_size \<Longrightarrow> length (header_lines (request_lines path bind n)) \<le> 2000"
proof -
  assume path: "length path \<le> 1000" and "n \<le> max_body_size"
  then have "n < 10 ^ 7" by (simp add: max_body_size_def)
  then have "length (show_nat n) \<le> 7" by (intro show_nat_length) simp_all
  with path show_socket_addr_length [of bind] show ?thesis by (simp add: request_lines_def)
qed

lemma show_nat_plain: "plain_word (show_nat n)"
  using show_nat_ip [of n] show_nat_not_Nil [of n] by (auto simp: plain_word_def list_all_iff ip_char_plain)

lemma split_once_colon: "c \<notin> set k \<Longrightarrow> split_once c (k @ c # v) = Some (k, v)"
  by (induction k) (auto simp: split_once_def)

lemma request_headers:
  "parse_headers (tl (request_lines path bind n) @ [[], []]) ''content-length'' = Some (show_nat n)"
  "parse_headers (tl (request_lines path bind n) @ [[], []]) ''content-type'' = Some ''application/postcard''"
proof -
  have keys: "trim ''Host'' = ''Host''" "trim ''Content-Type'' = ''Content-Type''"
    "trim ''Content-Length'' = ''Content-Length''" "trim ''Connection'' = ''Connection''"
    by (rule trim_id, simp add: ws_char_def code_in_def)+
  have lower: "to_ascii_lowercase ''Host'' = ''host''" "to_ascii_lowercase ''Content-Type'' = ''content-type''"
    "to_ascii_lowercase ''Content-Length'' = ''content-length''" "to_ascii_lowercase ''Connection'' = ''connection''"
    by code_simp+
  have lines: "split_once (CHR '':'') (''Host: '' @ v) = Some (''Host'', CHR '' '' # v)"
    "split_once (CHR '':'') (''Content-Type: '' @ v) = Some (''Content-Type'', CHR '' '' # v)"
    "split_once (CHR '':'') (''Content-Length: '' @ v) = Some (''Content-Length'', CHR '' '' # v)"
    "split_once (CHR '':'') (''Connection: '' @ v) = Some (''Connection'', CHR '' '' # v)" for v
    using split_once_colon [of "CHR '':''" "''Host''" "CHR '' '' # v"]
      split_once_colon [of "CHR '':''" "''Content-Type''" "CHR '' '' # v"]
      split_once_colon [of "CHR '':''" "''Content-Length''" "CHR '' '' # v"]
      split_once_colon [of "CHR '':''" "''Connection''" "CHR '' '' # v"] by simp_all
  have vals: "trim (CHR '' '' # show_nat n) = show_nat n"
    "trim (CHR '' '' # ''application/postcard'') = ''application/postcard''"
    by (rule trim_blank_word, rule show_nat_plain) (rule trim_blank_word, simp add: plain_word_def is_ascii_def ws_char_def code_in_def)
  have tw: "takeWhile (\<lambda>l. l \<noteq> []) (tl (request_lines path bind n) @ [[], []])
      = [''Host: '' @ show_socket_addr bind, ''Content-Type: '' @ ''application/postcard'',
         ''Content-Length: '' @ show_nat n, ''Connection: '' @ ''close'']"
    by (simp add: request_lines_def)
  show "parse_headers (tl (request_lines path bind n) @ [[], []]) ''content-length'' = Some (show_nat n)"
    "parse_headers (tl (request_lines path bind n) @ [[], []]) ''content-type'' = Some ''application/postcard''"
    unfolding parse_headers_def tw fold.simps comp_def id_def lines option.case prod.case keys lower vals
    by simp_all
qed

lemma read_request:
  assumes "\<And>i. rd i \<noteq> None" and "plain_word path" and "length path \<le> 1000" and "length body \<le> max_body_size"
  obtains headers where "read_http_request rd (http_request path bind body) = Inr (''POST'', path, headers, body)"
    and "headers ''content-type'' = Some ''application/postcard''"
proof -
  let ?ls = "request_lines path bind (length body)" and ?in = "http_request path bind body"
  let ?h = "header_lines ?ls"
  have hl: "list_all header_line ?ls" using assms(2) by (rule request_lines_ok)
  have long: "2 \<le> length ?h" by (simp add: request_lines_def)
  have cut: "?in = (?h @ CRLF) @ body" by (simp add: http_request_lines)
  have "find_sub header_terminator ?in = Some (length ?h - 2)"
    unfolding http_request_lines by (rule find_terminator [OF _ hl]) (simp add: request_lines_def)
  moreover have "find_sub header_terminator [] = None" by (simp add: header_terminator_def)
  moreover have "length ?h - 2 + 4 \<le> max_header_size"
    using request_length [OF assms(3,4), of bind] by (simp add: max_header_size_def)
  ultimately obtain extra i' rest where
    "read_head rd 0 [] ?in = Inr (take (length ?h - 2 + 4) ([] @ ?in) @ extra, length ?h - 2 + 4, i', rest)"
    and ex: "drop (length ?h - 2 + 4) ([] @ ?in) = extra @ rest"
    using read_head_ok [of rd "[]" ?in "length ?h - 2" 0] assms(1) by auto
  moreover have n: "length ?h - 2 + 4 = length (?h @ CRLF)" using long by simp
  ultimately have head: "read_head rd 0 [] ?in = Inr ((?h @ CRLF) @ extra, length (?h @ CRLF), i', rest)"
    and body: "body = extra @ rest"
    unfolding n cut by simp_all
  have utf8: "utf8_ok (?h @ CRLF)"
    using header_lines_ascii [OF hl] by (intro utf8_ok_ascii) (simp add: is_ascii_def code_in_def)
  have parts: "split_whitespace (hd ?ls) = [''POST'', path, ''HTTP/1.1'']"
  proof -
    have w: "plain_word ''POST''" "plain_word ''HTTP/1.1''"
      by (simp_all add: plain_word_def is_ascii_def ws_char_def code_in_def)
    have "split_whitespace (''POST'' @ CHR '' '' # path @ CHR '' '' # ''HTTP/1.1'') = [''POST'', path, ''HTTP/1.1'']"
      using w assms(2) plain_word_hd [OF assms(2)] plain_word_hd [OF w(2)]
      by (simp only: split_ws_first) (simp add: split_ws_blank split_ws_first split_ws_last)
    then show ?thesis by (simp add: request_lines_def)
  qed
  let ?hs = "parse_headers (tl ?ls @ [[], []])"
  have "split_crlf (?h @ CRLF) = ?ls @ [[], []]" using hl by (rule split_header_lines)
  then have parsed: "parse_header_text (?h @ CRLF) = (''POST'', path, ?hs)"
    using parts by (simp add: parse_header_text_def nth_or_empty_def request_lines_def)
  have "length body < 2 ^ 64" using assms(4) by (simp add: max_body_size_def)
  then have len: "content_length ?hs = Inr (length body)"
    by (simp add: content_length_def request_headers parse_show_nat)
  have rb: "read_body rd i' (length body) extra rest = Inr (extra @ rest)"
    using assms body by (intro read_body_ok) simp_all
  have "length extra \<le> max_body_size" using body assms(4) by simp
  then have "read_http_request rd ?in = Inr (''POST'', path, ?hs, body)"
    using head utf8 parsed len rb assms(4) body
    by (simp add: read_http_request_def not_less)
  then show ?thesis using request_headers(2) by (rule that)
qed


section \<open>The daemon's response\<close>

definition response_lines :: "nat \<Rightarrow> string \<Rightarrow> nat \<Rightarrow> string list" where
  "response_lines status content_type n =
     [''HTTP/1.1 '' @ show_nat status @ '' '' @ reason_of status, ''Content-Type: '' @ content_type,
      ''Content-Length: '' @ show_nat n, ''Connection: close'']"

lemma write_response_lines:
  "write_response status content_type body
     = header_lines (response_lines status content_type (length body)) @ CRLF @ body"
  by (simp add: write_response_def response_lines_def)

lemma reason_line: "list_all line_char (reason_of status)"
  by (simp add: line_char_def is_ascii_def code_in_def)

lemma response_lines_ok:
  "list_all line_char content_type \<Longrightarrow> list_all header_line (response_lines status content_type n)"
  using reason_line [of status]
  by (simp add: response_lines_def header_line_iff del: reason_of.simps)
    (simp add: line_char_def is_ascii_def code_in_def)

lemma first_buf_line: "LF \<notin> set l \<Longrightarrow> \<exists>ls. buf_lines (l @ CR # LF # s) = l # ls"
proof -
  assume "LF \<notin> set l"
  then have "LF \<notin> set (l @ [CR])" by simp
  from split_on_append [OF this, of s] have "split_on LF (l @ CR # LF # s) = (l @ [CR]) # split_on LF s" by simp
  then show ?thesis by (simp add: buf_lines_def Let_def strip_cr_def)
qed

lemma read_response:
  assumes "status < 65536" and "list_all line_char content_type"
  shows "parse_http_response (write_response status content_type body) = Inr (status, body)"
proof -
  let ?ls = "response_lines status content_type (length body)"
  let ?h = "header_lines ?ls" and ?r = "write_response status content_type body"
  have hl: "list_all header_line ?ls" using assms(2) by (rule response_lines_ok)
  have fs: "find_sub header_terminator ?r = Some (length ?h - 2)"
    unfolding write_response_lines by (rule find_terminator [OF _ hl]) (simp add: response_lines_def)
  have head: "take (length ?h - 2) ?r = take (length ?h - 2) ?h" by (simp add: write_response_lines)
  have rest: "drop (length ?h - 2 + 4) ?r = body"
  proof -
    have "length ?h - 2 + 4 = length (?h @ CRLF)" by (simp add: response_lines_def)
    moreover have "?r = (?h @ CRLF) @ body" by (simp add: write_response_lines)
    ultimately show ?thesis by (simp only: drop_append) simp
  qed
  have "list_all is_ascii (take (length ?h - 2) ?h)"
    using header_lines_ascii [OF hl] by (auto simp: list_all_iff dest: in_set_takeD)
  then have utf8: "utf8_ok (take (length ?h - 2) ?r)" unfolding head by (rule utf8_ok_ascii)
  let ?l = "''HTTP/1.1 '' @ show_nat status @ '' '' @ reason_of status"
  obtain rs where ls: "?ls = ?l # rs" and rs: "2 \<le> length (header_lines rs)" by (simp add: response_lines_def)
  let ?n = "length (header_lines rs) - 2"
  have cut: "take (length (a @ b) - 2) (a @ b) = a @ take (length b - 2) b" if "2 \<le> length b" for a b :: string
    using that by (simp add: add_diff_assoc)
  have "?h = (?l @ CRLF) @ header_lines rs" unfolding ls by simp
  then have "take (length ?h - 2) ?h = (?l @ CRLF) @ take ?n (header_lines rs)" using cut [OF rs] by (simp only:)
  then have "take (length ?h - 2) ?h = ?l @ CR # LF # take ?n (header_lines rs)" by simp
  moreover have "LF \<notin> set ?l" using hl by (simp add: response_lines_def header_line_def del: reason_of.simps)
  ultimately obtain ls where lines: "buf_lines (take (length ?h - 2) ?r) = ?l # ls"
    unfolding head using first_buf_line [of ?l "take ?n (header_lines rs)"] by auto
  have w: "plain_word ''HTTP/1.1''" by (simp add: plain_word_def is_ascii_def ws_char_def code_in_def)
  have "split_whitespace (''HTTP/1.1'' @ CHR '' '' # show_nat status @ CHR '' '' # reason_of status)
      = ''HTTP/1.1'' # show_nat status # split_whitespace (CHR '' '' # reason_of status)"
    using plain_word_hd [OF show_nat_plain [of status]]
    by (simp only: split_ws_first [OF w]) (simp add: split_ws_blank split_ws_first show_nat_plain del: reason_of.simps)
  then have ws: "split_whitespace ?l = ''HTTP/1.1'' # show_nat status # split_whitespace (CHR '' '' # reason_of status)"
    by simp
  have "parse_unsigned 16 (show_nat status) = Some status" using assms(1) by (intro parse_show_nat) simp
  then show ?thesis
    unfolding parse_http_response_def fs option.case Let_def lines list.case ws rest
    using utf8 by simp
qed

end
