(* ===== verification/Wire_Props.thy ===== *)
theory Wire_Props
  imports Admin_Props Http_Wire
begin

text \<open>
  Whole dialogues over the wire: a direct message from one daemon to another, a command of the
  client over the admin socket, and one over HTTP, each from the bytes that the sender writes to
  what the receiver makes of them; and what a remote HTTP client can do without a ticket.
\<close>

section \<open>Messages that fit\<close>

definition fits :: "('a \<Rightarrow> bytes option) \<Rightarrow> 'a \<Rightarrow> bool" where
  "fits enc x \<longleftrightarrow> (\<exists>b. enc x = Some b \<and> length b \<le> max_admin_frame)"

lemma fits_send:
  assumes "fits enc x" and "\<And>y b. enc y = Some b \<Longrightarrow> dec b = Some y"
  obtains f where "send_message enc x = Inr f" and "\<And>rest. read_message dec (f @ rest) = Inr (x, rest)"
proof -
  from assms(1) obtain b where b: "enc x = Some b" "length b \<le> max_admin_frame" by (auto simp: fits_def)
  then have s: "send_message enc x = Inr (admin_frame b)" by (simp add: send_message_def or_err_def)
  moreover have "read_message dec (admin_frame b @ rest) = Inr (x, rest)" for rest
    using assms(2) b by (intro read_send_message [OF s]) auto
  ultimately show ?thesis by (rule that)
qed

lemma admin_codec_okD:
  assumes "admin_codec_ok K"
  shows "enc_auth K a = Some b \<Longrightarrow> dec_auth K b = Some a"
    and "enc_auth_resp K r = Some b \<Longrightarrow> dec_auth_resp K b = Some r"
    and "enc_command K c = Some b \<Longrightarrow> dec_command K b = Some c"
    and "enc_response K s = Some b \<Longrightarrow> dec_response K b = Some s"
    and "enc_request K q = Some b \<Longrightarrow> dec_request K b = Some q"
  using assms by (simp_all add: admin_codec_ok_def)

section \<open>Who may command\<close>

lemma authenticate_proc_ok:
  assumes "authenticate_proc A E mode req p = (p', resp, who)"
    and "ticket_presented A req (pr_ctx p) \<or> mode = AllowLocalTicketless" and "client_key A req = Some pk"
  shows "who = Some pk" and "resp = accepted A (pr_ctx p)" and "is_client_node (pr_clients p') pk"
    and "full_permissions (pr_clients p) \<Longrightarrow> full_permissions (pr_clients p')"
    and "cx_me (pr_ctx p') = cx_me (pr_ctx p)" and "cx_ticket (pr_ctx p') = cx_ticket (pr_ctx p)"
    and "pr_fs p' = pr_fs p"
  using assms full_permissions_authenticate [of "pr_clients p" A E mode req "pr_ctx p"]
  by (auto simp: authenticate_proc_def authenticate_eq is_client_node_def add_client_def split: if_splits)

lemma authenticate_proc_refused:
  assumes "\<not> ticket_presented A req (pr_ctx p)" and "mode \<noteq> AllowLocalTicketless"
  shows "\<exists>resp. authenticate_proc A E mode req p = (p, resp, None) \<and> \<not> as_success resp"
  using assms by (simp add: authenticate_proc_def authenticate_eq)

lemma authenticate_again:
  assumes "ticket_presented A req (pr_ctx p) \<or> mode = AllowLocalTicketless"
    and "client_key A req = Some pk" and "is_client_node (pr_clients p) pk"
  shows "authenticate_proc A E mode req p = (p, accepted A (pr_ctx p), Some pk)"
  using assms by (simp add: authenticate_proc_def authenticate_eq)

lemma accepted_success [simp]: "as_success (accepted A c)"
  by (simp add: accepted_def)

section \<open>A concrete codec for the witnesses\<close>

text \<open>A client with the key of endpoint 2 and the ticket of \<open>demo_ctx\<close>, that pauses the daemon.\<close>

definition demo_request :: auth_request where
  "demo_request = \<lparr>ar_ticket = [CHR 0x01], ar_client_public_key = Some ''ab'', ar_client_name = Some ''cli''\<rparr>"

definition demo_codec :: admin_codec where
  "demo_codec =
     \<lparr>enc_auth = (\<lambda>x. if x = demo_request then Some [1] else None), dec_auth = (\<lambda>b. Some demo_request),
      enc_auth_resp = (\<lambda>x. if x = accepted demo_admin_lib demo_ctx then Some [2] else None),
      dec_auth_resp = (\<lambda>b. Some (accepted demo_admin_lib demo_ctx)),
      enc_command = (\<lambda>x. if x = Pause then Some [3] else None), dec_command = (\<lambda>b. Some Pause),
      enc_response = (\<lambda>x. if x = Ack ''Daemon paused'' then Some [4] else None),
      dec_response = (\<lambda>b. Some (Ack ''Daemon paused'')),
      enc_request = (\<lambda>x. if x = \<lparr>acr_auth = demo_request, acr_command = Pause\<rparr> then Some [5] else None),
      dec_request = (\<lambda>b. Some \<lparr>acr_auth = demo_request, acr_command = Pause\<rparr>)\<rparr>"

definition demo_step :: step_env where
  "demo_step = \<lparr>se_env = demo_env 200, se_db = (\<lambda>x. False), se_fs = \<lparr>fs_fails = (\<lambda>x. False), copied = None, written = (\<lambda>c. 0)\<rparr>,
     se_millis = 0, se_error_text = (\<lambda>e. ''io'')\<rparr>"

definition demo_proc :: proc where
  "demo_proc = \<lparr>pr_ctx = demo_ctx, pr_clients = registry_new,
     pr_fs = \<lparr>fs_files = Map.empty, fs_is_dir = (\<lambda>p. False)\<rparr>\<rparr>"

lemma demo_codec_ok: "admin_codec_ok demo_codec"
  by (simp add: admin_codec_ok_def demo_codec_def)

lemma demo_fits:
  "fits (enc_auth demo_codec) demo_request" "fits (enc_auth_resp demo_codec) (accepted demo_admin_lib demo_ctx)"
  "fits (enc_command demo_codec) Pause" "fits (enc_response demo_codec) (Ack ''Daemon paused'')"
  "fits (enc_request demo_codec) \<lparr>acr_auth = demo_request, acr_command = Pause\<rparr>"
  by (simp_all add: fits_def demo_codec_def max_admin_frame_def)

lemma demo_request_facts:
  "client_key demo_admin_lib demo_request = Some (EndpointId 2)"
  "ticket_presented demo_admin_lib demo_request demo_ctx"
  by (simp_all add: client_key_def demo_admin_lib_def demo_request_def ticket_presented_def ticket_from_str_def
      demo_ticket_lib_def or_err_def)

lemma demo_authenticate:
  obtains p1 where "authenticate_proc demo_admin_lib E mode demo_request demo_proc
      = (p1, accepted demo_admin_lib demo_ctx, Some (EndpointId 2))" "is_client_node (pr_clients p1) (EndpointId 2)"
proof -
  obtain p1 resp who where eq: "authenticate_proc demo_admin_lib E mode demo_request demo_proc = (p1, resp, who)"
    by (metis prod_cases3)
  have "ticket_presented demo_admin_lib demo_request (pr_ctx demo_proc) \<or> mode = AllowLocalTicketless"
    using demo_request_facts(2) by (simp add: demo_proc_def)
  from authenticate_proc_ok(1-3) [OF eq this demo_request_facts(1)] eq show ?thesis
    by (intro that) (simp_all add: demo_proc_def)
qed

lemma demo_pause: "command_proc A S Pause p = (p\<lparr>pr_ctx := set_paused (pr_ctx p) True\<rparr>, reply (Ack ''Daemon paused''))"
  by (simp add: command_proc_def)

section \<open>A direct message\<close>

text \<open>C19. A direct message arrives as it was sent: what \<open>send_msg\<close> writes for a message of at most
  4 MiB, \<open>recv_msg\<close> reads back to the last byte, and the daemon that decodes it finds the message, the
  sender's id and a valid signature, and considers it trusted and fresh exactly when the sender is
  in its table of trusted nodes and its own clock is at most 60 s ahead of the sender's and at most
  10 s behind it.\<close>

theorem direct_message_delivered:
  assumes "wire_lib_ok W" and "send_msg W t sk m = Inr sent"
    and "length sent \<le> max_message_size"
  shows "\<exists>enc. recv_msg sent = Inr (enc, [])
    \<and> decode_and_verify W now c enc = Inr (key_public W sk, m,
        \<lparr>vs_trusted = is_node_trusted c (key_public W sk),
         vs_fresh = (unat now \<le> unat t + 60 \<and> unat t \<le> unat now + 10)\<rparr>)"
proof -
  obtain enc where enc: "sign_and_encode_with_timestamp W sk m t = Inr enc" and w: "sent = p2p_frame enc"
    using assms(2) by (auto simp: send_msg_def sign_and_encode_def res_bind_Inr_iff)
  then have "length enc \<le> max_message_size" using assms(3) by (simp add: p2p_frame_def)
  then have "recv_msg sent = Inr (enc, [])" using p2p.read_back [of enc "[]"] w by simp
  moreover obtain sm where sm: "sm_decode W enc = Inr sm" "sm_timestamp sm = t"
    "verify_and_decode_message W sm = Inr (key_public W sk, m)"
    using signed_message_roundtrip [OF assms(1) enc] by blast
  moreover have "is_fresh sm now \<longleftrightarrow> unat now \<le> unat t + 60 \<and> unat t \<le> unat now + 10"
    using unsigned_less [of t, where 'a = nat] sm(2) by (auto simp: is_fresh_window)
  ultimately show ?thesis by (simp add: decode_and_verify_def)
qed

theorem direct_message_delivered_witness:
  "\<exists>enc. recv_msg (p2p_frame [1]) = Inr (enc, [])
    \<and> decode_and_verify demo_lib 150 demo_ctx enc = Inr (EndpointId 7, Heartbeat, \<lparr>vs_trusted = False, vs_fresh = True\<rparr>)"
proof -
  have k: "key_public demo_lib (SecretKey 0) = EndpointId 7" by (simp add: demo_lib_def)
  have "send_msg demo_lib 100 (SecretKey 0) Heartbeat = Inr (p2p_frame [1])"
    by (simp add: send_msg_def sign_and_encode_def sign_and_encode_with_timestamp_def signing_bytes_def demo_lib_def
        or_err_def demo_envelope_def)
  from direct_message_delivered [OF demo_lib_ok(1) this, of 150 demo_ctx] show ?thesis
    unfolding k by (simp add: p2p_frame_def max_message_size_def is_node_trusted_def)
qed

section \<open>A command over the socket\<close>

lemma command_proc_fields:
  "command_proc A S cmd p = (p', out) \<Longrightarrow>
     out = snd (snd (handle_command A (se_db S) (se_env S) cmd (pr_ctx p) (pr_clients p)))"
  by (auto simp: command_proc_def case_prod_beta)

lemma command_loop_end: "command_loop A K S w pk i [] p = (p, [], CloseConnection)"
  by (subst command_loop.simps) (simp add: read_message_def read_admin_frame_def read_exact_def)

text \<open>C17. A whole session of the client over the admin socket: if the request names a key and the four
  messages fit into frames, the daemon that reads what the client writes answers with what the
  client needs, whatever ticket the request carries; the client returns the daemon's response to
  the command, run with the rights of its key, and reports no error. A command other than a
  shutdown leaves the daemon in the state after the command.\<close>

theorem socket_dialogue:
  assumes "admin_codec_ok K" and "full_permissions (pr_clients p)" and "client_key A auth = Some pk"
    and "\<And>i. w i" and "fits (enc_auth K) auth" and "fits (enc_auth_resp K) (accepted A (pr_ctx p))"
    and "fits (enc_command K) (to_client_command command)" and "fits (enc_response K) (co_response out)"
    and "authenticate_proc A (se_env (S 0)) AllowLocalTicketless auth p = (p1, resp, who)"
    and "command_proc A (S 1) (to_client_command command) p1 = (p2, out)"
  shows "\<exists>asked answered p' n.
    handle_client_connection A K S w asked p = (p', answered, n)
    \<and> run_socket_client K auth command answered = Inr (asked, co_response out)
    \<and> (co_action out = None \<longrightarrow> p' = p2 \<and> n = CloseConnection)"
proof -
  note dec = admin_codec_okD [OF assms(1)]
  note auth = authenticate_proc_ok [OF assms(9) disjI2 [OF refl] assms(3)]
  obtain f1 where f1: "send_message (enc_auth K) auth = Inr f1"
    "\<And>rest. read_message (dec_auth K) (f1 @ rest) = Inr (auth, rest)" using fits_send [OF assms(5), where dec = "dec_auth K"] dec(1) by blast
  obtain g1 where g1: "send_message (enc_auth_resp K) (accepted A (pr_ctx p)) = Inr g1"
    "\<And>rest. read_message (dec_auth_resp K) (g1 @ rest) = Inr (accepted A (pr_ctx p), rest)"
    using fits_send [OF assms(6), where dec = "dec_auth_resp K"] dec(2) by blast
  obtain f2 where f2: "send_message (enc_command K) (to_client_command command) = Inr f2"
    "\<And>rest. read_message (dec_command K) (f2 @ rest) = Inr (to_client_command command, rest)"
    using fits_send [OF assms(7), where dec = "dec_command K"] dec(3) by blast
  obtain g2 where g2: "send_message (enc_response K) (co_response out) = Inr g2"
    "\<And>rest. read_message (dec_response K) (g2 @ rest) = Inr (co_response out, rest)"
    using fits_send [OF assms(8), where dec = "dec_response K"] dec(4) by blast
  have perm: "check_permission (pr_clients p1) pk (required_permission (to_client_command command))"
    using auth(3,4) assms(2) by (simp add: full_permissions_check)
  obtain p3 n3 where after: "after_command (al_store A) (S 1) out p2 = (p3, n3)" by force
  have n3: "co_action out = None \<longrightarrow> p3 = p2 \<and> n3 = NextCommand" using after by (auto simp: after_command_def)
  have serve: "serve_command A K (S 1) (w 1) pk (to_client_command command) p1 = (p3, g2, n3)"
    using perm assms(4,10) g2(1) after by (simp add: serve_command_def)
  let ?n = "if n3 = NextCommand then CloseConnection else n3"
  have loop: "command_loop A K S w pk 1 (f2 @ []) p1 = (p3, g2, ?n)"
    unfolding command_loop.simps [of A K S w pk 1 "f2 @ []"] f2(2) using serve by (simp add: command_loop_end)
  have "handle_client_connection A K S w (f1 @ f2) p = (p3, g1 @ g2, ?n)"
    using assms(4,9) auth(1,2) g1(1) loop by (simp add: handle_client_connection_def f1(2))
  moreover have "run_socket_client K auth command (g1 @ g2) = Inr (f1 @ f2, co_response out)"
    using f1(1) f2(1) g1(2) [of g2] g2(2) [of "[]"]
    by (simp add: run_socket_client_def authenticate_socket_def execute_socket_command_def on_stream_def)
  moreover have "co_action out = None \<longrightarrow> p3 = p2 \<and> ?n = CloseConnection" using n3 by simp
  ultimately show ?thesis
    by (intro exI [of _ "f1 @ f2"] exI [of _ "g1 @ g2"] exI [of _ p3] exI [of _ ?n] conjI)
qed


theorem socket_dialogue_witness:
  "\<exists>asked answered p' n.
    handle_client_connection demo_admin_lib demo_codec (\<lambda>i. demo_step) (\<lambda>i. True) asked demo_proc = (p', answered, n)
    \<and> run_socket_client demo_codec demo_request PauseDaemon answered = Inr (asked, Ack ''Daemon paused'')
    \<and> cx_paused (pr_ctx p') \<and> n = CloseConnection"
proof -
  obtain p1 where p1: "authenticate_proc demo_admin_lib (se_env demo_step) AllowLocalTicketless demo_request demo_proc
      = (p1, accepted demo_admin_lib demo_ctx, Some (EndpointId 2))" by (rule demo_authenticate)
  have "full_permissions (pr_clients demo_proc)" by (simp add: demo_proc_def full_permissions_new)
  moreover have "pr_ctx demo_proc = demo_ctx" by (simp add: demo_proc_def)
  ultimately obtain asked answered p' n where
    "handle_client_connection demo_admin_lib demo_codec (\<lambda>i. demo_step) (\<lambda>i. True) asked demo_proc = (p', answered, n)"
    "run_socket_client demo_codec demo_request PauseDaemon answered = Inr (asked, Ack ''Daemon paused'')"
    "p' = p1\<lparr>pr_ctx := set_paused (pr_ctx p1) True\<rparr>" "n = CloseConnection"
    using socket_dialogue [where command = PauseDaemon and S = "\<lambda>i. demo_step" and w = "\<lambda>i. True",
        OF demo_codec_ok _ demo_request_facts(1) _ _ _ _ _ p1, of "reply (Ack ''Daemon paused'')"
          "p1\<lparr>pr_ctx := set_paused (pr_ctx p1) True\<rparr>"] demo_fits
    by (auto simp: demo_pause reply_def)
  then show ?thesis
    by (intro exI [of _ asked] exI [of _ answered] exI [of _ p'] exI [of _ n]) (simp add: set_paused_def)
qed

section \<open>A command over HTTP\<close>

lemma http_auth_exchange:
  assumes "admin_codec_ok K" and "\<And>i. rd i \<noteq> None" and "fits (enc_auth K) auth"
    and "authenticate_proc A (se_env (S 0)) mode auth p = (p1, resp, who)" and "as_success resp"
    and "fits (enc_auth_resp K) resp"
  obtains sent reply where "handle_connection A K mode S rd True sent p = (p1, reply, CloseConnection)"
    and "authenticate_http K bind auth reply = Inr sent"
proof -
  note dec = admin_codec_okD [OF assms(1)]
  obtain b r where b: "enc_auth K auth = Some b" "length b \<le> max_body_size"
    and r: "enc_auth_resp K resp = Some r"
    using assms(3,6) by (auto simp: fits_def max_admin_frame_def max_body_size_def)
  have "plain_word ''/auth''" by (simp add: plain_word_def is_ascii_def ws_char_def code_in_def)
  then obtain headers where req: "read_http_request rd (http_request ''/auth'' bind (text_of b))
      = Inr (''POST'', ''/auth'', headers, text_of b)" "headers ''content-type'' = Some ''application/postcard''"
    using read_request [where rd = rd and path = "''/auth''" and body = "text_of b" and bind = bind] assms(2) b(2)
    by auto
  have "list_all line_char ''application/postcard''" by (simp add: line_char_def is_ascii_def code_in_def)
  then have resp: "parse_http_response (write_response 200 ''application/postcard'' (text_of r)) = Inr (200, text_of r)"
    by (intro read_response) simp_all
  have "handle_connection A K mode S rd True (http_request ''/auth'' bind (text_of b)) p
      = (p1, write_response 200 ''application/postcard'' (text_of r), CloseConnection)"
    using req dec(1) [OF b(1)] assms(4) r by (simp add: handle_connection_def respond_encoded_def respond_def del: reason_of.simps)
  moreover have "authenticate_http K bind auth (write_response 200 ''application/postcard'' (text_of r))
      = Inr (http_request ''/auth'' bind (text_of b))"
    using b(1) resp dec(2) [OF r] assms(5)
    by (simp add: authenticate_http_def send_http_post_def or_err_def on_stream_def del: reason_of.simps)
  ultimately show ?thesis by (rule that)
qed

text \<open>C16. The same over HTTP, however the two requests are cut into packets: the client authenticates
  on one connection and sends the command with its credentials on a second one; if its request
  names a key and either carries our ticket or the interface trusts local clients, it returns the
  daemon's response to the command.\<close>

theorem http_dialogue:
  assumes "admin_codec_ok K" and "full_permissions (pr_clients p)" and "client_key A auth = Some pk"
    and "ticket_presented A auth (pr_ctx p) \<or> mode = AllowLocalTicketless"
    and "\<And>i. rd i \<noteq> None" and "\<And>i. rd' i \<noteq> None"
    and "fits (enc_auth K) auth" and "fits (enc_auth_resp K) (accepted A (pr_ctx p))"
    and "fits (enc_request K) \<lparr>acr_auth = auth, acr_command = to_client_command command\<rparr>"
    and "fits (enc_response K) (co_response out)"
    and "authenticate_proc A (se_env (S 0)) mode auth p = (p1, resp, who)"
    and "command_proc A (T 1) (to_client_command command) p1 = (p2, out)"
  shows "\<exists>first second reply reply' p' n.
    handle_connection A K mode S rd True first p = (p1, reply, CloseConnection)
    \<and> handle_connection A K mode T rd' True second p1 = (p', reply', n)
    \<and> run_http_client K bind auth command reply reply' = Inr (first, second, co_response out)
    \<and> (co_action out = None \<longrightarrow> p' = p2 \<and> n = CloseConnection)"
proof -
  note dec = admin_codec_okD [OF assms(1)]
  note auth = authenticate_proc_ok [OF assms(11,4,3)]
  have resp: "as_success resp" "fits (enc_auth_resp K) resp" using auth(2) assms(8) by simp_all
  obtain first reply where one: "handle_connection A K mode S rd True first p = (p1, reply, CloseConnection)"
    "authenticate_http K bind auth reply = Inr first"
    by (rule http_auth_exchange [where rd = rd and S = S and bind = bind, OF assms(1) _ assms(7,11) resp]) (use assms(5) in auto)
  let ?q = "\<lparr>acr_auth = auth, acr_command = to_client_command command\<rparr>"
  obtain b r where b: "enc_request K ?q = Some b" "length b \<le> max_body_size"
    and r: "enc_response K (co_response out) = Some r"
    using assms(9,10) by (auto simp: fits_def max_admin_frame_def max_body_size_def)
  let ?second = "http_request ''/command'' bind (text_of b)"
  have "plain_word ''/command''" by (simp add: plain_word_def is_ascii_def ws_char_def code_in_def)
  then obtain headers where req: "read_http_request rd' ?second = Inr (''POST'', ''/command'', headers, text_of b)"
    "headers ''content-type'' = Some ''application/postcard''"
    using read_request [where rd = rd' and path = "''/command''" and body = "text_of b" and bind = bind] assms(6) b(2)
    by auto
  have "list_all line_char ''application/postcard''" by (simp add: line_char_def is_ascii_def code_in_def)
  then have parsed: "parse_http_response (write_response 200 ''application/postcard'' (text_of r)) = Inr (200, text_of r)"
    by (intro read_response) simp_all
  have "ticket_presented A auth (pr_ctx p1) \<or> mode = AllowLocalTicketless"
    using assms(4) auth(6) by (simp add: ticket_presented_def)
  then have again: "authenticate_proc A (se_env (T 0)) mode auth p1 = (p1, accepted A (pr_ctx p1), Some pk)"
    using assms(3) auth(3) by (rule authenticate_again)
  have perm: "check_permission (pr_clients p1) pk (required_permission (to_client_command command))"
    using auth(3,4) assms(2) by (simp add: full_permissions_check)
  obtain p3 n3 where after: "after_command (al_store A) (T 1) out p2 = (p3, n3)" by force
  let ?reply = "write_response 200 ''application/postcard'' (text_of r)" and ?n = "if n3 = NextCommand then CloseConnection else n3"
  have "serve_http_command A K mode T True ?q p1 = (p3, ?reply, ?n)"
    using again perm assms(12) r after by (simp add: serve_http_command_def del: reason_of.simps)
  then have two: "handle_connection A K mode T rd' True ?second p1 = (p3, ?reply, ?n)"
    using req dec(5) [OF b(1)] by (simp add: handle_connection_def del: reason_of.simps)
  have "run_http_client K bind auth command reply ?reply = Inr (first, ?second, co_response out)"
    using one(2) b(1) parsed dec(4) [OF r]
    by (simp add: run_http_client_def send_http_post_def command_reply_def or_err_def on_stream_def del: reason_of.simps)
  moreover have "co_action out = None \<longrightarrow> p3 = p2 \<and> ?n = CloseConnection" using after by (auto simp: after_command_def)
  ultimately show ?thesis using one(1) two
    by (intro exI [of _ first] exI [of _ ?second] exI [of _ reply] exI [of _ ?reply] exI [of _ p3] exI [of _ ?n] conjI)
qed


text \<open>Byte by byte, to a daemon that listens on 10.0.0.1.\<close>

theorem http_dialogue_witness:
  "\<exists>first second reply reply' p1 p' n.
    handle_connection demo_admin_lib demo_codec RequireTicket (\<lambda>i. demo_step) (\<lambda>i. Some 1) True first demo_proc
      = (p1, reply, CloseConnection)
    \<and> handle_connection demo_admin_lib demo_codec RequireTicket (\<lambda>i. demo_step) (\<lambda>i. Some 1) True second p1 = (p', reply', n)
    \<and> run_http_client demo_codec (SockV4 0x0A000001 8080) demo_request PauseDaemon reply reply'
      = Inr (first, second, Ack ''Daemon paused'')
    \<and> cx_paused (pr_ctx p') \<and> n = CloseConnection"
proof -
  obtain p1 where p1: "authenticate_proc demo_admin_lib (se_env demo_step) RequireTicket demo_request demo_proc
      = (p1, accepted demo_admin_lib demo_ctx, Some (EndpointId 2))" by (rule demo_authenticate)
  have "full_permissions (pr_clients demo_proc)" by (simp add: demo_proc_def full_permissions_new)
  moreover have "pr_ctx demo_proc = demo_ctx" by (simp add: demo_proc_def)
  ultimately obtain first second reply reply' p' n where
    "handle_connection demo_admin_lib demo_codec RequireTicket (\<lambda>i. demo_step) (\<lambda>i. Some 1) True first demo_proc
      = (p1, reply, CloseConnection)"
    "handle_connection demo_admin_lib demo_codec RequireTicket (\<lambda>i. demo_step) (\<lambda>i. Some 1) True second p1 = (p', reply', n)"
    "run_http_client demo_codec (SockV4 0x0A000001 8080) demo_request PauseDaemon reply reply'
      = Inr (first, second, Ack ''Daemon paused'')"
    "p' = p1\<lparr>pr_ctx := set_paused (pr_ctx p1) True\<rparr>" "n = CloseConnection"
    using http_dialogue [where command = PauseDaemon and S = "\<lambda>i. demo_step" and T = "\<lambda>i. demo_step"
        and rd = "\<lambda>i. Some 1" and rd' = "\<lambda>i. Some 1" and bind = "SockV4 0x0A000001 8080",
        OF demo_codec_ok _ demo_request_facts(1) _ _ _ _ _ _ _ p1, of "reply (Ack ''Daemon paused'')"
          "p1\<lparr>pr_ctx := set_paused (pr_ctx p1) True\<rparr>"] demo_fits demo_request_facts(2)
    by (auto simp: demo_pause Client_Admin.reply_def)
  then show ?thesis
    by (intro exI [of _ first] exI [of _ second] exI [of _ reply] exI [of _ reply'] exI [of _ p1] exI [of _ p'] exI [of _ n])
      (simp add: set_paused_def)
qed

section \<open>Remote clients\<close>

lemma respond_encoded_eq:
  "respond_encoded ok c b p = (p, (case b of None \<Rightarrow> [] | Some b \<Rightarrow>
     if ok then write_response c ''application/postcard'' (text_of b) else []), CloseConnection)"
  by (simp add: respond_encoded_def respond_def split: option.split)

text \<open>C18. Without our ticket a remote client does nothing: on an interface that is not a loopback
  address, a connection changes the daemon or ends it only if its request is a POST whose body
  carries credentials with the topic and the secret of our ticket.\<close>

theorem remote_http_needs_ticket:
  assumes "\<not> is_loopback (sock_ip bind)"
    and "handle_connection A K (auth_mode_for_bind bind) S rd ok input p = (p', answered, n)"
    and "p' \<noteq> p \<or> n \<noteq> CloseConnection"
  shows "\<exists>path headers body auth. read_http_request rd input = Inr (''POST'', path, headers, body)
    \<and> (dec_auth K (bytes_of body) = Some auth
        \<or> (\<exists>req. dec_request K (bytes_of body) = Some req \<and> acr_auth req = auth))
    \<and> ticket_presented A auth (pr_ctx p)"
proof -
  have mode: "auth_mode_for_bind bind = RequireTicket" using assms(1) by (simp add: auth_mode_for_bind_def)
  obtain m path headers body where req: "read_http_request rd input = Inr (m, path, headers, body)"
    using assms(2,3) by (cases "read_http_request rd input") (auto simp: handle_connection_def)
  show ?thesis
  proof (rule ccontr)
    assume no: "\<not> ?thesis"
    have auth: "\<exists>resp. authenticate_proc A (se_env (S 0)) RequireTicket a p = (p, resp, None) \<and> \<not> as_success resp"
      if "m = ''POST''" "dec_auth K (bytes_of body) = Some a
        \<or> (\<exists>q. dec_request K (bytes_of body) = Some q \<and> acr_auth q = a)" for a
      using no req that by (intro authenticate_proc_refused) auto
    have command: "fst (serve_http_command A K RequireTicket S ok q p) = p
        \<and> snd (snd (serve_http_command A K RequireTicket S ok q p)) = CloseConnection"
      if "m = ''POST''" "dec_request K (bytes_of body) = Some q" for q
      using auth [OF that(1), of "acr_auth q"] that(2) by (auto simp: serve_http_command_def respond_encoded_eq)
    have "p' = p \<and> n = CloseConnection"
    proof (cases "m = ''POST''")
      case True
      show ?thesis
      proof (cases "path = ''/auth''")
        case True
        then show ?thesis
          using assms(2) auth \<open>m = ''POST''\<close>
          by (fastforce simp: handle_connection_def req mode respond_def respond_encoded_eq Let_def
              split: if_splits option.splits)
      next
        case False
        then show ?thesis
          using assms(2) command \<open>m = ''POST''\<close>
          by (fastforce simp: handle_connection_def req mode respond_def Let_def split: if_splits option.splits)
      qed
    qed (use assms(2) in \<open>auto simp: handle_connection_def req respond_def\<close>)
    with assms(3) show False by blast
  qed
qed

theorem remote_http_needs_ticket_witness:
  "\<exists>input path headers body auth.
    fst (handle_connection demo_admin_lib demo_codec (auth_mode_for_bind (SockV4 0x0A000001 8080)) (\<lambda>i. demo_step)
      (\<lambda>i. Some 1) True input demo_proc) \<noteq> demo_proc
    \<and> read_http_request (\<lambda>i. Some 1) input = Inr (''POST'', path, headers, body)
    \<and> ticket_presented demo_admin_lib auth demo_ctx"
proof -
  have remote: "\<not> is_loopback (sock_ip (SockV4 0x0A000001 8080))" by (simp add: ipv4_octet_def)
  then have mode: "auth_mode_for_bind (SockV4 0x0A000001 8080) = RequireTicket" by (simp add: auth_mode_for_bind_def)
  obtain p1 where p1: "authenticate_proc demo_admin_lib (se_env demo_step) RequireTicket demo_request demo_proc
      = (p1, accepted demo_admin_lib demo_ctx, Some (EndpointId 2))" "is_client_node (pr_clients p1) (EndpointId 2)"
    by (rule demo_authenticate)
  then have new: "p1 \<noteq> demo_proc" by (auto simp: demo_proc_def is_client_node_def registry_new_def)
  obtain input reply where conn: "handle_connection demo_admin_lib demo_codec RequireTicket (\<lambda>i. demo_step) (\<lambda>i. Some 1) True
      input demo_proc = (p1, reply, CloseConnection)"
    by (rule http_auth_exchange [where rd = "\<lambda>i. Some 1" and S = "\<lambda>i. demo_step",
        OF demo_codec_ok _ demo_fits(1) p1(1) accepted_success demo_fits(2)]) auto
  from remote_http_needs_ticket [OF remote, unfolded mode, OF conn] new
  obtain path headers body auth where "read_http_request (\<lambda>i. Some 1) input = Inr (''POST'', path, headers, body)"
    "ticket_presented demo_admin_lib auth (pr_ctx demo_proc)" by blast
  then show ?thesis
    using conn new by (intro exI [of _ input] exI [of _ path] exI [of _ headers] exI [of _ body] exI [of _ auth])
      (simp add: mode demo_proc_def)
qed

end
