(* ===== verification/Daemon_System.thy ===== *)
theory Daemon_System
  imports Loop_Props Wire_Props
begin

text \<open>
  The daemon process as a state machine: the event loop, the task that keeps the hosts file in step
  (\<open>spawn_daemon_background_tasks\<close> in \<open>src/app.rs\<close>), the connections of the admin interfaces and the
  end of the process, in any interleaving. One step is one handler, run to its end. The step
  relation \<open>sys_step\<close> leads from a state over an event to the next; \<open>sys_run\<close> is its reflexive and
  transitive closure, with the events in order. Signals and messages come from outside, so every
  event is possible whenever its part of the process is alive.
\<close>

section \<open>States and events\<close>

text \<open>\<open>Closing\<close>: a shutdown has run and the process is about to exit; until then its tasks still run.\<close>

datatype phase = Up | Closing | Down

record system =
  sy_proc :: proc
  sy_loop :: bool
  sy_hosts_task :: bool
  sy_sessions :: "endpoint_id set"
  sy_phase :: phase

text \<open>What does not change while the process runs.\<close>

record world =
  wo_wire :: wire_lib
  wo_admin :: admin_lib
  wo_codec :: admin_codec
  wo_interactive :: bool
  wo_http_mode :: auth_mode

datatype event =
    LoopInput loop_input
  | HostsTick
  | SocketAuth auth_request
  | SocketCommand endpoint_id client_command bool
  | HttpConnection "nat \<Rightarrow> nat option" string bool
  | Exit

definition phase_after :: "next_step \<Rightarrow> phase \<Rightarrow> phase" where
  "phase_after n ph = (if n = ExitProcess then Closing else ph)"

definition hosts_tick :: "step_env \<Rightarrow> system \<Rightarrow> system" where
  "hosts_tick S s =
     (let p = sy_proc s; (c, d, r) = sync_hosts_file S (pr_ctx p) (pr_fs p)
      in s\<lparr>sy_proc := p\<lparr>pr_ctx := c, pr_fs := d\<rparr>, sy_hosts_task := (r \<noteq> Inl (TaskFailed HostsPanic))\<rparr>)"

definition loop_event :: "world \<Rightarrow> step_env \<Rightarrow> loop_input \<Rightarrow> system \<Rightarrow> system" where
  "loop_event G S i s =
     (let p = sy_proc s;
          (c, d, f) = loop_step (wo_wire G) (al_store (wo_admin G)) (wo_interactive G) S i (pr_ctx p) (pr_fs p)
      in s\<lparr>sy_proc := p\<lparr>pr_ctx := c, pr_fs := d\<rparr>, sy_loop := (f = GoOn),
           sy_phase := (case f of GoOn \<Rightarrow> sy_phase s | Stop \<Rightarrow> Closing | Unwind \<Rightarrow> Down)\<rparr>)"

definition socket_auth :: "world \<Rightarrow> step_env \<Rightarrow> auth_request \<Rightarrow> system \<Rightarrow> system" where
  "socket_auth G S req s =
     (let (p, resp, who) = authenticate_proc (wo_admin G) (se_env S) AllowLocalTicketless req (sy_proc s)
      in s\<lparr>sy_proc := p, sy_sessions := sy_sessions s \<union> set_option who\<rparr>)"

definition socket_command :: "world \<Rightarrow> step_env \<Rightarrow> endpoint_id \<Rightarrow> client_command \<Rightarrow> bool \<Rightarrow> system \<Rightarrow> system" where
  "socket_command G S pk cmd ok s =
     (let (p, answered, n) = serve_command (wo_admin G) (wo_codec G) S ok pk cmd (sy_proc s)
      in s\<lparr>sy_proc := p, sy_phase := phase_after n (sy_phase s)\<rparr>)"

definition http_connection :: "world \<Rightarrow> step_env \<Rightarrow> (nat \<Rightarrow> nat option) \<Rightarrow> string \<Rightarrow> bool \<Rightarrow> system \<Rightarrow> system" where
  "http_connection G S rd input ok s =
     (let (p, answered, n) = handle_connection (wo_admin G) (wo_codec G) (wo_http_mode G) (\<lambda>i. S) rd ok input (sy_proc s)
      in s\<lparr>sy_proc := p, sy_phase := phase_after n (sy_phase s)\<rparr>)"

inductive sys_step :: "world \<Rightarrow> system \<Rightarrow> step_env \<times> event \<Rightarrow> system \<Rightarrow> bool" for G where
  loop: "sy_phase s \<noteq> Down \<Longrightarrow> sy_loop s \<Longrightarrow> sys_step G s (S, LoopInput i) (loop_event G S i s)"
| tick: "sy_phase s \<noteq> Down \<Longrightarrow> sy_hosts_task s \<Longrightarrow> arg_hosts_sync (cx_args (pr_ctx (sy_proc s))) \<Longrightarrow>
    sys_step G s (S, HostsTick) (hosts_tick S s)"
| auth: "sy_phase s \<noteq> Down \<Longrightarrow> sys_step G s (S, SocketAuth req) (socket_auth G S req s)"
| command: "sy_phase s \<noteq> Down \<Longrightarrow> pk \<in> sy_sessions s \<Longrightarrow>
    sys_step G s (S, SocketCommand pk cmd ok) (socket_command G S pk cmd ok s)"
| http: "sy_phase s \<noteq> Down \<Longrightarrow> sys_step G s (S, HttpConnection rd input ok) (http_connection G S rd input ok s)"
| exit: "sy_phase s = Closing \<Longrightarrow> sys_step G s (S, Exit) (s\<lparr>sy_phase := Down\<rparr>)"

inductive_cases sys_step_elim: "sys_step G s e s'"

inductive_simps sys_step_simps:
  "sys_step G s (S, LoopInput i) s'" "sys_step G s (S, HostsTick) s'" "sys_step G s (S, SocketAuth req) s'"
  "sys_step G s (S, SocketCommand pk cmd ok) s'" "sys_step G s (S, HttpConnection rd input ok) s'" "sys_step G s (S, Exit) s'"

inductive sys_run :: "world \<Rightarrow> system \<Rightarrow> (step_env \<times> event) list \<Rightarrow> system \<Rightarrow> bool" for G where
  refl: "sys_run G s [] s"
| step: "sys_step G s e s' \<Longrightarrow> sys_run G s' es s'' \<Longrightarrow> sys_run G s (e # es) s''"

end
