(* ===== verification/Daemon_Run.thy ===== *)
theory Daemon_Run
  imports Daemon_Init Daemon_System
begin

text \<open>
  \<open>run_daemon\<close> in \<open>src/app.rs\<close>: the arguments are checked, \<open>init_network\<close> builds the context, the hosts
  file is written once, and the process of \<open>Daemon_System\<close> comes up, with an HTTP interface in the
  mode its address asks for.
\<close>

definition launched :: "ctx \<Rightarrow> fs \<Rightarrow> system" where
  "launched c d =
     \<lparr>sy_proc = \<lparr>pr_ctx = c, pr_clients = registry_new, pr_fs = d\<rparr>, sy_loop = True, sy_hosts_task = True,
      sy_sessions = {}, sy_phase = Up\<rparr>"

definition run_daemon ::
    "net_lib \<Rightarrow> store_lib \<Rightarrow> ticket_lib \<Rightarrow> start_env \<Rightarrow> step_env \<Rightarrow> daemon_args \<Rightarrow> (system \<times> auth_mode option) start" where
  "run_daemon N L T V S args =
     (let args = args\<lparr>arg_daemon := True\<rparr> in
      start_bind (start_check id (validate N (env_ifaces (sn_env V)) (sn_fs V) args)) (\<lambda>u.
      start_bind (init_network N L T V args) (\<lambda>c.
      let (c, d, r) = (if arg_hosts_sync args then sync_hosts_file S c (sn_fs V) else (c, sn_fs V, Inr False)) in
      start_bind (start_check StartHosts r) (\<lambda>changed.
      case arg_admin_http args of
        None \<Rightarrow> start_return (launched c d, None)
      | Some bind \<Rightarrow>
          start_bind (start_check StartBind (parse_bind_addr bind)) (\<lambda>bind.
            start_return (launched c d, Some (auth_mode_for_bind bind)))))))"

end
