(* ===== verification/Daemon_Disk.thy ===== *)
theory Daemon_Disk
  imports Client_App Daemon_Run
begin

text \<open>
  Opening the database file (\<open>Storage::new\<close> and \<open>open_or_create\<close> in \<open>src/storage/mod.rs\<close>,
  \<open>init_client_storage\<close> in \<open>src/app.rs\<close>) and a start of the daemon on a disk. A database file is new and
  empty, holds a database, or is something else; redb turns a missing or an empty file into an empty
  database and refuses the last. Directories are not kept, only whether a call on them succeeds.
\<close>

section \<open>Opening a database\<close>

datatype db_file = EmptyFile | Database storage | ForeignFile

type_synonym disk = "path \<rightharpoonup> db_file"

record open_world =
  ow_create_dirs :: "path \<Rightarrow> bool"
  ow_create_file :: "path \<Rightarrow> bool"
  ow_database :: "path \<Rightarrow> bool"

datatype open_error = DirsNotCreated | FileNotCreated | DatabaseFailed

definition storage_new :: "open_world \<Rightarrow> path \<Rightarrow> disk \<Rightarrow> disk \<times> (open_error, storage) result" where
  "storage_new W p d =
     (if \<not> ow_database W p then (d, Inl DatabaseFailed)
      else
        case d p of
          None \<Rightarrow> if ow_create_file W p then (d(p \<mapsto> Database empty_storage), Inr empty_storage) else (d, Inl DatabaseFailed)
        | Some EmptyFile \<Rightarrow> (d(p \<mapsto> Database empty_storage), Inr empty_storage)
        | Some (Database st) \<Rightarrow> (d, Inr st)
        | Some ForeignFile \<Rightarrow> (d, Inl DatabaseFailed))"

definition open_or_create :: "open_world \<Rightarrow> path \<Rightarrow> disk \<Rightarrow> disk \<times> (open_error, storage) result" where
  "open_or_create W db_path d =
     (if (case path_parent db_path of Some parent \<Rightarrow> \<not> ow_create_dirs W parent | None \<Rightarrow> False) then (d, Inl DirsNotCreated)
      else if d db_path = None
           then (if ow_create_file W db_path then storage_new W db_path (d(db_path \<mapsto> EmptyFile)) else (d, Inl FileNotCreated))
           else storage_new W db_path d)"

definition init_client_storage :: "client_world \<Rightarrow> open_world \<Rightarrow> disk \<Rightarrow> disk \<times> (open_error, storage) result" where
  "init_client_storage C W d =
     (let config_path = get_client_config_path C
      in if \<not> ow_create_dirs W (path_of config_path) then (d, Inl DirsNotCreated)
         else storage_new W (path_of (join_path config_path ''client.db'')) d)"

section \<open>A start on a disk\<close>

text \<open>
  The arguments are checked before anything is opened. The start works on the database it opened, and
  whatever it committed is on the disk, also when it fails later.
\<close>

datatype main_error = NotOpened open_error | NotStarted start_error

definition daemon_db_path :: "path_world \<Rightarrow> daemon_args \<Rightarrow> path" where
  "daemon_db_path P args = path_of (storage_db_path P (args\<lparr>arg_daemon := True\<rparr>))"

definition start_daemon ::
    "net_lib \<Rightarrow> store_lib \<Rightarrow> ticket_lib \<Rightarrow> start_env \<Rightarrow> step_env \<Rightarrow> path_world \<Rightarrow> open_world \<Rightarrow> daemon_args \<Rightarrow> disk
     \<Rightarrow> disk \<times> (main_error, system \<times> auth_mode option) result" where
  "start_daemon N L T V S P W args d =
     (case validate N (env_ifaces (sn_env V)) (sn_fs V) (args\<lparr>arg_daemon := True\<rparr>) of
        Inl e \<Rightarrow> (d, Inl (NotStarted e))
      | Inr u \<Rightarrow>
          let db_path = daemon_db_path P args in
          (case open_or_create W db_path d of
             (d, Inl e) \<Rightarrow> (d, Inl (NotOpened e))
           | (d, Inr st) \<Rightarrow>
               let (st, r) = run_daemon N L T V S args st
               in (d(db_path \<mapsto> Database st), map_err NotStarted r)))"

end
