(* ===== verification/System_Props.thy ===== *)
theory System_Props
  imports Daemon_System
begin

text \<open>
  Properties of the whole process, by induction over its runs. The locale \<open>proc_op\<close> is the contract
  that every way of entering the process keeps: identity, invariant, and whom it can make trusted
  (\<open>admits\<close>); it is interpreted on authentication, commands, the end of a command, a command over the
  socket and a connection over HTTP.
\<close>

section \<open>The contract of an operation on the process\<close>

definition proc_inv :: "proc \<Rightarrow> bool" where
  "proc_inv p \<longleftrightarrow> ctx_inv (pr_ctx p) \<and> full_permissions (pr_clients p)"

locale proc_op =
  fixes run :: "'a \<Rightarrow> proc \<Rightarrow> proc" and admits :: "'a \<Rightarrow> endpoint_id set"
  assumes identity: "same_identity (pr_ctx (run x p)) (pr_ctx p)"
    and inv: "proc_inv p \<Longrightarrow> proc_inv (run x p)"
    and trusts: "proc_inv p \<Longrightarrow> dom (cx_trusted (pr_ctx (run x p))) \<subseteq> dom (cx_trusted (pr_ctx p)) \<union> admits x"
begin

lemma stays_within:
  "proc_inv p \<Longrightarrow> dom (cx_trusted (pr_ctx p)) \<subseteq> T \<Longrightarrow> admits x \<subseteq> T \<Longrightarrow> dom (cx_trusted (pr_ctx (run x p))) \<subseteq> T"
  using trusts [of p x] by blast

end

definition admits_command :: "admin_lib \<Rightarrow> client_command \<Rightarrow> endpoint_id set" where
  "admits_command A cmd =
     (case cmd of
        AddNode t \<Rightarrow> (case ticket_from_str (al_ticket A) t of Inr k \<Rightarrow> {node_id (t_invitor k)} | Inl e \<Rightarrow> {})
      | _ \<Rightarrow> {})"

lemma add_node_trusts:
  "ctx_inv c \<Longrightarrow> dom (cx_trusted (fst (add_node A fails c t))) \<subseteq> dom (cx_trusted c) \<union> admits_command A (AddNode t)"
  by (auto simp: add_node_def admits_command_def ticket_flatten_def Let_def case_prod_beta upsert_active_node_simps
      trust_daemon_node_simps split: sum.splits if_splits)

lemma command_trusts:
  assumes "ctx_inv c"
  shows "dom (cx_trusted (fst (handle_command A fails E cmd c r))) \<subseteq> dom (cx_trusted c) \<union> admits_command A cmd"
proof (cases cmd)
  case (AddNode t)
  then show ?thesis using add_node_trusts [OF assms, of A fails t] by (simp add: case_prod_beta)
next
  case (RemoveNode i)
  then show ?thesis by (auto simp: remove_node_cmd_state drop_node_def split: sum.splits if_splits)
qed (simp_all add: set_paused_def)

lemma set_paused_identity [simp]: "same_identity (set_paused c b) c"
  by (simp add: set_paused_def same_identity_def)

lemma command_identity: "same_identity (fst (handle_command A fails E cmd c r)) c"
proof (cases cmd)
  case (AddNode t)
  have "same_identity (upsert_active_node (trust_daemon_node c n) m) c" for n m
    by (rule same_identity_frame [OF trans [OF upsert.frame trust.frame]])
  then have "cx_started_at (upsert_active_node (trust_daemon_node c n) m) = cx_started_at c" for n m
    by (simp add: same_identity_def)
  then have "same_identity (fst (add_node A fails c t)) c"
    by (auto simp: add_node_def Let_def case_prod_beta same_identity_def upsert.keeps trust.keeps only_nodes_writers(1)
        split: sum.split)
  with AddNode show ?thesis by (simp add: case_prod_beta)
next
  case (RemoveNode i)
  then show ?thesis by (simp add: remove_node_cmd_state split: sum.split) (simp add: drop_node_def same_identity_def only_nodes_writers)
qed simp_all

interpretation authenticate_op: proc_op "\<lambda>req p. fst (authenticate_proc A E mode req p)" "\<lambda>req. {}" for A E mode
proof unfold_locales
  fix req and p :: proc
  obtain c r resp who where eq: "authenticate_and_register A E mode req (pr_ctx p) (pr_clients p) = (c, r, resp, who)"
    by (metis prod_cases4)
  note k = authenticate_keeps [OF eq]
  show "same_identity (pr_ctx (fst (authenticate_proc A E mode req p))) (pr_ctx p)"
    using k(2) by (simp add: authenticate_proc_def eq same_identity_frame)
  show "proc_inv (fst (authenticate_proc A E mode req p))" if "proc_inv p"
    using that k(4) full_permissions_authenticate [of "pr_clients p" A E mode req "pr_ctx p"]
    by (simp add: authenticate_proc_def eq proc_inv_def)
  show "dom (cx_trusted (pr_ctx (fst (authenticate_proc A E mode req p)))) \<subseteq> dom (cx_trusted (pr_ctx p)) \<union> {}"
    using k(1) by (simp add: authenticate_proc_def eq)
qed

interpretation command_op: proc_op "\<lambda>cmd p. fst (command_proc A S cmd p)" "admits_command A" for A S
proof unfold_locales
  fix cmd and p :: proc
  obtain c r out where eq: "handle_command A (se_db S) (se_env S) cmd (pr_ctx p) (pr_clients p) = (c, r, out)"
    by (metis prod_cases3)
  show "same_identity (pr_ctx (fst (command_proc A S cmd p))) (pr_ctx p)"
    using command_identity [of A "se_db S" "se_env S" cmd "pr_ctx p" "pr_clients p"] by (simp add: command_proc_def eq)
  show "proc_inv (fst (command_proc A S cmd p))" if "proc_inv p"
    using that handle_command_keeps(1) [of "pr_ctx p" A "se_db S" "se_env S" cmd "pr_clients p"]
      full_permissions_command [of "pr_clients p" A "se_db S" "se_env S" cmd "pr_ctx p"]
    by (simp add: command_proc_def eq proc_inv_def)
  show "dom (cx_trusted (pr_ctx (fst (command_proc A S cmd p)))) \<subseteq> dom (cx_trusted (pr_ctx p)) \<union> admits_command A cmd"
    if "proc_inv p"
    using that command_trusts [of "pr_ctx p" A "se_db S" "se_env S" cmd "pr_clients p"]
    by (simp add: command_proc_def eq proc_inv_def)
qed

interpretation ending_op: proc_op "\<lambda>out p. fst (after_command L S out p)" "\<lambda>out. {}" for L S
proof unfold_locales
  fix out and p :: proc
  obtain c d f where eq: "graceful_shutdown L S (pr_ctx p) (pr_fs p) = (c, d, f)" by (metis prod_cases3)
  note k = graceful_shutdown_keeps [OF eq]
  show "same_identity (pr_ctx (fst (after_command L S out p))) (pr_ctx p)"
    "proc_inv p \<Longrightarrow> proc_inv (fst (after_command L S out p))"
    "dom (cx_trusted (pr_ctx (fst (after_command L S out p)))) \<subseteq> dom (cx_trusted (pr_ctx p)) \<union> {}"
    using k(1-3) by (simp_all add: after_command_def eq proc_inv_def)
qed


lemma serve_command_cases:
  "fst (serve_command A K S ok pk cmd p) \<in>
     {p, fst (command_proc A S cmd p),
      fst (after_command (al_store A) S (snd (command_proc A S cmd p)) (fst (command_proc A S cmd p)))}"
  by (auto simp: serve_command_def case_prod_beta Let_def split: sum.split)

interpretation serve_op: proc_op "\<lambda>x p. fst (serve_command A K S (snd x) pk (fst x) p)" "\<lambda>x. admits_command A (fst x)" for A K S pk
proof unfold_locales
  fix x :: "client_command \<times> bool" and p :: proc
  let ?q = "fst (command_proc A S (fst x) p)" and ?out = "snd (command_proc A S (fst x) p)"
  let ?r = "fst (after_command (al_store A) S ?out ?q)"
  have r: "same_identity (pr_ctx ?r) (pr_ctx p)"
    using ending_op.identity command_op.identity same_identity_trans by blast
  then show "same_identity (pr_ctx (fst (serve_command A K S (snd x) pk (fst x) p))) (pr_ctx p)"
    using serve_command_cases [of A K S "snd x" pk "fst x" p] command_op.identity [of A S "fst x" p] by auto
  show "proc_inv (fst (serve_command A K S (snd x) pk (fst x) p))" if "proc_inv p"
    using serve_command_cases [of A K S "snd x" pk "fst x" p] that command_op.inv [OF that, of A S "fst x"] ending_op.inv by auto
  show "dom (cx_trusted (pr_ctx (fst (serve_command A K S (snd x) pk (fst x) p))))
      \<subseteq> dom (cx_trusted (pr_ctx p)) \<union> admits_command A (fst x)" if "proc_inv p"
  proof -
    note t = command_op.trusts [OF that, of A S "fst x"]
      ending_op.trusts [OF command_op.inv [OF that, of A S "fst x"], of "al_store A" S ?out]
    consider "fst (serve_command A K S (snd x) pk (fst x) p) = p" | "fst (serve_command A K S (snd x) pk (fst x) p) = ?q"
      | "fst (serve_command A K S (snd x) pk (fst x) p) = ?r"
      using serve_command_cases [of A K S "snd x" pk "fst x" p] by blast
    then show ?thesis
    proof cases
      case 1
      show ?thesis unfolding 1 by blast
    next
      case 2
      show ?thesis unfolding 2 by (rule t(1))
    next
      case 3
      show ?thesis unfolding 3 using t by blast
    qed
  qed
qed

definition admits_http :: "admin_lib \<Rightarrow> admin_codec \<Rightarrow> (nat \<Rightarrow> nat option) \<Rightarrow> string \<Rightarrow> endpoint_id set" where
  "admits_http A K rd input =
     (case read_http_request rd input of
        Inl e \<Rightarrow> {}
      | Inr (m, path, headers, body) \<Rightarrow>
          (case dec_request K (bytes_of body) of Some q \<Rightarrow> admits_command A (acr_command q) | None \<Rightarrow> {}))"

lemma serve_http_cases:
  "\<exists>q. q = fst (authenticate_proc A (se_env (S 0)) mode (acr_auth req) p)
    \<and> fst (serve_http_command A K mode S ok req p) \<in>
       {q, fst (command_proc A (S 1) (acr_command req) q),
        fst (after_command (al_store A) (S 1) (snd (command_proc A (S 1) (acr_command req) q)) (fst (command_proc A (S 1) (acr_command req) q)))}"
  by (auto simp: serve_http_command_def respond_encoded_eq case_prod_beta Let_def split: option.split)

lemma handle_connection_cases:
  "fst (handle_connection A K mode S rd ok input p) = p
   \<or> (\<exists>a. fst (handle_connection A K mode S rd ok input p) = fst (authenticate_proc A (se_env (S 0)) mode a p))
   \<or> (\<exists>m path headers body q. read_http_request rd input = Inr (m, path, headers, body)
        \<and> dec_request K (bytes_of body) = Some q
        \<and> fst (handle_connection A K mode S rd ok input p) = fst (serve_http_command A K mode S ok q p))"
proof (cases "read_http_request rd input")
  case (Inr res)
  obtain m path headers body where r: "res = (m, path, headers, body)" by (metis prod_cases4)
  let ?h = "fst (handle_connection A K mode S rd ok input p)"
  let ?a = "fst (case dec_auth K (bytes_of body) of None \<Rightarrow> (p, [], CloseConnection)
      | Some auth_req \<Rightarrow> let (p, auth_resp, client_id) = authenticate_proc A (se_env (S 0)) mode auth_req p
          in respond_encoded ok 200 (enc_auth_resp K auth_resp) p)"
  let ?c = "fst (case dec_request K (bytes_of body) of None \<Rightarrow> (p, [], CloseConnection)
      | Some req \<Rightarrow> serve_http_command A K mode S ok req p)"
  have "?h = p \<or> ?h = ?a \<or> ?h = ?c"
    unfolding handle_connection_def Inr r sum.case prod.case respond_def Let_def
    by (simp only: fst_conv split: if_split) simp
  moreover have "?a = p \<or> (\<exists>a. ?a = fst (authenticate_proc A (se_env (S 0)) mode a p))"
    by (auto simp: respond_encoded_eq case_prod_beta Let_def split: option.split)
  moreover have "?c = p \<or> (\<exists>q. dec_request K (bytes_of body) = Some q \<and> ?c = fst (serve_http_command A K mode S ok q p))"
    by (cases "dec_request K (bytes_of body)") simp_all
  ultimately show ?thesis unfolding Inr r by (elim disjE exE conjE) auto
qed (simp add: handle_connection_def)

interpretation http_op: proc_op "\<lambda>x p. fst (handle_connection A K mode S (fst x) (snd (snd x)) (fst (snd x)) p)"
    "\<lambda>x. admits_http A K (fst x) (fst (snd x))" for A K mode S
proof unfold_locales
  fix x :: "(nat \<Rightarrow> nat option) \<times> string \<times> bool" and p :: proc
  obtain rd input ok where x: "x = (rd, input, ok)" by (metis prod_cases3)
  let ?r = "fst (handle_connection A K mode S rd ok input p)"
  have "same_identity (pr_ctx ?r) (pr_ctx p)
    \<and> (proc_inv p \<longrightarrow> proc_inv ?r \<and> dom (cx_trusted (pr_ctx ?r)) \<subseteq> dom (cx_trusted (pr_ctx p)) \<union> admits_http A K rd input)"
    using handle_connection_cases [of A K mode S rd ok input p]
  proof (elim disjE exE conjE)
    fix a assume r: "?r = fst (authenticate_proc A (se_env (S 0)) mode a p)"
    show ?thesis unfolding r using authenticate_op.identity authenticate_op.inv authenticate_op.trusts by blast
  next
    fix m path headers body req
    assume req: "read_http_request rd input = Inr (m, path, headers, body)" "dec_request K (bytes_of body) = Some req"
      and r: "?r = fst (serve_http_command A K mode S ok req p)"
    define q where "q = fst (authenticate_proc A (se_env (S 0)) mode (acr_auth req) p)"
    let ?c = "fst (command_proc A (S 1) (acr_command req) q)" and ?out = "snd (command_proc A (S 1) (acr_command req) q)"
    have cases: "?r \<in> {q, ?c, fst (after_command (al_store A) (S 1) ?out ?c)}"
      using serve_http_cases [of A S mode req p K ok] unfolding r q_def by blast
    have q: "same_identity (pr_ctx q) (pr_ctx p)" unfolding q_def by (rule authenticate_op.identity)
    have c: "same_identity (pr_ctx ?c) (pr_ctx p)" using q command_op.identity same_identity_trans by blast
    have e: "same_identity (pr_ctx (fst (after_command (al_store A) (S 1) ?out ?c))) (pr_ctx p)"
      using c ending_op.identity same_identity_trans by blast
    have a: "admits_http A K rd input = admits_command A (acr_command req)" using req by (simp add: admits_http_def)
    have "proc_inv ?r \<and> dom (cx_trusted (pr_ctx ?r)) \<subseteq> dom (cx_trusted (pr_ctx p)) \<union> admits_http A K rd input"
      if i: "proc_inv p"
    proof -
      have qi: "proc_inv q" "dom (cx_trusted (pr_ctx q)) \<subseteq> dom (cx_trusted (pr_ctx p))"
        unfolding q_def using authenticate_op.inv [OF i] authenticate_op.trusts [OF i] by blast+
      note ci = command_op.inv [OF qi(1), of A "S 1" "acr_command req"] command_op.trusts [OF qi(1), of A "S 1" "acr_command req"]
      note ei = ending_op.inv [OF ci(1), of "al_store A" "S 1" ?out] ending_op.trusts [OF ci(1), of "al_store A" "S 1" ?out]
      consider "?r = q" | "?r = ?c" | "?r = fst (after_command (al_store A) (S 1) ?out ?c)" using cases by blast
      then show ?thesis
      proof cases
        case 1
        show ?thesis unfolding 1 a using qi by blast
      next
        case 2
        show ?thesis unfolding 2 a using qi ci by blast
      next
        case 3
        show ?thesis unfolding 3 a using qi ci ei by blast
      qed
    qed
    with cases q c e show ?thesis by auto
  qed simp
  then show "same_identity (pr_ctx (fst (handle_connection A K mode S (fst x) (snd (snd x)) (fst (snd x)) p))) (pr_ctx p)"
    "proc_inv p \<Longrightarrow> proc_inv (fst (handle_connection A K mode S (fst x) (snd (snd x)) (fst (snd x)) p))"
    "proc_inv p \<Longrightarrow> dom (cx_trusted (pr_ctx (fst (handle_connection A K mode S (fst x) (snd (snd x)) (fst (snd x)) p))))
      \<subseteq> dom (cx_trusted (pr_ctx p)) \<union> admits_http A K (fst x) (fst (snd x))"
    unfolding x by simp_all
qed


section \<open>Whom an envelope can bring in\<close>

definition verified :: "wire_lib \<Rightarrow> bytes \<Rightarrow> (endpoint_id \<times> message) option" where
  "verified W b = (case res_bind (sm_decode W b) (verify_and_decode_message W) of Inr x \<Rightarrow> Some x | Inl e \<Rightarrow> None)"

text \<open>Seen from a set \<open>T\<close> of nodes: an invitation with our ticket comes from \<open>T\<close>, and a list that a node
  of \<open>T\<close> sends names only daemons of \<open>T\<close>. Envelopes of other senders may hold anything.\<close>

definition vouched :: "wire_lib \<Rightarrow> ticket \<Rightarrow> endpoint_id set \<Rightarrow> bytes \<Rightarrow> bool" where
  "vouched W t T b \<longleftrightarrow>
     (\<forall>src m. verified W b = Some (src, m) \<longrightarrow>
        ((\<exists>addr al services invr. m = Invited (t_topic t) (t_rnum t) addr al services invr) \<longrightarrow> src \<in> T)
        \<and> (src \<in> T \<longrightarrow> (\<forall>ns. m \<in> {SyncRequest ns, SyncResponse ns} \<longrightarrow>
             (\<forall>n \<in> set ns. is_daemon_node n \<longrightarrow> node_id n \<in> T))))"

lemma decode_verified:
  "decode_and_verify W now c b = Inr (src, m, s) \<Longrightarrow> verified W b = Some (src, m) \<and> vs_trusted s = is_node_trusted c src"
  by (auto simp: decode_and_verify_def verified_def res_bind_def split: sum.splits prod.splits)

lemma receive_within:
  assumes "ctx_inv c" and "arg_daemon (cx_args c)" and "dom (cx_trusted c) \<subseteq> T" and "vouched W (cx_ticket c) T b"
  shows "dom (cx_trusted (receive W E b c)) \<subseteq> T"
proof (cases "decode_and_verify W (clock E 0) c b")
  case (Inr x)
  obtain src m s where x: "x = (src, m, s)" by (metis prod_cases3)
  then have dv: "decode_and_verify W (clock E 0) c b = Inr (src, m, s)" using Inr by simp
  note v = decode_verified [OF dv]
  have "i \<in> T" if "i \<in> dom (cx_trusted (process_message (later E) c src m s))" "i \<notin> dom (cx_trusted c)" for i
    using trust_spreads [OF assms(1,2) dv that] v assms(3,4)
    by (auto simp: vouched_def is_node_trusted_def)
  then have "dom (cx_trusted (process_message (later E) c src m s)) \<subseteq> T" using assms(3) by blast
  then show ?thesis using Inr x by (simp add: receive_def)
qed (use assms(3) in \<open>simp add: receive_def\<close>)

text \<open>What an event may bring in.\<close>

definition within :: "world \<Rightarrow> ticket \<Rightarrow> endpoint_id set \<Rightarrow> event \<Rightarrow> bool" where
  "within G t T e =
     (case e of
        LoopInput i \<Rightarrow>
          (case i of
             DirectMsg (Some b) \<Rightarrow> vouched (wo_wire G) t T b
           | GossipNext (Inr (Some (Received b))) \<Rightarrow> vouched (wo_wire G) t T b
           | _ \<Rightarrow> True)
      | SocketCommand pk cmd ok \<Rightarrow> admits_command (wo_admin G) cmd \<subseteq> T
      | HttpConnection rd input ok \<Rightarrow> admits_http (wo_admin G) (wo_codec G) rd input \<subseteq> T
      | _ \<Rightarrow> True)"

lemma loop_step_within:
  assumes "loop_step W L tty S i c d = (c', d', f)" and "ctx_inv c" and "arg_daemon (cx_args c)"
    and "dom (cx_trusted c) \<subseteq> T" and "within G (cx_ticket c) T (LoopInput i)" and "W = wo_wire G"
  shows "dom (cx_trusted c') \<subseteq> T"
proof (cases i)
  case (DirectMsg b)
  then show ?thesis
  proof (cases b)
    case (Some a)
    then show ?thesis
      using receive_within [OF assms(2,3,4), of W a "se_env S"] assms(1,5,6) DirectMsg by (simp add: within_def)
  qed (use assms in simp)
next
  case (GossipNext r)
  show ?thesis
  proof (cases r)
    case (Inr ev)
    then show ?thesis
    proof (cases ev)
      case (Some e)
      then show ?thesis
        using receive_within [OF assms(2,3,4), where W = W and E = "se_env S"] assms GossipNext Inr
        by (cases e) (auto simp: within_def announce_join_fields)
    qed (use assms GossipNext Inr in simp)
  qed (use assms GossipNext in simp)
qed (use assms graceful_shutdown_keeps(3) in \<open>auto simp: broadcast_tick_keeps sync_tick_keeps split: if_splits\<close>)

section \<open>Every step\<close>

lemma sys_step_keeps:
  assumes "sys_step G s e s'"
  shows "same_identity (pr_ctx (sy_proc s')) (pr_ctx (sy_proc s))"
    and "proc_inv (sy_proc s) \<Longrightarrow> proc_inv (sy_proc s')"
proof -
  have "same_identity (pr_ctx (sy_proc s')) (pr_ctx (sy_proc s)) \<and> (proc_inv (sy_proc s) \<longrightarrow> proc_inv (sy_proc s'))"
    using assms
  proof cases
    case (loop S i)
    obtain c d f where eq: "loop_step (wo_wire G) (al_store (wo_admin G)) (wo_interactive G) S i
        (pr_ctx (sy_proc s)) (pr_fs (sy_proc s)) = (c, d, f)" by (metis prod_cases3)
    show ?thesis using loop_step_keeps [OF eq] by (simp add: loop loop_event_def eq proc_inv_def)
  next
    case (tick S)
    obtain c d r where eq: "sync_hosts_file S (pr_ctx (sy_proc s)) (pr_fs (sy_proc s)) = (c, d, r)" by (metis prod_cases3)
    have "c = (pr_ctx (sy_proc s))\<lparr>cx_hosts_sync := cx_hosts_sync c\<rparr>"
      using hosts_tasks_state(1) [of S "pr_ctx (sy_proc s)" "pr_fs (sy_proc s)"] by (simp add: eq)
    then have "same_identity c (pr_ctx (sy_proc s))" "ctx_inv c = ctx_inv (pr_ctx (sy_proc s))"
      by (metis same_identity_updates(2) same_identity_refl, metis ctx_inv_other(5))
    then show ?thesis by (simp add: tick hosts_tick_def eq proc_inv_def)
  next
    case (auth S req)
    then show ?thesis
      using authenticate_op.identity [of "wo_admin G" "se_env S" AllowLocalTicketless req "sy_proc s"]
        authenticate_op.inv [of "sy_proc s" "wo_admin G" "se_env S" AllowLocalTicketless req]
      by (simp add: socket_auth_def case_prod_beta)
  next
    case (command pk S cmd ok)
    then show ?thesis
      using serve_op.identity [where A = "wo_admin G" and K = "wo_codec G" and S = S and pk = pk and x = "(cmd, ok)" and p = "sy_proc s"]
        serve_op.inv [where A = "wo_admin G" and K = "wo_codec G" and S = S and pk = pk and x = "(cmd, ok)" and p = "sy_proc s"]
      by (simp add: socket_command_def case_prod_beta)
  next
    case (http S rd input ok)
    then show ?thesis
      using http_op.identity [where A = "wo_admin G" and K = "wo_codec G" and mode = "wo_http_mode G" and S = "\<lambda>i. S" and x = "(rd, input, ok)" and p = "sy_proc s"]
        http_op.inv [where A = "wo_admin G" and K = "wo_codec G" and mode = "wo_http_mode G" and S = "\<lambda>i. S" and x = "(rd, input, ok)" and p = "sy_proc s"]
      by (simp add: http_connection_def case_prod_beta)
  qed simp
  then show "same_identity (pr_ctx (sy_proc s')) (pr_ctx (sy_proc s))"
    and "proc_inv (sy_proc s) \<Longrightarrow> proc_inv (sy_proc s')" by blast+
qed

lemma sys_run_keeps:
  "sys_run G s es s' \<Longrightarrow> same_identity (pr_ctx (sy_proc s')) (pr_ctx (sy_proc s))
     \<and> (proc_inv (sy_proc s) \<longrightarrow> proc_inv (sy_proc s'))"
proof (induction rule: sys_run.induct)
  case (step s e s' es s'')
  then show ?case using sys_step_keeps [OF step.hyps(1)] same_identity_trans by blast
qed simp


lemma sys_step_down: "sys_step G s e s' \<Longrightarrow> sy_phase s \<noteq> Down"
  by (cases rule: sys_step.cases) auto

lemma sys_step_loop: "sys_step G s e s' \<Longrightarrow> sy_loop s' \<Longrightarrow> sy_loop s"
  by (cases rule: sys_step.cases)
    (auto simp: hosts_tick_def socket_auth_def socket_command_def http_connection_def Let_def case_prod_beta)

lemma sys_step_hosts_task: "sys_step G s e s' \<Longrightarrow> sy_hosts_task s' \<Longrightarrow> sy_hosts_task s"
  by (cases rule: sys_step.cases)
    (auto simp: loop_event_def socket_auth_def socket_command_def http_connection_def Let_def case_prod_beta)

text \<open>C2. The invariant of the process, over every interleaving of its event loop, its hosts task, its
  admin connections and its end: both tables are finite and filed under the node ids, only daemons are
  trusted and never the daemon itself, and every registered client has every permission; the
  daemon's own record, arguments, ticket and start time never change, and on disk only the table of
  nodes does. An event loop or a hosts task
  that has ended does not come back, and a process that is down does nothing.\<close>

theorem process_invariant:
  assumes "sys_run G s es s'" and "proc_inv (sy_proc s)"
  shows "proc_inv (sy_proc s')
    \<and> same_identity (pr_ctx (sy_proc s')) (pr_ctx (sy_proc s))
    \<and> (sy_loop s' \<longrightarrow> sy_loop s) \<and> (sy_hosts_task s' \<longrightarrow> sy_hosts_task s)
    \<and> (sy_phase s = Down \<longrightarrow> es = [] \<and> s' = s)"
proof -
  have "(sy_loop s' \<longrightarrow> sy_loop s) \<and> (sy_hosts_task s' \<longrightarrow> sy_hosts_task s) \<and> (sy_phase s = Down \<longrightarrow> es = [] \<and> s' = s)"
    using assms(1)
  proof (induction rule: sys_run.induct)
    case (step s e s' es s'')
    then show ?case
      using sys_step_down [OF step.hyps(1)] sys_step_loop [OF step.hyps(1)] sys_step_hosts_task [OF step.hyps(1)] by blast
  qed simp
  with sys_run_keeps [OF assms(1)] assms(2) show ?thesis by blast
qed

lemma sys_step_within:
  assumes "sys_step G s e s'" and "proc_inv (sy_proc s)" and "arg_daemon (cx_args (pr_ctx (sy_proc s)))"
    and "dom (cx_trusted (pr_ctx (sy_proc s))) \<subseteq> T" and "within G (cx_ticket (pr_ctx (sy_proc s))) T (snd e)"
  shows "dom (cx_trusted (pr_ctx (sy_proc s'))) \<subseteq> T"
  using assms(1)
proof cases
  case (loop S i)
  obtain c d f where eq: "loop_step (wo_wire G) (al_store (wo_admin G)) (wo_interactive G) S i
      (pr_ctx (sy_proc s)) (pr_fs (sy_proc s)) = (c, d, f)" by (metis prod_cases3)
  have "dom (cx_trusted c) \<subseteq> T"
    using loop_step_within [OF eq _ assms(3,4)] assms(2,5) loop(1) by (simp add: proc_inv_def)
  then show ?thesis by (simp add: loop loop_event_def eq)
next
  case (tick S)
  obtain c d r where eq: "sync_hosts_file S (pr_ctx (sy_proc s)) (pr_fs (sy_proc s)) = (c, d, r)" by (metis prod_cases3)
  have "cx_trusted c = cx_trusted (pr_ctx (sy_proc s))"
    using arg_cong [OF hosts_tasks_state(1) [of S "pr_ctx (sy_proc s)" "pr_fs (sy_proc s)"], of cx_trusted] by (simp add: eq)
  then show ?thesis using assms(4) by (simp add: tick hosts_tick_def eq)
next
  case (auth S req)
  then show ?thesis
    using authenticate_op.stays_within [OF assms(2,4), where A = "wo_admin G" and E = "se_env S" and mode = AllowLocalTicketless and x = req]
    by (simp add: socket_auth_def case_prod_beta)
next
  case (command pk S cmd ok)
  then show ?thesis
    using serve_op.stays_within [OF assms(2,4), where A = "wo_admin G" and K = "wo_codec G" and S = S and pk = pk and x = "(cmd, ok)"] assms(5)
    by (simp add: socket_command_def case_prod_beta within_def)
next
  case (http S rd input ok)
  then show ?thesis
    using http_op.stays_within [OF assms(2,4), where A = "wo_admin G" and K = "wo_codec G" and mode = "wo_http_mode G"
        and S = "\<lambda>i. S" and x = "(rd, input, ok)"] assms(5)
    by (simp add: http_connection_def case_prod_beta within_def)
qed (use assms(4) in simp)

text \<open>The circle of trust: take a set \<open>T\<close> of nodes that contains every trusted node of the daemon. If,
  over a whole run of the process, no node outside \<open>T\<close> sends a valid invitation with the daemon's
  topic and secret, the lists that nodes of \<open>T\<close> send name no daemon outside \<open>T\<close>, and no admin adds
  such a node by its ticket, then no node outside \<open>T\<close> is ever trusted, whatever the nodes outside
  send, in whatever order, and whatever else happens.\<close>

theorem circle_of_trust:
  assumes "sys_run G s es s'" and "proc_inv (sy_proc s)" and "arg_daemon (cx_args (pr_ctx (sy_proc s)))"
    and "dom (cx_trusted (pr_ctx (sy_proc s))) \<subseteq> T"
    and "\<forall>e \<in> set es. within G (cx_ticket (pr_ctx (sy_proc s))) T (snd e)"
  shows "dom (cx_trusted (pr_ctx (sy_proc s'))) \<subseteq> T"
  using assms
proof (induction rule: sys_run.induct)
  case (step s e s' es s'')
  note k = sys_step_keeps [OF step.hyps(1)]
  have "dom (cx_trusted (pr_ctx (sy_proc s'))) \<subseteq> T"
    using step.prems by (intro sys_step_within [OF step.hyps(1)]) simp_all
  then show ?case using step.prems k by (intro step.IH) (simp_all add: same_identity_def)
qed simp


section \<open>A concrete process\<close>

text \<open>Daemon 1 of \<open>demo_ctx\<close>, up and waiting for input.\<close>

definition demo_world :: world where
  "demo_world = \<lparr>wo_wire = demo_lib, wo_admin = demo_admin_lib, wo_codec = demo_codec, wo_interactive = False,
     wo_http_mode = RequireTicket\<rparr>"

definition demo_system :: system where
  "demo_system = \<lparr>sy_proc = demo_proc, sy_loop = True, sy_hosts_task = True, sy_sessions = {}, sy_phase = Up\<rparr>"

lemma demo_system_inv: "proc_inv (sy_proc demo_system)"
  by (simp add: proc_inv_def demo_system_def demo_proc_def demo_ctx_inv full_permissions_new)

lemma demo_system_ctx [simp]: "pr_ctx (sy_proc demo_system) = demo_ctx"
  by (simp add: demo_system_def demo_proc_def)

text \<open>A direct message of daemon 7, which is a stranger, then a client that connects to the socket.\<close>

lemma demo_run:
  obtains s' where "sys_run demo_world demo_system
    [(demo_step, LoopInput (DirectMsg (Some [1]))), (demo_step, SocketAuth demo_request)] s'"
  by (rule that, rule sys_run.step [OF sys_step.loop], simp add: demo_system_def, simp add: demo_system_def,
      rule sys_run.step [OF sys_step.auth], simp add: loop_event_def demo_system_def Let_def, rule sys_run.refl)

theorem process_invariant_witness:
  "\<exists>s'. sys_run demo_world demo_system
      [(demo_step, LoopInput (DirectMsg (Some [1]))), (demo_step, SocketAuth demo_request)] s'
    \<and> proc_inv (sy_proc s') \<and> cx_ticket (pr_ctx (sy_proc s')) = demo_ticket"
proof -
  obtain s' where r: "sys_run demo_world demo_system
      [(demo_step, LoopInput (DirectMsg (Some [1]))), (demo_step, SocketAuth demo_request)] s'" by (rule demo_run)
  from process_invariant [OF r demo_system_inv] r show ?thesis by (auto simp: same_identity_def)
qed

theorem circle_of_trust_witness:
  "\<exists>s'. sys_run demo_world demo_system
      [(demo_step, LoopInput (DirectMsg (Some [1]))), (demo_step, SocketAuth demo_request)] s'
    \<and> \<not> is_node_trusted (pr_ctx (sy_proc s')) (EndpointId 7)"
proof -
  obtain s' where r: "sys_run demo_world demo_system
      [(demo_step, LoopInput (DirectMsg (Some [1]))), (demo_step, SocketAuth demo_request)] s'" by (rule demo_run)
  have "verified demo_lib [1] = Some (EndpointId 7, Heartbeat)"
    by (simp add: verified_def sm_decode_def verify_and_decode_message_def signing_bytes_def demo_lib_def or_err_def
        demo_envelope_def)
  then have "within demo_world demo_ticket {EndpointId 2} (LoopInput (DirectMsg (Some [1])))"
    by (simp add: within_def vouched_def demo_world_def)
  moreover have "within demo_world demo_ticket {EndpointId 2} (SocketAuth demo_request)" by (simp add: within_def)
  ultimately have "dom (cx_trusted (pr_ctx (sy_proc s'))) \<subseteq> {EndpointId 2}"
    using circle_of_trust [OF r demo_system_inv, of "{EndpointId 2}"] by simp
  then have "EndpointId 7 \<notin> dom (cx_trusted (pr_ctx (sy_proc s')))" by auto
  then have "\<not> is_node_trusted (pr_ctx (sy_proc s')) (EndpointId 7)" by (simp add: is_node_trusted_def domIff)
  with r show ?thesis by blast
qed

section \<open>The hosts file after a shutdown\<close>

text \<open>Some section of a file, given as the lines that it was written as or that are read from it.\<close>

definition holds_section :: "fs \<Rightarrow> path \<Rightarrow> string list \<Rightarrow> bool" where
  "holds_section d p ins \<longleftrightarrow>
     (\<exists>pre post. fs_files d p = Some (write_lines (pre @ ins @ post)) \<or> lines_unwrap (content_of d p) = Some (pre @ ins @ post))"

lemma splice_holds:
  "splice_section hosts_tag ins lines = Inr (Some new) \<Longrightarrow> \<exists>pre post. new = pre @ ins @ post"
  "splice_section hosts_tag ins lines = Inr None \<Longrightarrow> \<exists>pre post. lines = pre @ ins @ post"
proof -
  assume "splice_section hosts_tag ins lines = Inr (Some new)"
  note sp = this [unfolded splice_eq]
  show "\<exists>pre post. new = pre @ ins @ post"
  proof (cases "position is_begin lines")
    case None
    then have "\<exists>gap. new = (lines @ gap) @ ins @ []" using sp by (cases "position is_end lines") auto
    then show ?thesis by blast
  next
    case (Some b)
    then obtain e where e: "position is_end lines = Some e" using sp by (cases "position is_end lines") auto
    have "new = take b lines @ ins @ drop b (take b lines @ drop (e + 1) lines)"
      using sp unfolding Some e option.case prod.case
      by (simp only: sum.inject sum.distinct option.inject option.distinct split: if_split_asm)
    then show ?thesis by blast
  qed
next
  assume "splice_section hosts_tag ins lines = Inr None"
  then obtain b e where "drop b (take (e + 1) lines) = ins" by (auto simp: splice_eq Let_def split: option.splits if_splits)
  then have "take (e + 1) lines = take b (take (e + 1) lines) @ ins" by (metis append_take_drop_id)
  then have "lines = take b (take (e + 1) lines) @ ins @ drop (e + 1) lines" by (metis append.assoc append_take_drop_id)
  then show "\<exists>pre post. lines = pre @ ins @ post" by blast
qed


definition published :: "step_env \<Rightarrow> ctx \<Rightarrow> hosts_builder" where
  "published T c = managed_builder (handle_addr (se_env T))
     (map snd (iter_nodes (se_env T) (cx_nodes c)) @ [current_node_state (se_env T) 0 c]) (arg_hosts_suffix (cx_args c))"

lemma sync_hosts_holds:
  assumes "sync_hosts_file T c d = (c', d', Inr changed)" and "arg_hosts_sync (cx_args c)"
    and "hosts_sync_path d (cx_args c) = Some p"
  shows "holds_section d' (path_of p) (lines_to_insert (published T c))"
proof -
  let ?b = "published T c"
  have w: "write_to (se_fs T) (se_millis T) ?b (path_of p) d = (d', Inr changed)"
    using assms by (auto simp: sync_hosts_file_def sync_nodes_to_hosts_eq published_def Let_def case_prod_beta prod_eq_iff
        split: sum.splits hosts_failure.splits)
  have tag: "hb_tag ?b = hosts_tag" by (simp add: published_def managed_builder_facts)
  obtain lines where ls: "lines_unwrap (content_of d (path_of p)) = Some lines"
    and res: "(\<not> changed \<and> splice_section hosts_tag (lines_to_insert ?b) lines = Inr None \<and> d' = touched d (path_of p))
      \<or> (\<exists>new. changed \<and> splice_section hosts_tag (lines_to_insert ?b) lines = Inr (Some new)
          \<and> fs_files d' (path_of p) = Some (write_lines new))"
    by (rule write_to_Inr [OF w, unfolded tag])
  from res show ?thesis
  proof (elim disjE exE conjE)
    assume 1: "splice_section hosts_tag (lines_to_insert ?b) lines = Inr None" "d' = touched d (path_of p)"
    have "content_of d' (path_of p) = content_of d (path_of p)" using 1(2) by (simp add: content_of_def [of "touched d (path_of p)"])
    then show ?thesis using splice_holds(2) [OF 1(1)] ls by (auto simp: holds_section_def)
  next
    fix new assume "splice_section hosts_tag (lines_to_insert ?b) lines = Inr (Some new)"
      "fs_files d' (path_of p) = Some (write_lines new)"
    then show ?thesis using splice_holds(1) by (fastforce simp: holds_section_def)
  qed
qed

text \<open>C15. The records can outlive the daemon: a shutdown clears its section of the hosts file, but the task
  that keeps the file in step runs until the process exits. If its timer fires in between and it
  can write, the section is back, with the nodes the daemon knew, and stays after the process is
  gone.\<close>

theorem hosts_section_returns:
  assumes "sy_phase s \<noteq> Down" and "sy_loop s" and "sy_hosts_task s" and "arg_hosts_sync (cx_args (pr_ctx (sy_proc s)))"
    and "graceful_shutdown (al_store (wo_admin G)) S (pr_ctx (sy_proc s)) (pr_fs (sy_proc s)) = (c1, d1, Stop)"
    and "sync_hosts_file T c1 d1 = (c2, d2, Inr changed)" and "hosts_sync_path d1 (cx_args c1) = Some p"
  shows "\<exists>s'. sys_run G s [(S, LoopInput SigTerm), (T, HostsTick), (T, Exit)] s' \<and> sy_phase s' = Down
    \<and> pr_fs (sy_proc s') = d2 \<and> holds_section d2 (path_of p) (lines_to_insert (published T c1))"
proof -
  let ?s1 = "loop_event G S SigTerm s" and ?s2 = "hosts_tick T (loop_event G S SigTerm s)"
  have s1: "pr_ctx (sy_proc ?s1) = c1" "pr_fs (sy_proc ?s1) = d1" "sy_phase ?s1 = Closing" "sy_hosts_task ?s1 = sy_hosts_task s"
    using assms(5) by (simp_all add: loop_event_def)
  have "same_identity c1 (pr_ctx (sy_proc s))" using graceful_shutdown_keeps(1) [OF assms(5)] .
  then have sync: "arg_hosts_sync (cx_args c1)" using assms(4) by (simp add: same_identity_def)
  have s2: "pr_fs (sy_proc ?s2) = d2" "sy_phase ?s2 = Closing"
    using s1 assms(6) by (simp_all add: hosts_tick_def)
  have "sys_run G s [(S, LoopInput SigTerm), (T, HostsTick), (T, Exit)] (?s2\<lparr>sy_phase := Down\<rparr>)"
  proof (rule sys_run.step [OF sys_step.loop [OF assms(1,2)]])
    have "sys_step G ?s1 (T, HostsTick) ?s2" using s1 assms(3) sync by (intro sys_step.tick) simp_all
    moreover have "sys_step G ?s2 (T, Exit) (?s2\<lparr>sy_phase := Down\<rparr>)" using s2(2) by (rule sys_step.exit)
    ultimately show "sys_run G ?s1 [(T, HostsTick), (T, Exit)] (?s2\<lparr>sy_phase := Down\<rparr>)"
      by (metis sys_run.step sys_run.refl)
  qed
  with s2(1) sync_hosts_holds [OF assms(6) sync assms(7)] show ?thesis
    by (intro exI [of _ "?s2\<lparr>sy_phase := Down\<rparr>"]) simp
qed

text \<open>The daemon of \<open>syncing_ctx\<close> with the hosts file of \<open>demo_fs\<close>.\<close>

definition syncing_system :: system where
  "syncing_system = demo_system\<lparr>sy_proc := \<lparr>pr_ctx = syncing_ctx, pr_clients = registry_new, pr_fs = demo_fs\<rparr>\<rparr>"

lemma me_unmarked: "position is_begin [''::1 me'', []] = None" "position is_end [''::1 me'', []] = None"
  using demo_hosts_unmarked markers(8,9) by (auto simp: is_begin_def is_end_def trim_id position_None)

lemma demo_cleared:
  obtains d1 where "write_to no_faults 5 (hosts_builder_new hosts_tag) etc_hosts demo_fs = (d1, Inr True)"
    and "lines_unwrap (content_of d1 etc_hosts) = Some [''::1 me'', []]" and "fs_is_dir d1 = fs_is_dir demo_fs"
proof -
  have b: "lines_to_insert (hosts_builder_new hosts_tag) = []" "hb_tag (hosts_builder_new hosts_tag) = hosts_tag"
    by (simp_all add: lines_to_insert_def hosts_builder_new_def)
  have sp: "splice_section hosts_tag [] [''::1 me''] = Inr (Some [''::1 me'', []])"
    unfolding splice_eq demo_hosts_unmarked by simp
  obtain tp where tp: "get_temp_path 5 etc_hosts = Inr tp" using demo_temp_path by blast
  have nd: "\<not> fs_is_dir demo_fs etc_hosts" by (simp add: demo_fs_def)
  obtain d1 where w: "write_to no_faults 5 (hosts_builder_new hosts_tag) etc_hosts demo_fs = (d1, Inr True)"
    using write_to_no_faults [OF nd tp demo_hosts_lines(2), of "hosts_builder_new hosts_tag"] b sp by auto
  obtain tp' lines where "lines_unwrap (content_of demo_fs etc_hosts) = Some lines" and dirs: "fs_is_dir d1 = fs_is_dir demo_fs"
    and "\<exists>new. splice_section hosts_tag [] lines = Inr (Some new) \<and> fs_files d1 etc_hosts = Some (write_lines new)"
    using write_to_Inr [OF w] unfolding b by metis
  then have f: "fs_files d1 etc_hosts = Some (write_lines [''::1 me'', []])" using demo_hosts_lines(2) sp by simp
  have plain: "plain_line ''::1 me''" by (simp add: plain_line_def is_ascii_def code_in_def)
  then have "lines_unwrap (write_lines [''::1 me'', []]) = Some (map strip_cr [''::1 me'', []])"
    using plain_lineD [OF plain] by (intro lines_write_lines) auto
  then have "lines_unwrap (content_of d1 etc_hosts) = Some [''::1 me'', []]"
    using f plain_lineD [OF plain] by (simp add: content_of_def strip_cr_def)
  with w dirs show ?thesis by (intro that)
qed


lemma peer_published: "cx_nodes c = [EndpointId 2 \<mapsto> peer] \<Longrightarrow> lines_to_insert (published (quiet_step t) c) \<noteq> []"
proof -
  assume c: "cx_nodes c = [EndpointId 2 \<mapsto> peer]"
  have b: "canonical_hostname ''b'' = Some ''b''"
    by (rule dns_name_canonical)
      (simp add: dns_name_def dns_char_def is_ascii_lower_def code_in_def is_valid_hostname_label_def
        starts_with_def ends_with_def is_label_char_def is_ascii_alphanumeric_def suffix_def)
  have env: "handle_addr (se_env (quiet_step t)) = ea_new (EndpointId 1)" "iter_nodes (se_env (quiet_step t)) = sorted_iter"
    by (simp_all add: quiet_step_def demo_env_def)
  have "record_ip_for_local (node_addr peer) (ea_new (EndpointId 1)) = Some (IpV4 2)"
    by (simp add: record_ip_for_local_def best_endpoint_addr_for_local_def)
  then have "host_entry (ea_new (EndpointId 1)) sfx peer = Some (IpV4 2, names_of sfx ''b'')" for sfx
    unfolding host_entry_iff using b by simp
  moreover have "peer \<in> set (map snd (sorted_iter (cx_nodes c)))" by (simp add: c sorted_iter_def)
  then have "peer \<in> set (map snd (sorted_iter (cx_nodes c)) @ [current_node_state (se_env (quiet_step t)) 0 c])" by simp
  ultimately have "IpV4 2 \<in> fst ` set (hb_map (published (quiet_step t) c))"
    unfolding published_def env managed_builder_def builder_fold_ips by blast
  then show ?thesis by (auto simp: lines_to_insert_def)
qed

theorem hosts_section_returns_witness:
  "\<exists>s'. sys_run demo_world syncing_system
      [(quiet_step 200, LoopInput SigTerm), (quiet_step 201, HostsTick), (quiet_step 201, Exit)] s'
    \<and> sy_phase s' = Down \<and> (\<exists>ins. ins \<noteq> [] \<and> holds_section (pr_fs (sy_proc s')) etc_hosts ins)"
proof -
  have sys: "pr_ctx (sy_proc syncing_system) = syncing_ctx" "pr_fs (sy_proc syncing_system) = demo_fs"
    "sy_phase syncing_system \<noteq> Down" "sy_loop syncing_system" "sy_hosts_task syncing_system"
    by (simp_all add: syncing_system_def demo_system_def)
  have args: "arg_hosts_sync (cx_args syncing_ctx)" "arg_hosts_path (cx_args syncing_ctx) = Some ''/etc/hosts''"
    "cx_nodes syncing_ctx = [EndpointId 2 \<mapsto> peer]"
    by (simp_all add: syncing_ctx_def)
  obtain d1 where d1: "write_to no_faults 5 (hosts_builder_new hosts_tag) etc_hosts demo_fs = (d1, Inr True)"
    "lines_unwrap (content_of d1 etc_hosts) = Some [''::1 me'', []]" "fs_is_dir d1 = fs_is_dir demo_fs"
    by (rule demo_cleared)
  obtain c1 d f where gs: "graceful_shutdown demo_store_lib (quiet_step 200) syncing_ctx demo_fs = (c1, d, f)"
    by (metis prod_cases3)
  note keep = graceful_shutdown_keeps [OF gs]
  have path: "hosts_sync_path e (cx_args syncing_ctx) = Some ''/etc/hosts''" for e
    using args by (simp add: hosts_sync_path_def)
  have q: "se_fs (quiet_step t) = no_faults" "se_millis (quiet_step t) = 5" for t by (simp_all add: quiet_step_def)
  have "snd (clear_managed_hosts no_faults 5 etc_hosts demo_fs) = Inr True" by (simp add: clear_managed_hosts_def d1(1))
  then have f: "f = Stop" using shutdown_cases [OF gs] by (simp add: path path_of_etc_hosts q Let_def)
  have "d = d1"
    using gs d1(1) args(1) path
    by (auto simp: graceful_shutdown_def clear_hosts_file_def clear_managed_hosts_def path_of_etc_hosts q Let_def
        case_prod_beta split: if_splits)
  with gs f have gs': "graceful_shutdown (al_store (wo_admin demo_world)) (quiet_step 200)
      (pr_ctx (sy_proc syncing_system)) (pr_fs (sy_proc syncing_system)) = (c1, d1, Stop)"
    by (simp add: sys demo_world_def demo_admin_lib_def)
  have c1: "cx_args c1 = cx_args syncing_ctx" "cx_nodes c1 = [EndpointId 2 \<mapsto> peer]"
    using keep(1,4) args(3) by (simp_all add: same_identity_def)
  let ?b = "published (quiet_step 201) c1"
  have tag: "hb_tag ?b = hosts_tag" by (simp add: published_def managed_builder_facts)
  obtain tp where tp: "get_temp_path 5 etc_hosts = Inr tp" using demo_temp_path by blast
  have nd: "\<not> fs_is_dir d1 etc_hosts" by (simp add: d1(3) demo_fs_def)
  have "splice_section (hb_tag ?b) (lines_to_insert ?b) [''::1 me'', []] = Inr (Some ([''::1 me'', []] @ lines_to_insert ?b))"
    unfolding tag splice_eq me_unmarked by simp
  from write_to_no_faults [OF nd tp d1(2) this] obtain d2 where "write_to no_faults 5 ?b etc_hosts d1 = (d2, Inr True)"
    by blast
  then obtain c2 where sync: "sync_hosts_file (quiet_step 201) c1 d1 = (c2, d2, Inr True)"
    using args(1) path c1(1)
    by (simp add: sync_hosts_file_def sync_nodes_to_hosts_eq published_def path_of_etc_hosts q Let_def)
  from hosts_section_returns [OF sys(3-5) _ gs' sync] args path c1 sys(1) peer_published [OF c1(2), of 201] show ?thesis
    by (auto simp: path_of_etc_hosts)
qed

end
