(* ===== verification/Init_Props.thy ===== *)
theory Init_Props
  imports Daemon_Run System_Props
begin

text \<open>
  Properties of a start. \<open>touches\<close> says which configuration keys a step of the start can change; the
  steps compose by \<open>touches_bind\<close>. \<open>started\<close> takes a successful start apart.
\<close>

section \<open>Steps\<close>

lemma start_bind_Inr:
  "start_bind p f st = (st', Inr y) \<longleftrightarrow> (\<exists>s x. p st = (s, Inr x) \<and> f x s = (st', Inr y))"
  by (auto simp: start_bind_def split: prod.splits sum.splits)

lemma start_bindE:
  assumes "start_bind p f st = (st', Inr y)"
  obtains s x where "p st = (s, Inr x)" and "f x s = (st', Inr y)"
  using assms by (auto simp: start_bind_Inr)

lemma start_return_Inr [simp]: "start_return x st = (st', Inr y) \<longleftrightarrow> st' = st \<and> y = x"
  by (auto simp: start_return_def)

lemma start_check_Inr [simp]: "start_check g r st = (st', Inr y) \<longleftrightarrow> st' = st \<and> r = Inr y"
  by (auto simp: start_check_def start_fail_def split: sum.splits)

lemma start_fail_Inr [simp]: "start_fail e st \<noteq> (st', Inr y)"
  by (simp add: start_fail_def)

lemma reading_Inr [simp]: "reading f st = (st', Inr y) \<longleftrightarrow> st' = st \<and> f st = Inr y"
  by (simp add: reading_def)

lemma writing_Inr [simp]: "writing f st = (st', Inr y) \<longleftrightarrow> f st = (st', Inr y)"
  by (auto simp: writing_def split: prod.splits)

lemma start_simps:
  "start_bind (start_return x) f = f x" "start_bind (start_fail e) f = start_fail e"
  "start_check h (Inr x) = start_return x" "start_check h (Inl d) = start_fail (h d)"
  by (rule ext; simp add: start_bind_def start_return_def start_fail_def start_check_def)+

section \<open>Configuration values on disk\<close>

definition config_value :: "storage \<Rightarrow> string \<Rightarrow> bytes option" where
  "config_value st key = bt_get key (opened (st_config st))"

definition same_tables :: "storage \<Rightarrow> storage \<Rightarrow> bool" where
  "same_tables st st' \<longleftrightarrow> st_secret st' = st_secret st \<and> st_nodes st' = st_nodes st"

lemma load_config_value:
  "load_config dec fails st key = Inr (Some x) \<Longrightarrow> \<exists>b. config_value st key = Some b \<and> dec b = Some x"
  by (auto simp: load_config_def config_value_def or_err_def res_bind_Inr_iff split: option.splits if_splits)

lemma load_config_no_faults:
  "load_config dec (\<lambda>c. False) st key =
     (case config_value st key of None \<Rightarrow> Inr None
      | Some b \<Rightarrow> (case dec b of Some x \<Rightarrow> Inr (Some x) | None \<Rightarrow> Inl CodecError))"
  by (auto simp: load_config_def config_value_def try_call_def or_err_def bt_get_def split: option.splits)

lemma save_config_value:
  assumes "storage_ok st"
    and "save_config enc fails st key v = (st', Inr ()) \<or> save_config_trival enc fails st key v = (st', Inr ())"
  shows "\<exists>b. enc v = Some b \<and> config_value st' = (config_value st)(key \<mapsto> b)" "same_tables st st'"
proof -
  from assms(2) obtain b where b: "enc v = Some b" "st' = st\<lparr>st_config := Some (bt_insert key b (opened (st_config st)))\<rparr>"
    by (auto simp: save_config_def save_config_trival_def res_bind_Inr_iff or_err_def dest!: write_txn_Ok split: option.splits)
  have "bt_ok (opened (st_config st))" using assms(1) by (simp add: storage_ok_def bt_ok_opened)
  with b show "\<exists>b. enc v = Some b \<and> config_value st' = (config_value st)(key \<mapsto> b)"
    by (auto simp: config_value_def bt_get_insert)
  from b(2) show "same_tables st st'" by (simp add: same_tables_def)
qed

definition touches :: "string set \<Rightarrow> 'a start \<Rightarrow> bool" where
  "touches K p \<longleftrightarrow> (\<forall>st st' r. p st = (st', r) \<longrightarrow> storage_ok st \<longrightarrow>
     storage_ok st' \<and> same_tables st st' \<and> (\<forall>k. k \<notin> K \<longrightarrow> config_value st' k = config_value st k))"

lemma touchesD:
  assumes "touches K p" and "p st = (st', r)" and "storage_ok st"
  shows "storage_ok st'" "same_tables st st'" "k \<notin> K \<Longrightarrow> config_value st' k = config_value st k"
  using assms unfolding touches_def by blast+

lemma touches_nothing [simp]:
  "touches K (start_return x)" "touches K (start_fail e)" "touches K (start_check g r)" "touches K (reading f)"
  by (auto simp: touches_def start_return_def start_fail_def start_check_def reading_def same_tables_def split: sum.splits)

lemma touches_bind:
  assumes "touches K p" and "\<And>x. touches K (f x)"
  shows "touches K (start_bind p f)"
  unfolding touches_def
proof (intro allI impI)
  fix st st' r assume run: "start_bind p f st = (st', r)" and ok: "storage_ok st"
  obtain s q where p: "p st = (s, q)" by (cases "p st")
  note 1 = touchesD [OF assms(1) p ok]
  show "storage_ok st' \<and> same_tables st st' \<and> (\<forall>k. k \<notin> K \<longrightarrow> config_value st' k = config_value st k)"
  proof (cases q)
    case (Inl e)
    then have "st' = s" using run p by (simp add: start_bind_def)
    with 1 show ?thesis by blast
  next
    case (Inr x)
    then have "f x s = (st', r)" using run p by (simp add: start_bind_def)
    note 2 = touchesD [OF assms(2) this 1(1)]
    with 1 show ?thesis by (auto simp: same_tables_def)
  qed
qed

lemma touches_save:
  assumes "key \<in> K"
  shows "touches K (writing (\<lambda>st. save_config enc fails st key v))"
    and "touches K (writing (\<lambda>st. save_config_trival enc fails st key v))"
proof -
  have "storage_ok st' \<and> same_tables st st' \<and> (\<forall>k. k \<notin> K \<longrightarrow> config_value st' k = config_value st k)"
    if ok: "storage_ok st" and run: "save st = (st', r)"
      and save: "save = (\<lambda>st. save_config enc fails st key v) \<or> save = (\<lambda>st. save_config_trival enc fails st key v)"
    for save :: "storage \<Rightarrow> storage \<times> (storage_error, unit) result" and st st' r
  proof -
    have ok': "storage_ok st'" using storage_ok_writers(5,6) [OF ok, of enc fails key v] run save by auto
    show ?thesis
    proof (cases r)
      case (Inl e)
      then have "st' = st" using run save by (auto simp: save_config_def save_config_trival_def dest: write_txn_Err)
      with ok' show ?thesis by (simp add: same_tables_def)
    next
      case (Inr u)
      then have "save_config enc fails st key v = (st', Inr ()) \<or> save_config_trival enc fails st key v = (st', Inr ())"
        using run save by auto
      from save_config_value [OF ok this] ok' assms show ?thesis by auto
    qed
  qed
  then show "touches K (writing (\<lambda>st. save_config enc fails st key v))"
    and "touches K (writing (\<lambda>st. save_config_trival enc fails st key v))"
    unfolding touches_def writing_def Let_def case_prod_beta
    by (simp_all add: start_check_def start_fail_def start_return_def split: sum.splits)
      (metis prod.collapse)+
qed

lemma touches_port: "touches {''bind_port''} (load_or_assign_bind_port N V)"
  unfolding load_or_assign_bind_port_def
  by (intro touches_bind touches_nothing) (auto intro!: touches_bind touches_save split: option.split)

lemma touches_bind_targets: "touches {''bind_port''} (bind_targets N V a)"
  unfolding bind_targets_def
  by (auto intro!: touches_bind touches_port split: option.split bind_target.split)

lemma touches_load_network: "touches K (load_network N V)"
  unfolding load_network_def by (intro touches_bind) simp_all

lemma touches_save_network: "touches {''topic'', ''ticket_rnum''} (save_network N V t)"
  unfolding save_network_def by (auto intro!: touches_bind touches_save split: prod.split)

lemma touches_network_ticket: "touches {''topic'', ''ticket_rnum''} (network_ticket N V a given me)"
  unfolding network_ticket_def
  by (auto intro!: touches_bind touches_load_network touches_save_network split: option.split prod.split)

section \<open>A successful start, taken apart\<close>

lemma given_ticket:
  assumes "(case w of
      Some s \<Rightarrow> start_bind (start_check StartTicket (ticket_from_str T s)) (\<lambda>t. start_return (Some t))
    | None \<Rightarrow> start_return None) st = (st', Inr given)"
  shows "st' = st" "map_option (ticket_from_str T) w = map_option Inr given"
  using assms by (cases w; clarsimp simp: start_bind_Inr)+

lemma started:
  assumes "init_network N L T V a st = (st', Inr c)"
  obtains st0 st1 st2 pk sk given plan sockets me t persisted where
    "(if arg_reset_storage a then writing (clear_storage (sn_db V ClearCall)) else start_return ()) st = (st0, Inr ())"
    and "load_identity L V st0 = (st1, Inr (pk, sk))"
    and "map_option (ticket_from_str T) (arg_ticket a) = map_option Inr given"
    and "bind_targets N V a st1 = (st2, Inr plan)" and "bind_with_fallback N V a plan = Inr sockets"
    and "node_id me = pk" and "network_ticket N V a given me st2 = (st', Inr t)"
    and "load_nodes L (sn_db V LoadNodesCall) st' = Inr persisted" and "join_network V a = Inr ()"
    and "c = (let c = initial_context V a me t persisted (map_option t_invitor given) st'
         in if arg_daemon a \<and> \<not> arg_primary a then announce_join (later (later (sn_env V))) c else c)"
  using assms unfolding init_network_def Let_def
  apply (elim start_bindE)
  subgoal for st0 u st1 ks
    apply (cases ks)
    apply (simp only: prod.case)
    apply (elim start_bindE)
    subgoal premises p for pk sk s1 given s2 relay st2 plan s4 sockets s5 t s6 persisted s7 joined
    proof -
      have given: "s1 = st1" "map_option (ticket_from_str T) (arg_ticket a) = map_option Inr given"
        using given_ticket [OF p(5)] by blast+
      let ?me = "own_node V a pk (map_option node_id (map_option t_invitor given))
          (case arg_domain a of None \<Rightarrow> sn_random_domain V | Some d \<Rightarrow> d)"
      note same = p(6,8,10,11) [unfolded start_check_Inr reading_Inr]
      have end_s: "s7 = s5" "s4 = st2" "s2 = st1" using same given(1) by simp_all
      have "(case arg_domain a of None \<Rightarrow> False | Some d \<Rightarrow> nl_user_data_max N < length d) = False"
        using p(12) by (cases "case arg_domain a of None \<Rightarrow> False | Some d \<Rightarrow> nl_user_data_max N < length d") simp_all
      note fin = p(12) [unfolded this if_False prod.inject sum.inject]
      have fin: "s5 = st'" "c = (let c = initial_context V a ?me t persisted (map_option t_invitor given) st'
         in if arg_daemon a \<and> \<not> arg_primary a then announce_join (later (later (sn_env V))) c else c)"
        by (simp_all only: Let_def fin [THEN conjunct1, symmetric] fin [THEN conjunct2, symmetric] end_s(1))
      have u: "joined = ()" "u = ()" by simp_all
      have "(if arg_reset_storage a then writing (clear_storage (sn_db V ClearCall)) else start_return ()) st = (st0, Inr ())"
        using p(2) u by simp
      moreover have "bind_targets N V a st1 = (st2, Inr plan)" "network_ticket N V a given ?me st2 = (st', Inr t)"
        using p(7,9) end_s fin(1) by simp_all
      moreover have "load_nodes L (sn_db V LoadNodesCall) st' = Inr persisted" "join_network V a = Inr ()"
        "bind_with_fallback N V a plan = Inr sockets"
        using same u end_s fin(1) by simp_all
      moreover have "node_id ?me = pk" by (simp add: own_node_def)
      ultimately show ?thesis using p(3) given(2) fin(2) by (intro that) assumption+
    qed
    done
  done


section \<open>The first context\<close>

lemma fold_put_nodes:
  "fold (\<lambda>n m. m(node_id n \<mapsto> n)) ns m k = Some n \<Longrightarrow> m k = Some n \<or> (n \<in> set ns \<and> node_id n = k)"
  by (induction ns arbitrary: m) (fastforce split: if_splits)+

lemma dom_fold_put_nodes: "dom (fold (\<lambda>n m. m(node_id n \<mapsto> n)) ns m) = dom m \<union> node_id ` set ns"
  by (induction ns arbitrary: m) auto

lemma peers_of_Some:
  "peers_of pk ns k = Some n \<Longrightarrow> n \<in> set ns \<and> node_id n = k \<and> is_daemon_node n \<and> k \<noteq> pk"
  by (auto simp: peers_of_def dest!: fold_put_nodes)

lemma dom_peers_of: "dom (peers_of pk ns) = {node_id n |n. n \<in> set ns \<and> is_daemon_node n} - {pk}"
  by (auto simp: peers_of_def dom_fold_put_nodes)

lemma peers_of_own [simp]: "peers_of pk ns pk = None"
  by (meson not_Some_eq peers_of_Some)

lemma initial_context_inv: "ctx_inv (initial_context V a me t persisted inviter st)"
proof -
  have "finite {node_id n |n. n \<in> set persisted \<and> is_daemon_node n}" by simp
  then show ?thesis
    by (auto simp: ctx_inv_def initial_context_def insert_invitor_bootstrap_def insert_invitor_trusted_def dom_peers_of
        dest: peers_of_Some split: option.splits if_splits)
qed

definition known_at_start :: "node list \<Rightarrow> node option \<Rightarrow> endpoint_id set" where
  "known_at_start persisted inviter =
     node_id ` {n. (n \<in> set persisted \<or> inviter = Some n) \<and> is_daemon_node n}"

lemma initial_context_trusted:
  "dom (cx_trusted (initial_context V a me t persisted inviter st)) = known_at_start persisted inviter - {node_id me}"
  by (auto simp: initial_context_def insert_invitor_trusted_def dom_peers_of known_at_start_def split: option.splits)

lemma started_context:
  assumes "init_network N L T V a st = (st', Inr c)"
  obtains persisted given where "ctx_inv c" and "cx_args c = a" and "cx_storage c = st'" and "\<not> cx_paused c"
    and "load_nodes L (sn_db V LoadNodesCall) st' = Inr persisted"
    and "map_option (ticket_from_str T) (arg_ticket a) = map_option Inr given"
    and "dom (cx_trusted c) = known_at_start persisted (map_option t_invitor given) - {node_id (cx_me c)}"
proof (rule started [OF assms])
  fix st0 st1 st2 pk sk plan sockets me t persisted and given :: "ticket option"
  let ?c = "initial_context V a me t persisted (map_option t_invitor given) st'"
  assume c: "c = (let c = ?c in if arg_daemon a \<and> \<not> arg_primary a then announce_join (later (later (sn_env V))) c else c)"
    and l: "load_nodes L (sn_db V LoadNodesCall) st' = Inr persisted"
    and g: "map_option (ticket_from_str T) (arg_ticket a) = map_option Inr given"
  have "same_identity c ?c" "ctx_inv c = ctx_inv ?c" "cx_trusted c = cx_trusted ?c" "cx_storage c = cx_storage ?c"
    "cx_paused c = cx_paused ?c"
    by (simp_all add: c Let_def announce_join_fields) (simp_all add: announce_join_def Let_def)
  then show thesis
    using that [OF _ _ _ _ l g] initial_context_inv initial_context_trusted [of V a me t persisted "map_option t_invitor given" st']
    by (simp add: same_identity_def) (simp add: initial_context_def)
qed

section \<open>What a start leaves on disk\<close>

definition net_lib_ok :: "net_lib \<Rightarrow> bool" where
  "net_lib_ok N \<longleftrightarrow>
     (\<forall>p b. nl_enc_port N p = Some b \<longrightarrow> nl_dec_port N b = Some p)
     \<and> (\<forall>t b. nl_enc_topic N t = Some b \<longrightarrow> nl_dec_topic N b = Some t)
     \<and> (\<forall>r b. nl_enc_rnum N r = Some b \<longrightarrow> nl_dec_rnum N b = Some r)"

lemma load_secret_Some:
  "load_secret L f st = Inr (Some ks) \<Longrightarrow> load_secret L (\<lambda>c. False) st = Inr (Some ks)"
  by (auto simp: load_secret_def try_call_def split: option.splits if_splits)

lemma save_secret_loads:
  assumes "store_lib_ok L" and "storage_ok st" and "save_secret L f st sk = (st', Inr ())"
  shows "load_secret L (\<lambda>c. False) st' = Inr (Some (sk_public L sk, sk))"
proof -
  have ok: "bt_ok (opened (st_secret st))" using assms(2) by (simp add: storage_ok_def bt_ok_opened)
  from write_txn_Ok [OF assms(3) [unfolded save_secret_def]]
  have "st_secret st' = Some (bt_insert ''sk'' (b64_enc_key L (sk_to_bytes L sk)) (opened (st_secret st)))" by auto
  with assms(1) show ?thesis
    by (simp add: load_secret_def try_call_def bt_get_insert [OF ok] store_lib_ok_def or_err_def)
qed

lemma identity_stored:
  assumes "store_lib_ok L" and "storage_ok st" and "load_identity L V st = (st', Inr (pk, sk))"
    and "sn_db V SaveSecretCall = (\<lambda>c. False)"
  shows "load_secret L (\<lambda>c. False) st' = Inr (Some (pk, sk))" "storage_ok st'"
proof -
  from assms(3) obtain found where found: "load_secret L (sn_db V LoadSecretCall) st = Inr found"
    and rest: "(case found of Some ks \<Rightarrow> start_return ks
       | None \<Rightarrow> (\<lambda>st. let (st', r) = save_secret L (sn_db V SaveSecretCall) st (sn_random_secret V)
           in (st', Inr (sk_public L (sn_random_secret V), sn_random_secret V)))) st = (st', Inr (pk, sk))"
    by (auto simp: load_identity_def start_bind_Inr)
  have "load_secret L (\<lambda>c. False) st' = Inr (Some (pk, sk)) \<and> storage_ok st'"
  proof (cases found)
    case (Some ks)
    with rest found assms(2) show ?thesis by (simp add: load_secret_Some)
  next
    case None
    let ?s = "save_secret L (\<lambda>c. False) st (sn_random_secret V)"
    have "snd ?s = Inr ()" by (simp add: save_secret_def write_txn_def try_call_def)
    then have s: "?s = (fst ?s, Inr ())" by (metis prod.collapse)
    have "st' = fst ?s" "sk = sn_random_secret V" "pk = sk_public L sk"
      using rest None assms(4) by (auto simp: Let_def case_prod_beta)
    then show ?thesis using save_secret_loads [OF assms(1,2) s] storage_ok_writers(4) [OF assms(2)] by simp
  qed
  then show "load_secret L (\<lambda>c. False) st' = Inr (Some (pk, sk))" "storage_ok st'" by simp_all
qed

lemma load_secret_cong: "st_secret st = st_secret st' \<Longrightarrow> load_secret L f st = load_secret L f st'"
  by (simp add: load_secret_def)

lemma config_value_cong: "st_config st = st_config st' \<Longrightarrow> config_value st key = config_value st' key"
  by (simp add: config_value_def)

definition network_on_disk :: "net_lib \<Rightarrow> storage \<Rightarrow> topic_id \<Rightarrow> bytes \<Rightarrow> bool" where
  "network_on_disk N st topic rnum \<longleftrightarrow>
     Option.bind (config_value st ''topic'') (nl_dec_topic N) = Some topic
     \<and> Option.bind (config_value st ''ticket_rnum'') (nl_dec_rnum N) = Some rnum"

lemma load_network_Inr:
  "load_network N V st = (st', Inr (Some topic, Some rnum)) \<Longrightarrow> st' = st \<and> network_on_disk N st topic rnum"
  by (auto simp: load_network_def start_bind_Inr network_on_disk_def dest!: load_config_value)

lemma save_network_stored:
  assumes "net_lib_ok N" and "storage_ok st" and "save_network N V t st = (st', Inr t')"
  shows "t' = t \<and> network_on_disk N st' (t_topic t) (t_rnum t)"
proof -
  from assms(3) obtain s where s: "save_config_trival (nl_enc_topic N) (sn_db V SaveTopicCall) st ''topic'' (t_topic t) = (s, Inr ())"
    and s': "save_config (nl_enc_rnum N) (sn_db V SaveRnumCall) s ''ticket_rnum'' (t_rnum t) = (st', Inr ())" and "t' = t"
    by (auto simp: save_network_def ticket_flatten_def start_bind_Inr)
  have "storage_ok s" using storage_ok_writers(6) [OF assms(2)] s by (metis fst_conv)
  obtain b where b: "nl_enc_topic N (t_topic t) = Some b" "config_value s = (config_value st)(''topic'' \<mapsto> b)"
    using save_config_value(1) [OF assms(2) disjI2 [OF s]] by blast
  obtain d where d: "nl_enc_rnum N (t_rnum t) = Some d" "config_value st' = (config_value s)(''ticket_rnum'' \<mapsto> d)"
    using save_config_value(1) [OF \<open>storage_ok s\<close> disjI1 [OF s']] by blast
  from b(1) d(1) assms(1) have "nl_dec_topic N b = Some (t_topic t)" "nl_dec_rnum N d = Some (t_rnum t)"
    by (simp_all add: net_lib_ok_def)
  with b(2) d(2) \<open>t' = t\<close> show ?thesis by (simp add: network_on_disk_def)
qed

lemma network_ticket_stored:
  assumes "net_lib_ok N" and "storage_ok st" and "network_ticket N V a given me st = (st', Inr t)"
  shows "network_on_disk N st' (t_topic t) (t_rnum t)"
proof -
  have "(\<exists>k. save_network N V k st = (st', Inr t))
    \<or> (\<exists>topic rnum. load_network N V st = (st', Inr (Some topic, Some rnum)) \<and> t = ticket_from_parts topic rnum me)"
  proof -
    have found: "load_network N V st = (s, Inr x) \<Longrightarrow> s = st" for s x by (auto simp: load_network_def start_bind_Inr)
    have case_load: "start_bind (load_network N V) (\<lambda>found. case found of
          (Some topic, Some rnum) \<Rightarrow> start_return (ticket_from_parts topic rnum me) | _ \<Rightarrow> other) st = (st', Inr t) \<Longrightarrow>
        other st = (st', Inr t) \<or> (\<exists>topic rnum. load_network N V st = (st', Inr (Some topic, Some rnum))
          \<and> t = ticket_from_parts topic rnum me)" for other
      using found by (fastforce simp: start_bind_Inr split: option.splits prod.splits)
    show ?thesis
    proof (cases "arg_primary a")
      case True
      with assms(3) show ?thesis unfolding network_ticket_def if_P [OF True] by (metis case_load)
    next
      case False
      with assms(3) show ?thesis
        unfolding network_ticket_def if_not_P [OF False]
        by (cases given) (auto dest!: case_load)
    qed
  qed
  then show ?thesis
    using save_network_stored [OF assms(1,2)] load_network_Inr [of N V st st'] by (auto simp: ticket_from_parts_def)
qed

lemma network_ticket_reloaded:
  assumes "network_on_disk N st topic rnum" and "arg_primary a \<or> given = None"
    and "sn_db V LoadTopicCall = (\<lambda>c. False)" and "sn_db V LoadRnumCall = (\<lambda>c. False)"
  shows "network_ticket N V a given me st = (st, Inr (ticket_from_parts topic rnum me))"
proof -
  have "load_network N V st = (st, Inr (Some topic, Some rnum))"
    using assms(1,3,4) by (auto simp: load_network_def start_bind_Inr load_config_no_faults network_on_disk_def bind_eq_Some_conv)
  with assms(2) show ?thesis
    by (auto simp: network_ticket_def start_bind_def start_return_def)
qed

section \<open>Properties\<close>

definition invited_by :: "ticket_lib \<Rightarrow> daemon_args \<Rightarrow> node option" where
  "invited_by T a =
     (case arg_ticket a of
        Some w \<Rightarrow> (case ticket_from_str T w of Inr t \<Rightarrow> Some (t_invitor t) | Inl e \<Rightarrow> None)
      | None \<Rightarrow> None)"

lemma invited_by_given:
  "map_option (ticket_from_str T) (arg_ticket a) = map_option Inr given \<Longrightarrow> map_option t_invitor given = invited_by T a"
  by (cases "arg_ticket a"; cases given) (auto simp: invited_by_def)

text \<open>A daemon that came up runs on the context that \<open>init_network\<close> built.\<close>

lemma run_daemon_context:
  assumes "run_daemon N L T V S a st = (st', Inr (s, mode))"
  obtains c h where "init_network N L T V (a\<lparr>arg_daemon := True\<rparr>) st = (st', Inr c)"
    and "pr_ctx (sy_proc s) = c\<lparr>cx_hosts_sync := h\<rparr>" and "pr_clients (sy_proc s) = registry_new"
proof -
  let ?a = "a\<lparr>arg_daemon := True\<rparr>"
  from assms obtain c where init: "init_network N L T V ?a st = (st', Inr c)"
    and s: "s = launched (fst (if arg_hosts_sync ?a then sync_hosts_file S c (sn_fs V) else (c, sn_fs V, Inr False)))
        (fst (snd (if arg_hosts_sync ?a then sync_hosts_file S c (sn_fs V) else (c, sn_fs V, Inr False))))"
    unfolding run_daemon_def Let_def case_prod_beta
    by (elim start_bindE) (auto elim!: start_bindE split: option.splits)
  have "\<exists>h. pr_ctx (sy_proc s) = c\<lparr>cx_hosts_sync := h\<rparr>"
  proof (cases "arg_hosts_sync ?a")
    case True
    then show ?thesis using hosts_tasks_state(1) [of S c "sn_fs V"] s by (intro exI) (simp add: launched_def)
  next
    case False
    then show ?thesis using s by (intro exI [of _ "cx_hosts_sync c"]) (simp add: launched_def)
  qed
  with that [OF init] s show thesis by (auto simp: launched_def)
qed

lemma daemon_started:
  assumes "run_daemon N L T V S a st = (st', Inr (s, mode))"
  obtains persisted where "proc_inv (sy_proc s)" and "arg_daemon (cx_args (pr_ctx (sy_proc s)))"
    and "load_nodes L (sn_db V LoadNodesCall) st' = Inr persisted"
    and "dom (cx_trusted (pr_ctx (sy_proc s))) = known_at_start persisted (invited_by T a) - {node_id (cx_me (pr_ctx (sy_proc s)))}"
proof (rule run_daemon_context [OF assms])
  let ?a = "a\<lparr>arg_daemon := True\<rparr>"
  fix c h assume init: "init_network N L T V ?a st = (st', Inr c)"
    and s: "pr_ctx (sy_proc s) = c\<lparr>cx_hosts_sync := h\<rparr>" "pr_clients (sy_proc s) = registry_new"
  obtain persisted given where c: "ctx_inv c" "cx_args c = ?a"
    "dom (cx_trusted c) = known_at_start persisted (map_option t_invitor given) - {node_id (cx_me c)}"
    and l: "load_nodes L (sn_db V LoadNodesCall) st' = Inr persisted"
    and g: "map_option (ticket_from_str T) (arg_ticket ?a) = map_option Inr given"
    by (rule started_context [OF init])
  have "map_option t_invitor given = invited_by T a"
    using invited_by_given [OF g] by (simp add: invited_by_def)
  then show thesis
    using that [OF _ _ l] c by (simp add: s proc_inv_def full_permissions_new)
qed

text \<open>C1. The circle of trust of a daemon, from its start on. Let \<open>C\<close> be any set of endpoints that contains
  the daemons found on disk and the invitor of the ticket given on the command line, and that no
  event leads out of: invitations with our ticket come only from members, members list only members,
  and admins add only tickets of members. Then in every run of the process, whatever the order of
  messages, ticks, connections and commands, only members of \<open>C\<close> are ever trusted, and the
  invariant of the process holds.\<close>

theorem daemon_circle_of_trust:
  assumes "run_daemon N L T V S a st = (st', Inr (s, mode))"
    and "load_nodes L (sn_db V LoadNodesCall) st' = Inr persisted" and "known_at_start persisted (invited_by T a) \<subseteq> C"
    and "sys_run G s es s'" and "\<forall>e \<in> set es. within G (cx_ticket (pr_ctx (sy_proc s))) C (snd e)"
  shows "dom (cx_trusted (pr_ctx (sy_proc s'))) \<subseteq> C \<and> proc_inv (sy_proc s')"
proof (rule daemon_started [OF assms(1)])
  fix found assume s: "proc_inv (sy_proc s)" "arg_daemon (cx_args (pr_ctx (sy_proc s)))"
    and "load_nodes L (sn_db V LoadNodesCall) st' = Inr found"
    and "dom (cx_trusted (pr_ctx (sy_proc s))) = known_at_start found (invited_by T a) - {node_id (cx_me (pr_ctx (sy_proc s)))}"
  then have "dom (cx_trusted (pr_ctx (sy_proc s))) \<subseteq> C" using assms(2,3) by auto
  with circle_of_trust [OF assms(4) s] sys_run_keeps [OF assms(4)] s(1) assms(5) show ?thesis by simp
qed

text \<open>What a successful start whose key could be saved leaves on disk.\<close>

lemma initial_context_who:
  "c = (let c = initial_context V a me t p i s in if b then announce_join E c else c) \<Longrightarrow> cx_me c = me \<and> cx_ticket c = t"
  by (simp add: initial_context_def announce_join_def Let_def)

lemma start_stored:
  assumes "store_lib_ok L" and "net_lib_ok N" and "storage_ok st" and "sn_db V SaveSecretCall = (\<lambda>c. False)"
    and "init_network N L T V a st = (st1, Inr c)"
  obtains sk where "load_secret L (\<lambda>c. False) st1 = Inr (Some (node_id (cx_me c), sk))"
    and "network_on_disk N st1 (t_topic (cx_ticket c)) (t_rnum (cx_ticket c))" and "storage_ok st1"
proof (rule started [OF assms(5)])
  fix s0 s1 s2 pk sk plan sockets me t persisted and given :: "ticket option"
  assume 0: "(if arg_reset_storage a then writing (clear_storage (sn_db V ClearCall)) else start_return ()) st = (s0, Inr ())"
    and 1: "load_identity L V s0 = (s1, Inr (pk, sk))" and 2: "bind_targets N V a s1 = (s2, Inr plan)"
    and 3: "network_ticket N V a given me s2 = (st1, Inr t)" and me: "node_id me = pk"
    and c: "c = (let c = initial_context V a me t persisted (map_option t_invitor given) st1
       in if arg_daemon a \<and> \<not> arg_primary a then announce_join (later (later (sn_env V))) c else c)"
  have "storage_ok s0" using 0 storage_ok_writers(8) [OF assms(3), of "sn_db V ClearCall"] assms(3)
    by (auto split: if_splits)
  note id = identity_stored [OF assms(1) this 1 assms(4)]
  note t2 = touchesD [OF touches_bind_targets 2 id(2)]
  note t3 = touchesD [OF touches_network_ticket 3 t2(1)]
  have "load_secret L (\<lambda>c. False) st1 = Inr (Some (pk, sk))"
    using id(1) t2(2) t3(2) load_secret_cong [of st1 s1] by (simp add: same_tables_def)
  moreover have "network_on_disk N st1 (t_topic t) (t_rnum t)" by (rule network_ticket_stored [OF assms(2) t2(1) 3])
  ultimately show thesis using that t3(1) initial_context_who [OF c] me by simp
qed

text \<open>A later start on a database in which at most the table of nodes has changed since.\<close>

lemma network_survives_restart:
  assumes "store_lib_ok L" and "net_lib_ok N" and "storage_ok st" and "sn_db V SaveSecretCall = (\<lambda>c. False)"
    and "init_network N L T V a st = (st1, Inr c)" and "only_nodes st1 st2"
    and "\<not> arg_reset_storage a'" and "arg_primary a' \<or> arg_ticket a' = None" and "sn_db V' = (\<lambda>k c. False)"
    and "init_network N L T V' a' st2 = (st3, Inr c')"
  shows "node_id (cx_me c') = node_id (cx_me c) \<and> t_topic (cx_ticket c') = t_topic (cx_ticket c)
    \<and> t_rnum (cx_ticket c') = t_rnum (cx_ticket c)"
proof -
  obtain sk where first: "load_secret L (\<lambda>c. False) st1 = Inr (Some (node_id (cx_me c), sk))"
    "network_on_disk N st1 (t_topic (cx_ticket c)) (t_rnum (cx_ticket c))" "storage_ok st1"
    by (rule start_stored [OF assms(1-5)])
  have same: "st_secret st2 = st_secret st1" "st_config st2 = st_config st1" "storage_ok st2"
    using assms(6) first(3) by (simp_all add: only_nodes_def)
  show ?thesis
  proof (rule started [OF assms(10)])
    fix s0 s1 s2 pk sk' plan sockets me t persisted and given :: "ticket option"
    assume 0: "(if arg_reset_storage a' then writing (clear_storage (sn_db V' ClearCall)) else start_return ()) st2 = (s0, Inr ())"
      and 1: "load_identity L V' s0 = (s1, Inr (pk, sk'))" and 2: "bind_targets N V' a' s1 = (s2, Inr plan)"
      and 3: "network_ticket N V' a' given me s2 = (st3, Inr t)" and me: "node_id me = pk"
      and g: "map_option (ticket_from_str T) (arg_ticket a') = map_option Inr given"
      and c': "c' = (let c = initial_context V' a' me t persisted (map_option t_invitor given) st3
         in if arg_daemon a' \<and> \<not> arg_primary a' then announce_join (later (later (sn_env V'))) c else c)"
    have s0: "s0 = st2" using 0 assms(7) by simp
    have "load_secret L (\<lambda>c. False) st2 = Inr (Some (node_id (cx_me c), sk))"
      using first(1) load_secret_cong [OF same(1)] by simp
    then have s1: "s1 = st2" "pk = node_id (cx_me c)" using 1 s0 assms(9) by (auto simp: load_identity_def start_bind_Inr)
    have "network_on_disk N st2 (t_topic (cx_ticket c)) (t_rnum (cx_ticket c))"
      using first(2) config_value_cong [OF same(2)] by (simp add: network_on_disk_def)
    then have "network_on_disk N s2 (t_topic (cx_ticket c)) (t_rnum (cx_ticket c))"
      using touchesD(3) [OF touches_bind_targets 2] same(3) s1 by (simp add: network_on_disk_def)
    moreover have "arg_primary a' \<or> given = None" using assms(8) g by auto
    ultimately have "network_ticket N V' a' given me s2
        = (s2, Inr (ticket_from_parts (t_topic (cx_ticket c)) (t_rnum (cx_ticket c)) me))"
      using assms(9) by (intro network_ticket_reloaded) simp_all
    with 3 show ?thesis using initial_context_who [OF c'] me s1 by (auto simp: ticket_from_parts_def)
  qed
qed

section \<open>What a start binds and how long it waits\<close>

fun sock_port :: "socket_addr \<Rightarrow> u16" where
  "sock_port (SockV4 a p) = p"
| "sock_port (SockV6 a p f s) = p"

fun target_ip :: "bind_target \<Rightarrow> ip_addr" where
  "target_ip (BindIp ip) = ip"
| "target_ip (BindSocket s) = sock_ip s"

text \<open>An address that stands in for \<open>ip\<close>: itself, or the loopback or unspecified address of either family.\<close>

definition stands_for :: "ip_addr \<Rightarrow> ip_addr \<Rightarrow> bool" where
  "stands_for ip x \<longleftrightarrow> x = ip \<or> (is_loopback ip \<and> is_loopback x) \<or> (is_unspecified ip \<and> is_unspecified x)"

definition asked_for :: "iface list \<Rightarrow> daemon_args \<Rightarrow> ip_addr \<Rightarrow> bool" where
  "asked_for ifaces a x =
     (case arg_bind a of
        Some b \<Rightarrow> (case parse_bind_target b of Inr t \<Rightarrow> stands_for (target_ip t) x | Inl e \<Rightarrow> False)
      | None \<Rightarrow>
          (case arg_bind_interface a of
             Some i \<Rightarrow> \<exists>f \<in> set ifaces. (if_name f = i \<or> if_friendly_name f = Some i) \<and> x \<in> set (iface_ips f)
           | None \<Rightarrow> is_unspecified x))"

definition plan_sockets :: "bind_plan \<Rightarrow> socket_addr set" where
  "plan_sockets plan = set_option (bp_v4 plan) \<union> set_option (bp_v6 plan)"

lemma loopback_v4: "is_loopback (IpV4 0x7F000001)"
  by (simp add: ipv4_octet_def)

lemma plan_ip_sockets:
  assumes "s \<in> plan_sockets (plan_ip ip port)"
  shows "sock_port s = port" and "stands_for ip (sock_ip s)"
  using assms loopback_v4
  by (cases ip; auto simp: plan_sockets_def twin_v6_def twin_v4_def stands_for_def split: if_splits)+

lemma plan_socket_sockets:
  assumes "s \<in> plan_sockets (plan_socket b)"
  shows "sock_port s = sock_port b" and "stands_for (sock_ip b) (sock_ip s)"
  using assms loopback_v4
  by (cases b; auto simp: plan_sockets_def twin_v6_def twin_v4_def stands_for_def split: if_splits)+

lemma set_sort_dedup: "set (sort_dedup xs) = set xs"
  by (simp add: sort_dedup_def)

lemma set_scoped_v6: "fst ` set (scoped_v6 f) = set (if_ipv6 f)"
proof -
  have "map fst (scoped_v6 f) = map snd (List.enumerate 0 (if_ipv6 f))"
    by (simp add: scoped_v6_def comp_def case_prod_beta del: map_snd_enumerate)
  then show ?thesis by (metis list.set_map map_snd_enumerate)
qed

lemma plan_interface_sockets:
  assumes "lookup_interface_addrs ifaces i = Inr addrs" and "s \<in> plan_sockets (plan_interface addrs port)"
  shows "sock_port s = port"
    and "\<exists>f \<in> set ifaces. (if_name f = i \<or> if_friendly_name f = Some i) \<and> sock_ip s \<in> set (iface_ips f)"
proof -
  from assms(1) obtain f where "find (\<lambda>f. if_name f = i \<or> if_friendly_name f = Some i) ifaces = Some f"
    and addrs: "ia_v4 addrs = sort_dedup (if_ipv4 f)" "ia_v6 addrs = sort_dedup (scoped_v6 f)"
    by (auto simp: lookup_interface_addrs_def Let_def split: option.splits if_splits)
  then have f: "f \<in> set ifaces" "if_name f = i \<or> if_friendly_name f = Some i"
    by (auto simp: find_Some_iff)
  have v4: "x \<in> set (if_ipv4 f)" if "ia_v4 addrs = x # xs" for x xs
    using set_sort_dedup [of "if_ipv4 f"] that addrs(1) by auto
  have v6: "x \<in> set (if_ipv6 f)" if "ia_v6 addrs = (x, k) # xs" for x k xs
  proof -
    have "(x, k) \<in> set (scoped_v6 f)" using set_sort_dedup [of "scoped_v6 f"] that addrs(2) by auto
    then show ?thesis unfolding set_scoped_v6 [symmetric] by force
  qed
  from assms(2) v4 v6 have "sock_port s = port \<and> sock_ip s \<in> set (iface_ips f)"
    by (auto simp: plan_sockets_def plan_interface_def Let_def iface_ips_def split: list.splits)
  with f show "sock_port s = port"
    and "\<exists>f \<in> set ifaces. (if_name f = i \<or> if_friendly_name f = Some i) \<and> sock_ip s \<in> set (iface_ips f)" by blast+
qed

lemma bind_targets_sockets:
  assumes "bind_targets N V a st = (st', Inr plan)"
  shows "\<exists>port. (\<forall>s \<in> plan_sockets plan. sock_port s = port \<and> asked_for (env_ifaces (sn_env V)) a (sock_ip s))
    \<and> (\<forall>b x. arg_bind a = Some b \<and> parse_bind_target b = Inr (BindSocket x) \<longrightarrow> port = sock_port x)"
proof (cases "arg_bind a")
  case (Some b)
  with assms obtain t where t: "parse_bind_target b = Inr t"
    and rest: "(case t of BindSocket s \<Rightarrow> start_return (plan_socket s)
       | BindIp ip \<Rightarrow> start_bind (load_or_assign_bind_port N V) (\<lambda>port. start_return (plan_ip ip port))) st = (st', Inr plan)"
    by (auto simp: bind_targets_def start_bind_Inr)
  then show ?thesis
  proof (cases t)
    case (BindSocket x)
    then have "plan = plan_socket x" using rest by simp
    with Some t BindSocket show ?thesis
      by (intro exI [of _ "sock_port x"]) (auto simp: asked_for_def dest: plan_socket_sockets)
  next
    case (BindIp ip)
    then obtain port where "plan = plan_ip ip port" using rest by (auto simp: start_bind_Inr)
    with Some t BindIp show ?thesis
      by (intro exI [of _ port]) (auto simp: asked_for_def dest: plan_ip_sockets)
  qed
next
  case None
  show ?thesis
  proof (cases "arg_bind_interface a")
    case (Some i)
    with None assms show ?thesis
      by (auto simp: bind_targets_def asked_for_def start_bind_Inr dest: plan_interface_sockets)
  next
    case None': None
    with None assms show ?thesis
      by (auto simp: bind_targets_def asked_for_def start_bind_Inr plan_any_def plan_sockets_def)
  qed
qed

lemma bind_targets_some:
  assumes "bind_targets N V a st = (st', Inr plan)"
  shows "plan_sockets plan \<noteq> {}"
proof -
  have ip: "plan_sockets (plan_ip ip port) \<noteq> {}" for ip port by (cases ip) (simp_all add: plan_sockets_def)
  have sock: "plan_sockets (plan_socket s) \<noteq> {}" for s by (cases s) (simp_all add: plan_sockets_def)
  have iface: "plan_sockets (plan_interface addrs port) \<noteq> {}" if "lookup_interface_addrs ifaces i = Inr addrs" for ifaces i addrs port
    using that
    by (auto simp: lookup_interface_addrs_def Let_def plan_interface_def plan_sockets_def split: option.splits if_splits list.splits)
  have any: "plan_sockets (plan_any port) \<noteq> {}" for port by (simp add: plan_sockets_def plan_any_def)
  show ?thesis
  proof (cases "arg_bind a")
    case (Some b)
    then obtain t where "(case t of BindSocket s \<Rightarrow> start_return (plan_socket s)
         | BindIp ip \<Rightarrow> start_bind (load_or_assign_bind_port N V) (\<lambda>port. start_return (plan_ip ip port))) st = (st', Inr plan)"
      using assms by (auto simp: bind_targets_def start_bind_Inr)
    then show ?thesis using ip sock by (cases t) (auto simp: start_bind_Inr)
  next
    case None
    then show ?thesis using assms iface any by (auto simp: bind_targets_def start_bind_Inr split: option.splits)
  qed
qed

lemma bind_with_fallback_Inr:
  assumes "bind_with_fallback N V a plan = Inr sockets"
  obtains v4 v6 where "sn_bind V v4 v6 = Some sockets" and "set_option v4 \<union> set_option v6 \<subseteq> plan_sockets plan"
    and "plan_sockets plan \<noteq> {} \<longrightarrow> v4 \<noteq> None \<or> v6 \<noteq> None"
    and "(v4, v6) = (bp_v4 plan, bp_v6 plan) \<or> sn_bind V (bp_v4 plan) (bp_v6 plan) = None"
proof -
  have e: "bind_endpoint N V a (x, y) = Inr sockets \<longleftrightarrow> \<not> (arg_dht a \<and> \<not> nl_dht_built N) \<and> sn_bind V x y = Some sockets" for x y
    by (auto simp: bind_endpoint_def split: option.splits)
  have f: "bind_endpoint N V a (x, y) = Inl e \<Longrightarrow> arg_dht a \<and> \<not> nl_dht_built N \<or> sn_bind V x y = None" for x y e
    by (auto simp: bind_endpoint_def split: option.splits if_splits)
  consider "bind_endpoint N V a (bp_v4 plan, bp_v6 plan) = Inr sockets"
    | err where "bind_endpoint N V a (bp_v4 plan, bp_v6 plan) = Inl err" "bp_v4 plan \<noteq> None" "bp_v6 plan \<noteq> None"
        "bind_endpoint N V a (None, bp_v6 plan) = Inr sockets \<or> bind_endpoint N V a (bp_v4 plan, None) = Inr sockets"
    using assms by (auto simp: bind_with_fallback_def Let_def split: sum.splits if_splits)
  then show thesis
  proof cases
    case 1
    then show thesis using e by (intro that) (auto simp: plan_sockets_def)
  next
    case 2
    then show thesis using e f [OF 2(1)] that [of None "bp_v6 plan"] that [of "bp_v4 plan" None] by (auto simp: plan_sockets_def)
  qed
qed

text \<open>What iroh documents of the sockets of an endpoint: for each family, they are on the address asked for
  (on another port when that one is taken), and when none was asked for, on the unspecified address.\<close>

definition builder_ok :: "start_env \<Rightarrow> bool" where
  "builder_ok V \<longleftrightarrow>
     (\<forall>v4 v6 sockets s. sn_bind V v4 v6 = Some sockets \<and> s \<in> set sockets \<longrightarrow>
        (case (if is_ipv4 (sock_ip s) then v4 else v6) of
           Some r \<Rightarrow> sock_ip s = sock_ip r | None \<Rightarrow> is_unspecified (sock_ip s)))"

text \<open>C22. The sockets of the daemon. The endpoint of a start that binds was asked for at least one socket,
  all of them on one port, and none on an address that the arguments do not ask for: the address of
  \<open>--bind\<close> (for the loopback or unspecified address, that of either family), an address of the interface
  of \<open>--bind-interface\<close>, or the unspecified addresses when neither is given. The port of
  \<open>--bind IP:PORT\<close> is the one asked for. It was asked for less than the plan only after the whole plan
  had failed. What it then listens on is, by iroh's documentation, on the addresses asked for, or on the
  unspecified address of a family that was left unset: so \<open>--bind\<close> with one address of one family
  need not keep the daemon off the other family.\<close>

theorem bound_sockets:
  assumes "bind_targets N V a st = (st', Inr plan)" and "bind_with_fallback N V a plan = Inr sockets" and "builder_ok V"
  shows "\<exists>v4 v6 port. sn_bind V v4 v6 = Some sockets \<and> (v4 \<noteq> None \<or> v6 \<noteq> None)
    \<and> ((v4, v6) = (bp_v4 plan, bp_v6 plan) \<or> sn_bind V (bp_v4 plan) (bp_v6 plan) = None)
    \<and> (\<forall>s \<in> set_option v4 \<union> set_option v6. sock_port s = port \<and> asked_for (env_ifaces (sn_env V)) a (sock_ip s))
    \<and> (\<forall>b x. arg_bind a = Some b \<and> parse_bind_target b = Inr (BindSocket x) \<longrightarrow> port = sock_port x)
    \<and> (\<forall>s \<in> set sockets. asked_for (env_ifaces (sn_env V)) a (sock_ip s)
         \<or> is_unspecified (sock_ip s) \<and> (if is_ipv4 (sock_ip s) then v4 else v6) = None)"
proof -
  obtain v4 v6 where b: "sn_bind V v4 v6 = Some sockets" "set_option v4 \<union> set_option v6 \<subseteq> plan_sockets plan"
    "v4 \<noteq> None \<or> v6 \<noteq> None" "(v4, v6) = (bp_v4 plan, bp_v6 plan) \<or> sn_bind V (bp_v4 plan) (bp_v6 plan) = None"
    using bind_with_fallback_Inr [OF assms(2)] bind_targets_some [OF assms(1)] by metis
  obtain port where port: "\<forall>s \<in> plan_sockets plan. sock_port s = port \<and> asked_for (env_ifaces (sn_env V)) a (sock_ip s)"
    "\<forall>b x. arg_bind a = Some b \<and> parse_bind_target b = Inr (BindSocket x) \<longrightarrow> port = sock_port x"
    using bind_targets_sockets [OF assms(1)] by blast
  have "asked_for (env_ifaces (sn_env V)) a (sock_ip s)
      \<or> is_unspecified (sock_ip s) \<and> (if is_ipv4 (sock_ip s) then v4 else v6) = None" if s: "s \<in> set sockets" for s
  proof (cases "if is_ipv4 (sock_ip s) then v4 else v6")
    case None
    then show ?thesis using assms(3) b(1) s by (fastforce simp: builder_ok_def)
  next
    case (Some r)
    then have "r \<in> plan_sockets plan" using b(2) by (auto split: if_splits)
    moreover have "sock_ip s = sock_ip r" using assms(3) b(1) s Some by (fastforce simp: builder_ok_def)
    ultimately show ?thesis using port(1) by simp
  qed
  then have listens: "\<forall>s \<in> set sockets. asked_for (env_ifaces (sn_env V)) a (sock_ip s)
      \<or> is_unspecified (sock_ip s) \<and> (if is_ipv4 (sock_ip s) then v4 else v6) = None" by (rule ballI)
  show ?thesis
    by (rule exI [of _ v4], rule exI [of _ v6], rule exI [of _ port], intro conjI)
      (rule listens | use b port in blast)+
qed

lemma wait_polls:
  "\<exists>j. i \<le> j \<and> 20 * (j - i) < max 1 (1020 - e) \<and> wait_for_non_empty_addr polls naps i e = polls j
     \<and> (\<forall>k. i \<le> k \<and> k < j \<longrightarrow> ip_addrs (polls k) = [])"
proof (induction polls naps i e rule: wait_for_non_empty_addr.induct)
  case (1 polls naps i e)
  show ?case
  proof (cases "ip_addrs (polls i) \<noteq> [] \<or> 1000 \<le> e")
    case True
    then have "wait_for_non_empty_addr polls naps i e = polls i"
      by (subst wait_for_non_empty_addr.simps) simp
    then show ?thesis by (intro exI [of _ i]) auto
  next
    case False
    let ?e = "e + max 20 (naps (Suc i))"
    from False have "wait_for_non_empty_addr polls naps i e = wait_for_non_empty_addr polls naps (Suc i) ?e"
      by (subst wait_for_non_empty_addr.simps) simp
    moreover from False 1 obtain j where j: "Suc i \<le> j" "20 * (j - Suc i) < max 1 (1020 - ?e)"
      "wait_for_non_empty_addr polls naps (Suc i) ?e = polls j" "\<forall>k. Suc i \<le> k \<and> k < j \<longrightarrow> ip_addrs (polls k) = []"
      by auto
    moreover have "20 * (j - i) < max 1 (1020 - e)"
    proof -
      have "j - i = Suc (j - Suc i)" using j(1) by simp
      moreover have "20 * (j - Suc i) < 1000 - e" if "j \<noteq> Suc i"
        using j(1,2) that by (auto simp: max_def split: if_splits)
      ultimately show ?thesis using False by (cases "j = Suc i") auto
    qed
    moreover have "ip_addrs (polls k) = []" if "i \<le> k" "k < j" for k
      using that j(4) False by (cases "k = i") auto
    ultimately show ?thesis by (intro exI [of _ j]) auto
  qed
qed

lemma join_loop_find:
  "join_loop joins 1 = (case find joins [1, 2, 3, 4, 5] of Some r \<Rightarrow> Inr r | None \<Rightarrow> Inl JoinFailed)"
  by (simp add: join_loop.simps [of joins 1] join_loop.simps [of joins 2] join_loop.simps [of joins 3]
      join_loop.simps [of joins 4] join_loop.simps [of joins 5] join_loop.simps [of joins 6])

text \<open>C21. A start does not wait for ever. Waiting for an address makes at most 51 polls, sleeps of 20 ms or
  more apart, and returns the first poll that shows an IP address, or the last poll; joining is
  attempted at most five times and succeeds with the first attempt that does.\<close>

theorem startup_waits_bounded:
  "(\<exists>j \<le> 50. wait_for_non_empty_addr polls naps 0 e = polls j \<and> (\<forall>k < j. ip_addrs (polls k) = []))
   \<and> join_loop joins 1 = (case find joins [1, 2, 3, 4, 5] of Some r \<Rightarrow> Inr r | None \<Rightarrow> Inl JoinFailed)"
proof -
  obtain j where j: "20 * (j - 0) < max 1 (1020 - e)" "wait_for_non_empty_addr polls naps 0 e = polls j"
    "\<forall>k. 0 \<le> k \<and> k < j \<longrightarrow> ip_addrs (polls k) = []"
    using wait_polls [of 0 e polls naps] by blast
  then have "j \<le> 50" by (simp add: max_def split: if_splits)
  with j show ?thesis by (auto simp: join_loop_find)
qed

theorem startup_waits_bounded_witness:
  "join_loop (\<lambda>r. r = 3) 1 = Inr 3 \<and> join_loop (\<lambda>r. r = 6) 1 = Inl JoinFailed
   \<and> (\<exists>j \<le> 50. wait_for_non_empty_addr (\<lambda>i. ea_new (EndpointId (of_nat i))) (\<lambda>i. 0) 0 0 = ea_new (EndpointId (of_nat j)))"
  using startup_waits_bounded [of "\<lambda>i. ea_new (EndpointId (of_nat i))" "\<lambda>i. 0" 0 "\<lambda>r. r = 3"]
    startup_waits_bounded [of "\<lambda>i. ea_new (EndpointId (of_nat i))" "\<lambda>i. 0" 0 "\<lambda>r. r = 6"] by auto

section \<open>Arguments that were checked\<close>

definition fails_within :: "start_error set \<Rightarrow> 'a start \<Rightarrow> bool" where
  "fails_within E p \<longleftrightarrow> (\<forall>st st' e. p st = (st', Inl e) \<longrightarrow> e \<in> E)"

lemma fails_within_bind: "fails_within E p \<Longrightarrow> (\<And>x. fails_within E (f x)) \<Longrightarrow> fails_within E (start_bind p f)"
  by (auto simp: fails_within_def start_bind_def split: prod.splits sum.splits)

lemma fails_within_check: "(\<And>e. r = Inl e \<Longrightarrow> g e \<in> E) \<Longrightarrow> fails_within E (start_check g r)"
  by (auto simp: fails_within_def start_check_def start_return_def start_fail_def split: sum.splits)

lemma fails_within_simps [simp]:
  "fails_within E (start_return x)" "fails_within E (start_fail e) \<longleftrightarrow> e \<in> E"
  by (auto simp: fails_within_def start_return_def start_fail_def)

lemma fails_within_disk:
  assumes "range StartStorage \<subseteq> E"
  shows "fails_within E (reading f)" "fails_within E (writing g)"
  using assms
  by (auto simp: fails_within_def reading_def writing_def start_check_def start_return_def start_fail_def Let_def
      split: sum.splits prod.splits)

lemma fails_within_option:
  "(v = None \<Longrightarrow> fails_within E p) \<Longrightarrow> (\<And>x. v = Some x \<Longrightarrow> fails_within E (f x)) \<Longrightarrow>
     fails_within E (case v of None \<Rightarrow> p | Some x \<Rightarrow> f x)"
  by (cases v) simp_all

text \<open>What the world, the disk and the ticket can still refuse.\<close>

definition world_errors :: "start_error set" where
  "world_errors = range StartStorage \<union> range StartTicket
     \<union> {DhtNotBuilt, BindFailed, NoNetworkConfig, SubscribeFailed, JoinFailed}"

lemma disk_errors [simp]: "range StartStorage \<subseteq> world_errors" "StartStorage e \<in> world_errors"
  by (auto simp: world_errors_def)

lemma validate_accepts:
  assumes "validate N ifaces d a = Inr ()"
  shows "\<And>s. arg_domain a = Some s \<Longrightarrow> length s < nl_user_data_max N"
    and "\<And>b. arg_bind a = Some b \<Longrightarrow> \<exists>t. parse_bind_target b = Inr t"
    and "\<And>i. arg_bind_interface a = Some i \<Longrightarrow> \<exists>addrs. lookup_interface_addrs ifaces i = Inr addrs"
    and "\<And>h. arg_admin_http a = Some h \<Longrightarrow> \<exists>b. parse_bind_addr h = Inr b"
    and "first_bad_url N (arg_relay_url a) = Inr ()"
proof -
  have ok: "check_some v parse g = Inr () \<longleftrightarrow> (\<forall>x. v = Some x \<longrightarrow> (\<exists>y. parse x = Inr y))"
    for v :: "'x option" and parse :: "'x \<Rightarrow> ('e, 'y) result" and g
    by (cases v) (auto simp: check_some_def map_err_def split: sum.splits)
  have bind: "res_bind r f = Inr () \<Longrightarrow> r = Inr () \<and> f () = Inr ()" for r :: "('e, unit) result" and f
    by (cases r) simp_all
  from assms have v: "\<not> (case arg_domain a of Some s \<Rightarrow> nl_user_data_max N \<le> length s | None \<Rightarrow> False)"
    "check_some (arg_bind a) parse_bind_target StartBind = Inr ()"
    "check_some (arg_bind_interface a) (lookup_interface_addrs ifaces) StartIface = Inr ()"
    "check_some (arg_admin_http a) parse_bind_addr StartBind = Inr ()"
    "first_bad_url N (arg_relay_url a) = Inr ()"
    unfolding validate_def by (auto split: if_splits dest!: bind)
  then show "\<And>s. arg_domain a = Some s \<Longrightarrow> length s < nl_user_data_max N"
    and "\<And>b. arg_bind a = Some b \<Longrightarrow> \<exists>t. parse_bind_target b = Inr t"
    and "\<And>i. arg_bind_interface a = Some i \<Longrightarrow> \<exists>addrs. lookup_interface_addrs ifaces i = Inr addrs"
    and "\<And>h. arg_admin_http a = Some h \<Longrightarrow> \<exists>b. parse_bind_addr h = Inr b"
    and "first_bad_url N (arg_relay_url a) = Inr ()"
    by (auto simp: ok)
qed

lemma good_urls_parse: "first_bad_url N us = Inr () \<Longrightarrow> \<exists>rs. parse_urls N us = Inr rs"
  by (induction us) (auto split: option.splits)

lemma fails_within_identity: "fails_within world_errors (load_identity L V)"
  unfolding load_identity_def
  by (intro fails_within_bind fails_within_disk disk_errors(1) fails_within_option)
    (auto simp: fails_within_def start_return_def Let_def case_prod_beta)

lemma fails_within_port: "fails_within world_errors (load_or_assign_bind_port N V)"
  unfolding load_or_assign_bind_port_def
  by (intro fails_within_bind fails_within_disk disk_errors(1) fails_within_option fails_within_simps)

lemma fails_within_targets:
  assumes "\<And>b. arg_bind a = Some b \<Longrightarrow> \<exists>t. parse_bind_target b = Inr t"
    and "\<And>i. arg_bind_interface a = Some i \<Longrightarrow> \<exists>addrs. lookup_interface_addrs (env_ifaces (sn_env V)) i = Inr addrs"
  shows "fails_within world_errors (bind_targets N V a)"
proof (cases "arg_bind a")
  case (Some b)
  with assms(1) obtain t where "parse_bind_target b = Inr t" by blast
  with Some show ?thesis
    by (cases t) (auto simp: bind_targets_def start_simps intro!: fails_within_bind fails_within_port)
next
  case None
  then show ?thesis
    using assms(2)
    by (cases "arg_bind_interface a")
      (auto simp: bind_targets_def start_simps intro!: fails_within_bind fails_within_port fails_within_check)
qed

lemma fails_within_ticket: "fails_within world_errors (network_ticket N V a given me)"
  unfolding network_ticket_def load_network_def save_network_def
  by (auto simp: world_errors_def intro!: fails_within_bind fails_within_disk split: option.split prod.split)

lemma fails_within_init:
  assumes "validate N (env_ifaces (sn_env V)) d a = Inr ()"
  shows "fails_within world_errors (init_network N L T V a)"
proof -
  note ok = validate_accepts [OF assms]
  have "\<exists>m. relay_mode_of N a = Inr m"
    using good_urls_parse [OF ok(5)] by (cases "arg_relay_mode a") (auto simp: relay_mode_of_def)
  moreover have "\<not> (case arg_domain a of Some d \<Rightarrow> nl_user_data_max N < length d | None \<Rightarrow> False)"
    using ok(1) by (cases "arg_domain a") force+
  moreover have "fails_within world_errors (start_check id (bind_with_fallback N V a plan))" for plan
    by (rule fails_within_check)
      (auto simp: bind_with_fallback_def bind_endpoint_def world_errors_def Let_def split: sum.splits if_splits option.splits)
  moreover have "fails_within world_errors (start_check id (join_network V a))"
    by (rule fails_within_check)
      (auto simp: join_network_def join_loop_find world_errors_def split: if_splits option.splits)
  moreover have "fails_within world_errors (start_check StartTicket (ticket_from_str T w))" for w
    by (rule fails_within_check) (simp add: world_errors_def)
  ultimately show ?thesis
    unfolding init_network_def Let_def
    by (intro fails_within_bind fails_within_identity fails_within_targets fails_within_ticket fails_within_disk ok
        disk_errors(1) fails_within_option)
      (auto simp: start_simps fails_within_def [where p = "\<lambda>st. (st, f st)" for f] split: prod.split
        intro!: fails_within_bind fails_within_identity fails_within_targets fails_within_ticket fails_within_disk ok fails_within_option)
qed

text \<open>C20. Arguments that pass the checks do not fail the start: if \<open>validate\<close> accepts them, the only
  errors left for \<open>run_daemon\<close> are those of the database, of the ticket (which is not checked), of the
  first write of the hosts file, and of the network: a build without DHT, no socket to bind, no known
  network, no peer to join. In particular the \<open>unwrap\<close> of the alias does not panic.\<close>

theorem checked_arguments_suffice:
  assumes "validate N (env_ifaces (sn_env V)) (sn_fs V) (a\<lparr>arg_daemon := True\<rparr>) = Inr ()"
    and "run_daemon N L T V S a st = (st', Inl e)"
  shows "e \<in> range StartStorage \<union> range StartTicket \<union> range StartHosts
    \<union> {DhtNotBuilt, BindFailed, NoNetworkConfig, SubscribeFailed, JoinFailed}"
proof -
  let ?a = "a\<lparr>arg_daemon := True\<rparr>"
  let ?E = "world_errors \<union> range StartHosts"
  note ok = validate_accepts [OF assms(1)]
  have "fails_within ?E (init_network N L T V ?a)"
    using fails_within_init [OF assms(1), of L T] unfolding fails_within_def by blast
  moreover have "fails_within ?E (start_check id (validate N (env_ifaces (sn_env V)) (sn_fs V) ?a))"
    by (rule fails_within_check) (simp add: assms(1))
  ultimately have "fails_within ?E (run_daemon N L T V S a)"
    unfolding run_daemon_def Let_def case_prod_beta
    by (intro fails_within_bind fails_within_check fails_within_option fails_within_simps)
      (use ok(4) assms(1) in auto)
  with assms(2) show ?thesis by (auto simp: fails_within_def world_errors_def)
qed

section \<open>The port on disk\<close>

lemma load_identity_config: "load_identity L V st = (st', r) \<Longrightarrow> config_value st' k = config_value st k"
proof -
  have "config_value (fst (save_secret L f st sk)) k = config_value st k" for f sk
    using write_txn_cases [of f st]
    by (auto simp: save_secret_def write_txn_def try_call_def config_value_def split: if_splits)
  then show "load_identity L V st = (st', r) \<Longrightarrow> config_value st' k = config_value st k"
    by (auto simp: load_identity_def start_bind_def reading_def start_check_def start_fail_def start_return_def Let_def
        case_prod_beta split: sum.splits option.splits)
qed

definition port_on_disk :: "net_lib \<Rightarrow> storage \<Rightarrow> u16 \<Rightarrow> bool" where
  "port_on_disk N st port \<longleftrightarrow> Option.bind (config_value st ''bind_port'') (nl_dec_port N) = Some port"

lemma port_stored:
  assumes "net_lib_ok N" and "storage_ok st" and "load_or_assign_bind_port N V st = (st', Inr port)"
  shows "port_on_disk N st' port"
proof -
  from assms(3) have "(st' = st \<and> (\<exists>f. load_config (nl_dec_port N) f st ''bind_port'' = Inr (Some port)))
    \<or> (\<exists>f. save_config_trival (nl_enc_port N) f st ''bind_port'' port = (st', Inr ()))"
    by (auto simp: load_or_assign_bind_port_def start_bind_Inr split: option.splits)
  then show ?thesis
  proof (elim disjE conjE exE)
    fix f assume "save_config_trival (nl_enc_port N) f st ''bind_port'' port = (st', Inr ())"
    from save_config_value(1) [OF assms(2) disjI2 [OF this]] assms(1) show ?thesis
      by (auto simp: port_on_disk_def net_lib_ok_def)
  qed (auto simp: port_on_disk_def dest!: load_config_value)
qed

lemma port_reloaded:
  "port_on_disk N st port \<Longrightarrow> sn_db V LoadPortCall = (\<lambda>c. False) \<Longrightarrow> load_or_assign_bind_port N V st = (st, Inr port)"
  by (auto simp: load_or_assign_bind_port_def start_bind_def reading_def start_check_def start_return_def
      load_config_no_faults port_on_disk_def bind_eq_Some_conv)


section \<open>A concrete start\<close>

definition demo_net_lib :: net_lib where
  "demo_net_lib =
     \<lparr>nl_relay_url = Some, nl_user_data_max = 245, nl_dht_built = False,
      nl_enc_port = (\<lambda>p. Some (le_bytes 2 (unat p))), nl_dec_port = (\<lambda>b. Some (of_nat (le_value b))),
      nl_enc_topic = (\<lambda>t. case t of TopicId w \<Rightarrow> Some (le_bytes 32 (unat w))),
      nl_dec_topic = (\<lambda>b. Some (TopicId (of_nat (le_value b)))),
      nl_enc_rnum = Some, nl_dec_rnum = Some\<rparr>"

lemma demo_net_lib_ok: "net_lib_ok demo_net_lib"
proof -
  have "of_nat (le_value (le_bytes 2 (unat p))) = p" for p :: u16
    using unsigned_less [of p, where 'a = nat] by simp
  moreover have "of_nat (le_value (le_bytes 32 (unat w))) = w" for w :: "256 word"
    using unsigned_less [of w, where 'a = nat] by simp
  ultimately show ?thesis by (auto simp: net_lib_ok_def demo_net_lib_def split: topic_id.splits)
qed

definition the_list :: "'a option \<Rightarrow> 'a list" where
  "the_list v = (case v of Some x \<Rightarrow> [x] | None \<Rightarrow> [])"

definition demo_start :: "secret_key \<Rightarrow> u16 \<Rightarrow> topic_id \<Rightarrow> bytes \<Rightarrow> start_env" where
  "demo_start sk port topic rnum =
     \<lparr>sn_db = (\<lambda>k c. False), sn_env = se_env (quiet_step 100), sn_fs = demo_fs, sn_random_domain = ''abcdef'',
      sn_random_secret = sk, sn_random_port = port, sn_random_topic = topic, sn_random_rnum = rnum,
      sn_bind = (\<lambda>v4 v6. Some (the_list v4 @ the_list v6)), sn_polls = (\<lambda>i. ea_new (EndpointId 1)), sn_naps = (\<lambda>i. 1000),
      sn_subscribes = True, sn_joins = (\<lambda>r. r = 3)\<rparr>"

definition primary_args :: daemon_args where
  "primary_args = default_args\<lparr>arg_daemon := True, arg_primary := True\<rparr>"

definition demo_disk :: "secret_key \<Rightarrow> u16 \<Rightarrow> topic_id \<Rightarrow> bytes \<Rightarrow> storage" where
  "demo_disk sk port topic rnum =
     \<lparr>st_nodes = None,
      st_secret = Some (bt_insert ''sk'' (b64_enc_key demo_store_lib (sk_to_bytes demo_store_lib sk)) []),
      st_config = Some (bt_insert ''ticket_rnum'' rnum
        (bt_insert ''topic'' (the (nl_enc_topic demo_net_lib topic))
          (bt_insert ''bind_port'' (le_bytes 2 (unat port)) [])))\<rparr>"

lemmas start_defs = start_bind_def start_check_def start_return_def start_fail_def reading_def writing_def

definition demo_me :: "secret_key \<Rightarrow> u16 \<Rightarrow> topic_id \<Rightarrow> bytes \<Rightarrow> node" where
  "demo_me sk port topic rnum =
     own_node (demo_start sk port topic rnum) primary_args (sk_public demo_store_lib sk) None ''abcdef''"

lemmas start_steps = init_network_def load_identity_def bind_targets_def load_or_assign_bind_port_def bind_with_fallback_def
  bind_endpoint_def network_ticket_def load_network_def save_network_def join_network_def relay_mode_of_def
  start_bind_def start_check_def start_return_def start_fail_def reading_def writing_def Let_def

lemmas disk_steps = load_secret_def load_config_no_faults save_secret_def save_config_def save_config_trival_def write_txn_def
  try_call_def load_nodes_def config_value_def bt_get_def ticket_flatten_def or_err_def

lemma demo_start_fields [simp]:
  "sn_db (demo_start sk port topic rnum) = (\<lambda>k c. False)" "sn_random_secret (demo_start sk port topic rnum) = sk"
  "sn_random_port (demo_start sk port topic rnum) = port" "sn_random_topic (demo_start sk port topic rnum) = topic"
  "sn_random_rnum (demo_start sk port topic rnum) = rnum" "sn_bind (demo_start sk port topic rnum) v4 v6 = Some (the_list v4 @ the_list v6)"
  "sn_subscribes (demo_start sk port topic rnum)" "sn_random_domain (demo_start sk port topic rnum) = ''abcdef''"
  by (simp_all add: demo_start_def)

lemma primary_args_fields [simp]:
  "arg_primary primary_args" "arg_bind primary_args = None" "arg_bind_interface primary_args = None"
  "arg_ticket primary_args = None" "\<not> arg_reset_storage primary_args" "arg_relay_url primary_args = []"
  "arg_relay_mode primary_args = RelayDisabled" "\<not> arg_dht primary_args" "arg_domain primary_args = None"
  "arg_daemon primary_args" "\<not> arg_hosts_sync primary_args" "arg_admin_http primary_args = None"
  "arg_hosts_path primary_args = None" "primary_args\<lparr>arg_daemon := True\<rparr> = primary_args"
  by (simp_all add: primary_args_def default_args_def)

lemma demo_first_start:
  "init_network demo_net_lib demo_store_lib demo_ticket_lib (demo_start sk port topic rnum) primary_args empty_storage
     = (demo_disk sk port topic rnum,
        Inr (initial_context (demo_start sk port topic rnum) primary_args (demo_me sk port topic rnum)
          (ticket_new rnum topic None (demo_me sk port topic rnum)) [] None (demo_disk sk port topic rnum)))"
  by (cases topic)
    (simp add: start_steps disk_steps empty_storage_def demo_disk_def plan_any_def demo_net_lib_def demo_me_def ticket_new_def)

lemma demo_disk_loads:
  "load_secret demo_store_lib (\<lambda>c. False) (demo_disk sk port topic rnum) = Inr (Some (sk_public demo_store_lib sk, sk))"
  "port_on_disk demo_net_lib (demo_disk sk port topic rnum) port"
  "network_on_disk demo_net_lib (demo_disk sk port topic rnum) topic rnum"
  "storage_ok (demo_disk sk port topic rnum)"
proof -
  have "sk_from_bytes demo_store_lib (sk_to_bytes demo_store_lib sk) = sk" "length (sk_to_bytes demo_store_lib sk) = 32"
    "b64_dec_key demo_store_lib (b64_enc_key demo_store_lib b) = Some b" for b
    using demo_store_lib_ok by (simp_all add: store_lib_ok_def)
  then show "load_secret demo_store_lib (\<lambda>c. False) (demo_disk sk port topic rnum) = Inr (Some (sk_public demo_store_lib sk, sk))"
    by (simp add: load_secret_def try_call_def demo_disk_def bt_get_def or_err_def)
  have "of_nat (le_value (le_bytes 2 (unat port))) = port"
    using unsigned_less [of port, where 'a = nat] by simp
  then show "port_on_disk demo_net_lib (demo_disk sk port topic rnum) port"
    by (simp add: port_on_disk_def config_value_def demo_disk_def demo_net_lib_def bt_get_def)
  have "of_nat (le_value (le_bytes 32 (unat w))) = w" for w :: "256 word"
    using unsigned_less [of w, where 'a = nat] by simp
  then show "network_on_disk demo_net_lib (demo_disk sk port topic rnum) topic rnum"
    by (cases topic) (simp add: network_on_disk_def config_value_def demo_disk_def demo_net_lib_def bt_get_def)
  show "storage_ok (demo_disk sk port topic rnum)" by (simp add: storage_ok_def demo_disk_def bt_ok_Cons)
qed

lemma demo_second_start:
  "init_network demo_net_lib demo_store_lib demo_ticket_lib (demo_start sk' port' topic' rnum') primary_args (demo_disk sk port topic rnum)
     = (demo_disk sk port topic rnum,
        Inr (let me = own_node (demo_start sk' port' topic' rnum') primary_args (sk_public demo_store_lib sk) None ''abcdef''
          in initial_context (demo_start sk' port' topic' rnum') primary_args me
            (ticket_from_parts topic rnum me) [] None (demo_disk sk port topic rnum)))"
proof -
  let ?V = "demo_start sk' port' topic' rnum'" and ?d = "demo_disk sk port topic rnum"
  have 1: "load_identity demo_store_lib ?V ?d = (?d, Inr (sk_public demo_store_lib sk, sk))"
    by (simp add: load_identity_def start_defs demo_disk_loads)
  have 2: "bind_targets demo_net_lib ?V primary_args ?d = (?d, Inr (plan_any port))"
    using port_reloaded [OF demo_disk_loads(2), of ?V] by (simp add: bind_targets_def start_bind_def start_return_def)
  have 3: "network_ticket demo_net_lib ?V primary_args None me ?d = (?d, Inr (ticket_from_parts topic rnum me))" for me
    by (rule network_ticket_reloaded [OF demo_disk_loads(3)]) simp_all
  have 4: "load_nodes demo_store_lib (\<lambda>c. False) ?d = Inr []" by (simp add: load_nodes_def try_call_def demo_disk_def)
  have 5: "bind_with_fallback demo_net_lib ?V primary_args plan = Inr (the_list (bp_v4 plan) @ the_list (bp_v6 plan))" for plan
    by (simp add: bind_with_fallback_def bind_endpoint_def)
  show ?thesis
    by (simp add: init_network_def start_defs Let_def 1 2 3 4 5 relay_mode_of_def join_network_def)
qed

text \<open>The first start of a primary on an empty database, brought up as a daemon.\<close>

lemma demo_run_daemon:
  "run_daemon demo_net_lib demo_store_lib demo_ticket_lib (demo_start sk port topic rnum) (quiet_step 100) primary_args empty_storage
     = (demo_disk sk port topic rnum,
        Inr (launched (initial_context (demo_start sk port topic rnum) primary_args (demo_me sk port topic rnum)
          (ticket_new rnum topic None (demo_me sk port topic rnum)) [] None (demo_disk sk port topic rnum)) demo_fs, None))"
  by (simp add: run_daemon_def start_bind_def start_check_def start_return_def demo_first_start validate_def check_some_def
      Let_def) (simp add: demo_start_def)

theorem daemon_circle_of_trust_witness:
  "\<exists>s s'. run_daemon demo_net_lib demo_store_lib demo_ticket_lib (demo_start (SecretKey 1) 4242 (TopicId 9) [1, 2, 3])
       (quiet_step 100) primary_args empty_storage = (demo_disk (SecretKey 1) 4242 (TopicId 9) [1, 2, 3], Inr (s, None))
     \<and> sys_run demo_world s [(demo_step, LoopInput (DirectMsg (Some [1])))] s'
     \<and> dom (cx_trusted (pr_ctx (sy_proc s'))) = {}"
proof -
  let ?s = "launched (initial_context (demo_start (SecretKey 1) 4242 (TopicId 9) [1, 2, 3]) primary_args
      (demo_me (SecretKey 1) 4242 (TopicId 9) [1, 2, 3])
      (ticket_new [1, 2, 3] (TopicId 9) None (demo_me (SecretKey 1) 4242 (TopicId 9) [1, 2, 3])) []
      None (demo_disk (SecretKey 1) 4242 (TopicId 9) [1, 2, 3])) demo_fs"
  note run = demo_run_daemon [of "SecretKey 1" 4242 "TopicId 9" "[1, 2, 3]"]
  have "sys_step demo_world ?s (demo_step, LoopInput (DirectMsg (Some [1])))
      (loop_event demo_world demo_step (DirectMsg (Some [1])) ?s)"
    by (rule sys_step.loop) (simp_all add: launched_def)
  then have r: "sys_run demo_world ?s [(demo_step, LoopInput (DirectMsg (Some [1])))]
      (loop_event demo_world demo_step (DirectMsg (Some [1])) ?s)"
    by (rule sys_run.step [OF _ sys_run.refl])
  have l: "load_nodes demo_store_lib (sn_db (demo_start (SecretKey 1) 4242 (TopicId 9) [1, 2, 3]) LoadNodesCall)
      (demo_disk (SecretKey 1) 4242 (TopicId 9) [1, 2, 3]) = Inr []"
    by (simp add: load_nodes_def try_call_def demo_disk_def)
  have "verified demo_lib [1] = Some (EndpointId 7, Heartbeat)"
    by (simp add: verified_def sm_decode_def verify_and_decode_message_def signing_bytes_def demo_lib_def or_err_def
        demo_envelope_def)
  then have "within demo_world t {} (LoopInput (DirectMsg (Some [1])))" for t
    by (simp add: within_def vouched_def demo_world_def)
  moreover have "known_at_start [] (invited_by demo_ticket_lib primary_args) \<subseteq> {}"
    by (simp add: known_at_start_def invited_by_def)
  ultimately have "dom (cx_trusted (pr_ctx (sy_proc (loop_event demo_world demo_step (DirectMsg (Some [1])) ?s)))) \<subseteq> {}"
    using daemon_circle_of_trust [OF run l _ r, of "{}"] by simp
  with run r show ?thesis by blast
qed

text \<open>A host without IPv6 where the port is taken: the endpoint listens on another one.\<close>

theorem bound_sockets_witness:
  "\<exists>V v4 v6 port. bind_with_fallback demo_net_lib V primary_args (plan_any 4242) = Inr [SockV4 0 5000]
     \<and> sn_bind V v4 v6 = Some [SockV4 0 5000]
     \<and> (\<forall>s \<in> set_option v4 \<union> set_option v6. sock_port s = port \<and> is_unspecified (sock_ip s))"
proof -
  let ?V = "(demo_start (SecretKey 1) 4242 (TopicId 9) [1, 2, 3])
      \<lparr>sn_bind := \<lambda>v4 v6. case v4 of
           Some r \<Rightarrow> (case r of SockV4 a p \<Rightarrow> Some [SockV4 a 5000] | SockV6 a p f s \<Rightarrow> None)
         | None \<Rightarrow> Some [SockV4 0 5000]\<rparr>"
  have "builder_ok ?V"
    by (auto simp: builder_ok_def split: option.splits socket_addr.splits)
  moreover have "bind_targets demo_net_lib ?V primary_args (demo_disk (SecretKey 1) 4242 (TopicId 9) [1, 2, 3])
      = (demo_disk (SecretKey 1) 4242 (TopicId 9) [1, 2, 3], Inr (plan_any 4242))"
    using port_reloaded [OF demo_disk_loads(2), of ?V "SecretKey 1" 4242 "TopicId 9" "[1, 2, 3]"]
    by (simp add: bind_targets_def start_bind_def start_return_def)
  moreover have b: "bind_with_fallback demo_net_lib ?V primary_args (plan_any 4242) = Inr [SockV4 0 5000]"
    by (simp add: bind_with_fallback_def bind_endpoint_def plan_any_def)
  ultimately obtain v4 v6 port where "sn_bind ?V v4 v6 = Some [SockV4 0 5000]"
    "\<forall>s \<in> set_option v4 \<union> set_option v6. sock_port s = port \<and> asked_for (env_ifaces (sn_env ?V)) primary_args (sock_ip s)"
    using bound_sockets [of demo_net_lib ?V primary_args] by metis
  with b show ?thesis by (intro exI [of _ ?V] exI [of _ v4] exI [of _ v6] exI [of _ port]) (simp add: asked_for_def)
qed

theorem checked_arguments_suffice_witness:
  "\<exists>st'. run_daemon demo_net_lib demo_store_lib demo_ticket_lib (demo_start (SecretKey 1) 4242 (TopicId 9) [1, 2, 3])
      (quiet_step 100) (primary_args\<lparr>arg_primary := False\<rparr>) empty_storage = (st', Inl NoNetworkConfig)
    \<and> NoNetworkConfig \<noteq> StartPanic"
proof -
  let ?V = "demo_start (SecretKey 1) 4242 (TopicId 9) [1, 2, 3]" and ?a = "primary_args\<lparr>arg_primary := False\<rparr>"
  have a: "?a\<lparr>arg_daemon := True\<rparr> = ?a" by (simp add: primary_args_def)
  have v: "validate demo_net_lib (env_ifaces (sn_env ?V)) (sn_fs ?V) (?a\<lparr>arg_daemon := True\<rparr>) = Inr ()"
    by (simp add: validate_def check_some_def)
  have "\<exists>st'. init_network demo_net_lib demo_store_lib demo_ticket_lib ?V ?a empty_storage = (st', Inl NoNetworkConfig)"
    by (simp add: start_steps disk_steps empty_storage_def plan_any_def demo_net_lib_def)
  then obtain st' where "init_network demo_net_lib demo_store_lib demo_ticket_lib ?V ?a empty_storage = (st', Inl NoNetworkConfig)"
    by blast
  then have run: "run_daemon demo_net_lib demo_store_lib demo_ticket_lib ?V (quiet_step 100) ?a empty_storage = (st', Inl NoNetworkConfig)"
    using v by (simp add: run_daemon_def start_bind_def start_check_def start_return_def Let_def a)
  from checked_arguments_suffice [OF v run] run show ?thesis by blast
qed


end
