(* ===== verification/Output_Props.thy ===== *)
theory Output_Props
  imports Cli_Output
begin

text \<open>
  Properties of what is printed: how exact a duration is, that colours do not change the text, and
  the columns of the status.
\<close>

section \<open>Durations\<close>

text \<open>A duration as two numbers in two units; the second is left out when it is zero.\<close>

definition duration_text :: "nat \<Rightarrow> char \<Rightarrow> nat \<Rightarrow> char \<Rightarrow> string" where
  "duration_text a u b v = show_nat a @ [u] @ (if b = 0 then [] else CHR '' '' # show_nat b @ [v])"

text \<open>The units for a number of seconds: the largest that fits, its length in seconds, and the next smaller
  one with its length.\<close>

definition units_of :: "nat \<Rightarrow> char \<times> nat \<times> char \<times> nat" where
  "units_of n =
     (if n < 60 then (CHR ''s'', 1, CHR ''s'', 1)
      else if n < 3600 then (CHR ''m'', 60, CHR ''s'', 1)
      else if n < 86400 then (CHR ''h'', 3600, CHR ''m'', 60)
      else (CHR ''d'', 86400, CHR ''h'', 3600))"

lemma two_units:
  fixes n U W :: nat
  assumes "0 < W" and "0 < U" and "W dvd U"
  shows "n div U * U + n mod U div W * W + n mod W = n" and "n mod U div W * W < U"
proof -
  have "n mod U mod W = n mod W" using assms(3) by (simp add: mod_mod_cancel)
  then have "n mod U = n mod U div W * W + n mod W" by (metis div_mult_mod_eq)
  moreover have "n = n div U * U + n mod U" by simp
  ultimately show "n div U * U + n mod U div W * W + n mod W = n" by linarith
  have "n mod U div W * W \<le> n mod U" by (rule div_times_less_eq_dividend)
  also have "\<dots> < U" using assms(2) by simp
  finally show "n mod U div W * W < U" .
qed

text \<open>C26. A duration in words. It is written in the largest unit that fits and the next smaller one, which is
  left out when its number is zero, and what the two numbers stand for is the duration less the
  remainder modulo the smaller unit, with less than one larger unit in the second number. So below an
  hour, where the smaller unit is the second, nothing is lost.\<close>

theorem format_duration_exact:
  "case units_of (unat s) of (u, U, v, W) \<Rightarrow>
     \<exists>a b. format_duration s = duration_text a u b v \<and> a * U + b * W + unat s mod W = unat s \<and> b * W < U"
proof -
  define n where "n = unat s"
  have w: "s < 60 \<longleftrightarrow> n < 60" "s < 3600 \<longleftrightarrow> n < 3600" "s < 86400 \<longleftrightarrow> n < 86400"
    by (simp_all add: word_less_nat_alt n_def)
  have d: "show_u64 (s div 60) = show_nat (n div 60)" "show_u64 (s mod 60) = show_nat (n mod 60)"
    "show_u64 (s div 3600) = show_nat (n div 3600)" "show_u64 (s mod 3600 div 60) = show_nat (n mod 3600 div 60)"
    "show_u64 (s div 86400) = show_nat (n div 86400)" "show_u64 (s mod 86400 div 3600) = show_nat (n mod 86400 div 3600)"
    "show_u64 s = show_nat n"
    by (simp_all add: show_u64_def n_def unat_div unat_mod)
  have z: "s mod 60 = 0 \<longleftrightarrow> n mod 60 = 0" "s mod 3600 div 60 = 0 \<longleftrightarrow> n mod 3600 div 60 = 0"
    "s mod 86400 div 3600 = 0 \<longleftrightarrow> n mod 86400 div 3600 = 0"
    by (simp_all add: unat_eq_0 [symmetric] unat_div unat_mod n_def del: unat_eq_0)
  obtain u U v W where units: "units_of n = (u, U, v, W)" by (metis prod_cases4)
  consider "n < 60" | "60 \<le> n" "n < 3600" | "3600 \<le> n" "n < 86400" | "86400 \<le> n" by linarith
  then have "0 < W \<and> 0 < U \<and> W dvd U \<and> format_duration s = duration_text (n div U) u (n mod U div W) v"
    by cases (use units in \<open>auto simp: units_of_def format_duration_def w d z duration_text_def Let_def\<close>)
  with two_units [of W U n] units show ?thesis unfolding n_def by auto
qed

section \<open>Colours\<close>

text \<open>What a terminal shows of a text: the escape sequences are dropped.\<close>

fun visible_from :: "bool \<Rightarrow> string \<Rightarrow> string" where
  "visible_from e [] = []"
| "visible_from True (c # s) = visible_from (c \<noteq> CHR ''m'') s"
| "visible_from False (c # s) = (if c = ESC then visible_from True s else c # visible_from False s)"

definition visible :: "string \<Rightarrow> string" where "visible s = visible_from False s"

definition no_escape :: "string \<Rightarrow> bool" where "no_escape s \<longleftrightarrow> ESC \<notin> set s"

lemma no_escape_simps [simp]:
  "no_escape []" "no_escape (c # s) \<longleftrightarrow> c \<noteq> ESC \<and> no_escape s" "no_escape (s @ r) \<longleftrightarrow> no_escape s \<and> no_escape r"
  "no_escape (replicate n c) \<longleftrightarrow> n = 0 \<or> c \<noteq> ESC"
  by (auto simp: no_escape_def)

lemma visible_append: "no_escape s \<Longrightarrow> visible (s @ r) = s @ visible r"
  by (induction s) (auto simp: visible_def)

lemma visible_plain [simp]: "no_escape s \<Longrightarrow> visible s = s"
  using visible_append [of s "[]"] by (simp add: visible_def)

lemma visible_codes: "CHR ''m'' \<notin> set s \<Longrightarrow> visible_from True (s @ CHR ''m'' # r) = visible_from False r"
  by (induction s) auto

lemma color_code_plain: "CHR ''m'' \<notin> set (color_code c)"
  by (cases c) simp_all

lemma visible_colorize:
  assumes "no_escape v"
  shows "visible (colorize t v c b @ r) = v @ visible r"
proof -
  have "visible ([ESC, CHR ''[''] @ codes @ ''m'' @ v @ [ESC] @ ''[0m'' @ r) = v @ visible r"
    if "CHR ''m'' \<notin> set codes" for codes
    using that visible_codes [of codes] visible_append [OF assms, of "ESC # ''[0m'' @ r"]
    by (simp add: visible_def ESC_def)
  moreover have "CHR ''m'' \<notin> set (join '';'' ((if b then [''1''] else []) @ (case c of Some c \<Rightarrow> [color_code c] | None \<Rightarrow> [])))"
    using color_code_plain by (cases c) auto
  ultimately have "visible ([ESC, CHR ''[''] @ join '';'' ((if b then [''1''] else []) @ (case c of Some c \<Rightarrow> [color_code c] | None \<Rightarrow> []))
      @ ''m'' @ v @ [ESC] @ ''[0m'' @ r) = v @ visible r" by blast
  then show ?thesis
    using visible_append [OF assms, of r] unfolding colorize_def Let_def by (simp only: append_assoc split: if_split) blast
qed

lemma visible_colorize_end [simp]: "no_escape v \<Longrightarrow> visible (colorize t v c b) = v"
  using visible_colorize [of v t c b "[]"] by (simp add: visible_def)

lemma colorize_plain [simp]: "\<not> te_is_terminal t \<Longrightarrow> colorize t v c b = v"
  by (simp add: colorize_def stdout_supports_color_def)

section \<open>The columns of the status\<close>

definition plain_terminal :: terminal where
  "plain_terminal = \<lparr>te_is_terminal = False, te_size = None\<rparr>"

text \<open>A line with colours, and what it shows: its recorded length is that of the text.\<close>

definition appears :: "nat \<times> string \<Rightarrow> nat \<times> string \<Rightarrow> bool" where
  "appears x y \<longleftrightarrow> fst x = length (snd y) \<and> fst y = fst x \<and> (\<forall>r. visible (snd x @ r) = snd y @ visible r)"

lemma appears_line:
  assumes "no_escape label" and "no_escape v"
  shows "appears (case status_line t label v c b of (p, r) \<Rightarrow> (length p, r))
    (case status_line plain_terminal label v c b of (p, r) \<Rightarrow> (length p, r))"
proof -
  have "no_escape (pad_right 18 label)" using assms(1) by (simp add: pad_right_def ESC_def)
  then show ?thesis
    using assms visible_append [of "'' ''"]
    by (simp add: appears_def status_line_def visible_colorize plain_terminal_def ESC_def)
qed

lemma appears_section:
  assumes "no_escape title"
    and "list_all2 (\<lambda>x y. appears (case x of (p, r) \<Rightarrow> (length p, r)) (case y of (p, r) \<Rightarrow> (length p, r))) ls ms"
  shows "list_all2 appears (status_section t title ls) (status_section plain_terminal title ms)"
  using assms by (simp add: status_section_def appears_def list_all2_map1 list_all2_map2 plain_terminal_def visible_colorize)

lemma no_escape_show_nat [simp]: "no_escape (show_nat n)"
  using show_nat_ip [of n] by (auto simp: no_escape_def list_all_iff ip_char_def is_ascii_digit_def code_in_def ESC_def)

lemma no_escape_duration [simp]: "no_escape (format_duration n)"
  by (simp add: format_duration_def show_u64_def Let_def ESC_def)

definition printable :: "daemon_status \<Rightarrow> bool" where
  "printable s \<longleftrightarrow> no_escape (ds_my_domain s) \<and> no_escape (ds_my_addr s)
     \<and> pred_option no_escape (hs_path (ds_hosts_sync s)) \<and> pred_option no_escape (hs_last_error (ds_hosts_sync s))"

lemma appears_status:
  assumes "printable s"
  shows "list_all2 appears (status_left t s) (status_left plain_terminal s)"
    and "list_all2 appears (status_right t (ds_hosts_sync s)) (status_right plain_terminal (ds_hosts_sync s))"
proof -
  show "list_all2 appears (status_left t s) (status_left plain_terminal s)"
    unfolding status_left_def
    by (rule appears_section, simp add: ESC_def)
      (simp only: list_all2_Cons list_all2_Nil, intro conjI TrueI appears_line;
       use assms in \<open>simp add: printable_def ESC_def yes_no_def\<close>)
  show "list_all2 appears (status_right t (ds_hosts_sync s)) (status_right plain_terminal (ds_hosts_sync s))"
    unfolding status_right_def
    by (rule appears_section, simp add: ESC_def)
      (simp only: list_all2_Cons list_all2_Nil, intro conjI TrueI appears_line;
       use assms in \<open>simp add: printable_def ESC_def enabled_text_def or_dash_def show_u64_def option.pred_set split: option.split\<close>)
qed

lemma appears_visible: "appears x y \<Longrightarrow> visible (snd x) = snd y"
  by (metis append_Nil2 appears_def visible_plain no_escape_simps(1))

lemma widest_upper: "x \<in> set ls \<Longrightarrow> fst x \<le> widest ls"
  using fold_max_upper [of "fst x" "map fst ls" 0] by (simp add: widest_def)

lemma appears_lists:
  assumes "list_all2 appears ls ms"
  shows "widest ls = widest ms" and "length ls = length ms"
    and "map (\<lambda>x. visible (snd x)) ls = map snd ms" and "appears (nth_line ls i) (nth_line ms i)"
    and "fst (nth_line ls i) \<le> widest ls"
proof -
  have "map fst ls = map fst ms" "map (\<lambda>x. visible (snd x)) ls = map snd ms"
    using assms by (induction rule: list_all2_induct) (auto simp: appears_visible, auto simp: appears_def)
  then show "widest ls = widest ms" "map (\<lambda>x. visible (snd x)) ls = map snd ms" by (simp_all add: widest_def)
  show len: "length ls = length ms" using assms by (rule list_all2_lengthD)
  show "appears (nth_line ls i) (nth_line ms i)"
    using assms len by (auto simp: nth_line_def appears_def list_all2_conv_all_nth)
  show "fst (nth_line ls i) \<le> widest ls" by (simp add: nth_line_def widest_upper)
qed

definition two_columns :: "terminal \<Rightarrow> (nat \<times> string) list \<Rightarrow> (nat \<times> string) list \<Rightarrow> bool" where
  "two_columns t left right \<longleftrightarrow>
     (case terminal_width t of Some w \<Rightarrow> widest left + length separator + widest right + 4 \<le> w | None \<Rightarrow> False)"

fun seen :: "printed \<Rightarrow> printed" where
  "seen (Out x) = Out (visible x)"
| "seen (Err x) = Err (visible x)"
| "seen (Info x) = Info (visible x)"

lemma separator_plain: "no_escape separator"
  by (simp add: separator_def ESC_def)

text \<open>Two lists of lines side by side: the left one filled up to a common width, a separator, the right one;
  the shorter list is continued with empty lines.\<close>

fun side_by_side :: "nat \<Rightarrow> string list \<Rightarrow> string list \<Rightarrow> string list" where
  "side_by_side w [] [] = []"
| "side_by_side w (x # xs) [] = (x @ replicate (w - length x) CHR '' '' @ separator) # side_by_side w xs []"
| "side_by_side w [] (y # ys) = (replicate w CHR '' '' @ separator @ y) # side_by_side w [] ys"
| "side_by_side w (x # xs) (y # ys) =
     (x @ replicate (w - length x) CHR '' '' @ separator @ y) # side_by_side w xs ys"

lemma side_by_side_nth:
  "side_by_side w (map snd l) (map snd r) =
     map (\<lambda>i. snd (nth_line l i) @ replicate (w - length (snd (nth_line l i))) CHR '' '' @ separator @ snd (nth_line r i))
       [0..<max (length l) (length r)]"
proof -
  have step: "map f [0..<Suc n] = f 0 # map (\<lambda>i. f (Suc i)) [0..<n]" for f :: "nat \<Rightarrow> string" and n
    by (simp only: upt_conv_Cons zero_less_Suc map_Suc_upt [symmetric] list.map map_map comp_def)
  have nth: "nth_line (x # xs) 0 = x" "nth_line (x # xs) (Suc i) = nth_line xs i" "nth_line [] i = (0, [])" for x xs i
    by (simp_all add: nth_line_def)
  show ?thesis
  proof (induction w "map snd l" "map snd r" arbitrary: l r rule: side_by_side.induct)
    case (1 w)
    then show ?case by simp
  next
    case (2 w x xs)
    then obtain z zs where l: "l = z # zs" "snd z = x" "map snd zs = xs" and r: "r = []" by (cases l) auto
    with 2(1) [of zs "[]"] show ?case by (simp add: step nth del: upt_Suc)
  next
    case (3 w y ys)
    then obtain z zs where r: "r = z # zs" "snd z = y" "map snd zs = ys" and l: "l = []" by (cases r) auto
    with 3(1) [of "[]" zs] show ?case by (simp add: step nth del: upt_Suc)
  next
    case (4 w x xs y ys)
    then obtain z zs u us where "l = z # zs" "snd z = x" "map snd zs = xs" "r = u # us" "snd u = y" "map snd us = ys"
      by (cases l; cases r) auto
    with 4(1) [of zs us] show ?case by (simp add: step nth max_def del: upt_Suc)
  qed
qed

lemma columns_visible:
  assumes "list_all2 appears left l'" and "list_all2 appears right r'" and "two_columns t left right"
  shows "map seen (print_status_sections t left right)
    = Out [] # map Out (side_by_side (widest left) (map snd l') (map snd r'))"
proof -
  have row: "visible (snd (nth_line left i) @ replicate (widest left - fst (nth_line left i)) CHR '' ''
      @ colorize t separator (Some DarkGrey) False @ snd (nth_line right i))
    = snd (nth_line l' i) @ replicate (widest left - length (snd (nth_line l' i))) CHR '' '' @ separator @ snd (nth_line r' i)" for i
  proof -
    note l = appears_lists(4) [OF assms(1), of i] and r = appears_lists(4) [OF assms(2), of i]
    show ?thesis
      using l appears_visible [OF r] visible_append [of "replicate k CHR '' ''" for k] visible_colorize [OF separator_plain]
      by (simp add: appears_def ESC_def)
  qed
  show ?thesis
    using assms(3) row appears_lists(2) [OF assms(1)] appears_lists(2) [OF assms(2)]
    by (auto simp: print_status_sections_def two_columns_def Let_def case_prod_beta side_by_side_nth visible_def
        split: option.splits)
qed

lemma side_by_side_width:
  assumes "row \<in> set (side_by_side w xs ys)" and "\<forall>x \<in> set xs. length x \<le> w" and "\<forall>y \<in> set ys. length y \<le> v"
  shows "length row \<le> w + length separator + v" and "take (length separator) (drop w row) = separator"
  using assms by (induction w xs ys rule: side_by_side.induct) auto

lemma stacked_visible:
  assumes "list_all2 appears left l'" and "list_all2 appears right r'" and "\<not> two_columns t left right"
  shows "map seen (print_status_sections t left right) = print_status_sections plain_terminal l' r'"
proof -
  have "map (\<lambda>x. Out (visible (snd x))) left = map (\<lambda>x. Out (snd x)) l'"
    "map (\<lambda>x. Out (visible (snd x))) right = map (\<lambda>x. Out (snd x)) r'"
    using arg_cong [OF appears_lists(3) [OF assms(1)], of "map Out"] arg_cong [OF appears_lists(3) [OF assms(2)], of "map Out"]
    by (simp_all add: comp_def)
  then show ?thesis
    using assms(3) by (simp add: print_status_sections_def two_columns_def terminal_width_def plain_terminal_def Let_def
        case_prod_beta comp_def)
qed

lemma widest_seen:
  assumes "list_all2 appears xs ys" and "ys \<noteq> []"
  shows "widest xs = Max (length ` set (map snd ys))" and "\<forall>y \<in> set (map snd ys). length y \<le> widest xs"
proof -
  have "map fst xs = map (\<lambda>x. length (snd x)) ys"
    using assms(1) by (induction rule: list_all2_induct) (auto simp: appears_def)
  then have "set (map fst xs) = set (map (\<lambda>x. length (snd x)) ys)" by simp
  then have e: "set (map fst xs) = length ` set (map snd ys)" by (simp only: set_map image_image)
  have "widest xs = Max (insert 0 (set (map fst xs)))" by (simp only: widest_def Max.set_eq_fold [symmetric] list.set)
  also have "\<dots> = Max (length ` set (map snd ys))" unfolding e using assms(2) by simp
  finally show "widest xs = Max (length ` set (map snd ys))" .
  then show "\<forall>y \<in> set (map snd ys). length y \<le> widest xs" by simp
qed


definition demo_status :: daemon_status where
  "demo_status =
     \<lparr>ds_running = True, ds_paused = False, ds_node_count = 2, ds_client_count = 0, ds_uptime_seconds = 61,
      ds_my_domain = ''a'', ds_my_addr = ''10.0.0.1'',
      ds_hosts_sync = \<lparr>hs_enabled = False, hs_path = None, hs_cleanup_on_shutdown = False, hs_last_success = None,
        hs_last_cleanup = None, hs_last_error = None\<rparr>\<rparr>"

lemma demo_printable: "printable demo_status"
  by (simp add: printable_def demo_status_def no_escape_def ESC_def)


end
