(* ===== verification/Client_Props.thy ===== *)
theory Client_Props
  imports Client_App Init_Props Output_Props
begin

text \<open>
  Properties of the client and of the paths it shares with the daemon: the socket it finds, the key it
  keeps, and what it prints for scripts.
\<close>

section \<open>Finding the daemon\<close>

lemma try_bind_Inr:
  "try_bind_management_socket W p ex = (ex', Inr u) \<Longrightarrow> ex' = ex(path_of p := True)"
  by (auto simp: try_bind_management_socket_def Let_def split: if_splits option.splits)

lemma try_bind_Inl:
  "try_bind_management_socket W p ex = (ex', Inl e) \<Longrightarrow> sw_remove W (path_of p) \<Longrightarrow> ex' = ex(path_of p := False)"
  by (auto simp: try_bind_management_socket_def Let_def fun_eq_iff split: if_splits option.splits)

lemma try_bind_other:
  "try_bind_management_socket W p ex = (ex', r) \<Longrightarrow> x \<noteq> path_of p \<Longrightarrow> ex' x = ex x"
  by (auto simp: try_bind_management_socket_def Let_def split: if_splits option.splits)

lemma server_other:
  "run_management_server W cs ex = (ex', r) \<Longrightarrow> x \<notin> path_of ` set cs \<Longrightarrow> ex' x = ex x"
proof (induction cs arbitrary: ex)
  case (Cons c cs)
  obtain e1 r1 where t: "try_bind_management_socket W c ex = (e1, r1)" by (metis surj_pair)
  then have "e1 x = ex x" using Cons.prems(2) try_bind_other by simp
  with Cons t show ?case by (cases r1) auto
qed simp

lemma server_bound_in: "run_management_server W cs ex = (ex', Some p) \<Longrightarrow> p \<in> set cs"
  by (induction cs arbitrary: ex) (auto split: prod.splits sum.splits)

text \<open>When every stale file before it could be removed, the socket that was bound is the first candidate
  that exists.\<close>

lemma bound_is_first:
  assumes "run_management_server W cs ex = (ex', Some p)"
    and "\<forall>q \<in> set (takeWhile (\<lambda>q. q \<noteq> p) cs). sw_remove W (path_of q)" and "distinct (map path_of cs)"
  shows "find (\<lambda>q. ex' (path_of q)) cs = Some p"
  using assms
proof (induction cs arbitrary: ex)
  case (Cons c cs)
  obtain e1 r1 where t: "try_bind_management_socket W c ex = (e1, r1)" by (metis surj_pair)
  show ?case
  proof (cases r1)
    case (Inl e)
    have run: "run_management_server W cs e1 = (ex', Some p)" using Cons.prems(1) t Inl by simp
    have "c \<noteq> p" using server_bound_in [OF run] Cons.prems(3) by auto
    then have rm: "sw_remove W (path_of c)" "\<forall>q \<in> set (takeWhile (\<lambda>q. q \<noteq> p) cs). sw_remove W (path_of q)"
      using Cons.prems(2) by simp_all
    have "e1 = ex(path_of c := False)" using t Inl rm(1) try_bind_Inl [of W c ex e1 e] by simp
    moreover have "path_of c \<notin> path_of ` set cs" using Cons.prems(3) by simp
    ultimately have "\<not> ex' (path_of c)" using server_other [OF run] by simp
    with Cons.IH [OF run rm(2)] Cons.prems(3) show ?thesis by simp
  next
    case (Inr u)
    then have "p = c" "ex' = e1" using Cons.prems(1) t by simp_all
    with t Inr show ?thesis using try_bind_Inr [of W c ex e1 u] by simp
  qed
qed simp

lemma push_candidate_distinct:
  "distinct (map path_of cs) \<Longrightarrow> distinct (map path_of (push_candidate cs p))"
  by (auto simp: push_candidate_def list_ex_iff)

lemma candidates_distinct: "distinct (map path_of (socket_path_candidates P))"
proof -
  have "distinct (map path_of (push_some d f cs))" if "distinct (map path_of cs)" for d f cs
    using that by (auto simp: push_some_def push_candidate_distinct split: option.split)
  then show ?thesis
    by (auto simp: socket_path_candidates_def Let_def push_candidate_distinct split: option.split)
qed

lemma push_candidate_append: "\<exists>more. push_candidate cs p = cs @ more"
  by (auto simp: push_candidate_def)

lemma legacy_append: "\<exists>more. fold (\<lambda>p cs. push_candidate cs p) ls cs = cs @ more"
proof (induction ls arbitrary: cs)
  case (Cons l ls)
  obtain m where "push_candidate cs l = cs @ m" using push_candidate_append by blast
  then show ?case using Cons [of "cs @ m"] by auto
qed simp

lemma find_prefix: "find P xs = Some x \<Longrightarrow> find P (xs @ ys) = Some x"
  by (induction xs) (auto split: if_splits)

text \<open>C24. The client finds the daemon. In the same environment, after the daemon has bound its socket at one
  of the candidates, and could remove whatever was in the way at each of those before it, the client
  that is given no path connects to exactly that socket, whatever exists at the later candidates and
  at the older locations. (A file before it that could not be removed is what the client would pick.)\<close>

theorem client_finds_daemon:
  assumes "run_management_server W (socket_path_candidates P) ex = (ex', Some p)"
    and "\<forall>q \<in> set (takeWhile (\<lambda>q. q \<noteq> p) (socket_path_candidates P)). sw_remove W (path_of q)"
  shows "get_socket_path P (\<lambda>q. ex' (path_of q)) None = p"
proof (cases "pe_socket P")
  case (Some s)
  then have "socket_path_candidates P = [s]" by (simp add: socket_path_candidates_def)
  with assms(1) Some show ?thesis by (auto simp: get_socket_path_def split: prod.splits sum.splits)
next
  case None
  let ?cs = "socket_path_candidates P"
  have f: "find (\<lambda>q. ex' (path_of q)) ?cs = Some p"
    by (rule bound_is_first [OF assms candidates_distinct])
  obtain more where m: "fold (\<lambda>p cs. push_candidate cs p) legacy_socket_paths ?cs = ?cs @ more"
    using legacy_append by blast
  have "find (\<lambda>q. ex' (path_of q)) (?cs @ more) = Some p" using f by (rule find_prefix)
  with None m show ?thesis by (simp add: get_socket_path_def)
qed

definition demo_paths :: path_env where
  "demo_paths = \<lparr>pe_socket = None, pe_xdg_runtime = Some ''/x'', pe_runtime_dir = None, pe_dirs_runtime = None,
     pe_cache_dir = None, pe_temp_dir = ''/tmp''\<rparr>"

text \<open>The runtime directory is read only, so the daemon falls back to \<open>/run\<close>.\<close>

theorem client_finds_daemon_witness:
  "\<exists>ex'. run_management_server \<lparr>sw_remove = \<lambda>p. True, sw_create_dirs = \<lambda>p. True, sw_bind = \<lambda>p. p \<noteq> path_of ''/x/p2p-ddns.sock''\<rparr>
      (socket_path_candidates demo_paths) (\<lambda>p. True) = (ex', Some ''/run/p2p-ddns.sock'')
    \<and> get_socket_path demo_paths (\<lambda>q. ex' (path_of q)) None = ''/run/p2p-ddns.sock''"
proof -
  let ?W = "\<lparr>sw_remove = \<lambda>p. True, sw_create_dirs = \<lambda>p. True, sw_bind = \<lambda>p. p \<noteq> path_of ''/x/p2p-ddns.sock''\<rparr>"
  have ne: "path_of ''/run/p2p-ddns.sock'' \<noteq> path_of ''/x/p2p-ddns.sock''"
    by (simp add: path_of_def starts_with_def)
  have "\<exists>rest. socket_path_candidates demo_paths = ''/x/p2p-ddns.sock'' # ''/run/p2p-ddns.sock'' # rest"
    using ne ne [symmetric]
    by (simp add: socket_path_candidates_def demo_paths_def push_some_def push_candidate_def join_path_def ends_with_def
        suffix_def Let_def)
  then obtain rest where cs: "socket_path_candidates demo_paths = ''/x/p2p-ddns.sock'' # ''/run/p2p-ddns.sock'' # rest" by blast
  have "\<exists>ex'. run_management_server ?W (socket_path_candidates demo_paths) (\<lambda>p. True) = (ex', Some ''/run/p2p-ddns.sock'')"
    using ne by (simp add: cs try_bind_management_socket_def Let_def split: option.split)
  then obtain ex' where run: "run_management_server ?W (socket_path_candidates demo_paths) (\<lambda>p. True) = (ex', Some ''/run/p2p-ddns.sock'')"
    by blast
  from client_finds_daemon [OF run] run show ?thesis by auto
qed

section \<open>The key of the client\<close>

definition admin_key_ok :: "admin_lib \<Rightarrow> bool" where
  "admin_key_ok A \<longleftrightarrow>
     (\<forall>pk. key_b64_decode A (key_b64_encode A (key_as_bytes A pk)) = Some (key_as_bytes A pk)
       \<and> length (key_as_bytes A pk) = 32 \<and> key_from_bytes A (key_as_bytes A pk) = Some pk)"

lemma auth_request_key:
  assumes "admin_key_ok A" and "store_lib_ok (al_store A)" and "storage_ok st" and "cw_db W SaveSecretCall = (\<lambda>c. False)"
    and "build_auth_request A W given st = (st', Inr req)"
  obtains pk sk where "client_key A req = Some pk" and "load_secret (al_store A) (\<lambda>c. False) st' = Inr (Some (pk, sk))"
proof -
  from assms(5) obtain found where found: "load_secret (al_store A) (cw_db W LoadSecretCall) st = Inr found"
    by (auto simp: build_auth_request_def split: if_splits sum.splits)
  have key: "client_key A \<lparr>ar_ticket = t, ar_client_public_key = Some (key_b64_encode A (key_as_bytes A pk)), ar_client_name = n\<rparr> = Some pk"
    for t n pk using assms(1) by (simp add: client_key_def admin_key_ok_def)
  show thesis
  proof (cases found)
    case (Some ks)
    obtain pk sk where ks: "ks = (pk, sk)" by (cases ks)
    with Some found assms(5) have "client_key A req = Some pk" "st' = st"
      by (auto simp: build_auth_request_def key split: if_splits)
    with that found Some ks show thesis by (blast dest: load_secret_Some)
  next
    case None
    let ?sk = "cw_random_secret W" and ?s = "save_secret (al_store A) (\<lambda>c. False) st (cw_random_secret W)"
    have "snd ?s = Inr ()" by (simp add: save_secret_def write_txn_def try_call_def)
    then have s: "?s = (fst ?s, Inr ())" by (metis prod.collapse)
    have "client_key A req = Some (sk_public (al_store A) ?sk)" "st' = fst ?s"
      using None found assms(4,5) by (auto simp: build_auth_request_def key split: if_splits)
    with that save_secret_loads [OF assms(2,3) s] show thesis by simp
  qed
qed

text \<open>C25. The command line client is one client. On the local socket it is let in whatever its ticket, under
  the key it keeps; and a later run of it (any ticket, any randomness) that can read its key is
  recognised: its authentication changes neither the daemon's tables nor the registry.\<close>

theorem cli_is_one_client:
  assumes "admin_key_ok A" and "store_lib_ok (al_store A)" and "storage_ok st" and "cw_db W SaveSecretCall = (\<lambda>c. False)"
    and "build_auth_request A W given st = (st1, Inr req)"
    and "authenticate_and_register A E AllowLocalTicketless req c r = (c1, r1, resp, who)"
    and "cw_db W' LoadSecretCall = (\<lambda>c. False)" and "build_auth_request A W' given' st1 = (st2, Inr req')"
  shows "as_success resp \<and> (\<exists>pk. who = Some pk \<and> is_client_node r1 pk)
    \<and> authenticate_and_register A E' AllowLocalTicketless req' c1 r1 = (c1, r1, accepted A c1, who) \<and> st2 = st1"
proof -
  obtain pk sk where pk: "client_key A req = Some pk" "load_secret (al_store A) (\<lambda>c. False) st1 = Inr (Some (pk, sk))"
    by (rule auth_request_key [OF assms(1-5)])
  have first: "as_success resp" "who = Some pk" "is_client_node r1 pk"
    using assms(6) pk(1)
    by (auto simp: authenticate_and_register_def Let_def accepted_def add_client_def is_client_node_def split: if_splits)
  have "client_key A req' = Some pk" "st2 = st1"
    using assms(1,7,8) pk(2) by (auto simp: build_auth_request_def client_key_def admin_key_ok_def split: if_splits)
  with first show ?thesis
    by (auto simp: authenticate_and_register_def Let_def accepted_def)
qed

text \<open>A library whose keys are read back: 32 bytes, in base 64 as one character per byte.\<close>

definition key_admin_lib :: admin_lib where
  "key_admin_lib = demo_admin_lib
     \<lparr>key_b64_decode := \<lambda>s. Some (map of_char s), key_b64_encode := map (\<lambda>b. char_of (unat b)),
      key_from_bytes := \<lambda>b. Some (EndpointId (of_nat (le_value b))), key_as_bytes := \<lambda>i. le_bytes 32 (unat (id_word i))\<rparr>"

lemma key_admin_lib_ok: "admin_key_ok key_admin_lib"
proof -
  have "map of_char (map (\<lambda>w. char_of (unat w)) b) = b" for b :: bytes
    using bytes_of_text_of [of b] unfolding bytes_of_def text_of_def .
  moreover have "of_nat (le_value (le_bytes 32 (unat w))) = w" for w :: "256 word"
    using unsigned_less [of w, where 'a = nat] by simp
  moreover have "EndpointId (id_word pk) = pk" for pk by (cases pk) simp
  ultimately show ?thesis by (simp add: admin_key_ok_def key_admin_lib_def)
qed

definition demo_client :: "secret_key \<Rightarrow> client_world" where
  "demo_client sk =
     \<lparr>cw_cli_args = None, cw_ticket = None, cw_config_dir = None, cw_ticket_file = NoTicketFile, cw_opens = True,
      cw_db = (\<lambda>k c. False), cw_random_secret = sk, cw_writes_ticket = False, cw_stats_ticket = False,
      cw_paths = demo_paths, cw_exists = (\<lambda>p. False), cw_now = 100\<rparr>"

theorem cli_is_one_client_witness:
  "\<exists>st1 req req' c1 r1 resp who. build_auth_request key_admin_lib (demo_client (SecretKey 3)) None empty_storage = (st1, Inr req)
     \<and> authenticate_and_register key_admin_lib (demo_env 200) AllowLocalTicketless req demo_ctx registry_new = (c1, r1, resp, who)
     \<and> build_auth_request key_admin_lib (demo_client (SecretKey 4)) None st1 = (st1, Inr req')
     \<and> authenticate_and_register key_admin_lib (demo_env 300) AllowLocalTicketless req' c1 r1 = (c1, r1, accepted key_admin_lib c1, who)"
proof -
  let ?A = key_admin_lib
  have store: "al_store ?A = demo_store_lib" by (simp add: key_admin_lib_def demo_admin_lib_def)
  have ok: "store_lib_ok (al_store ?A)" "storage_ok empty_storage"
    by (simp_all add: store demo_store_lib_ok storage_ok_def empty_storage_def)
  have no: "cw_db (demo_client sk) k = (\<lambda>c. False)" "cw_opens (demo_client sk)" for sk k by (simp_all add: demo_client_def)
  have "\<exists>st1 req. build_auth_request ?A (demo_client (SecretKey 3)) None empty_storage = (st1, Inr req)"
    using no by (simp add: build_auth_request_def load_secret_def try_call_def empty_storage_def)
  then obtain st1 req where b1: "build_auth_request ?A (demo_client (SecretKey 3)) None empty_storage = (st1, Inr req)" by blast
  obtain pk sk where "load_secret (al_store ?A) (\<lambda>c. False) st1 = Inr (Some (pk, sk))"
    by (rule auth_request_key [OF key_admin_lib_ok ok no(1) b1])
  then obtain req' where b2: "build_auth_request ?A (demo_client (SecretKey 4)) None st1 = (st1, Inr req')"
    using no by (simp add: build_auth_request_def)
  obtain c1 r1 resp who where a: "authenticate_and_register ?A (demo_env 200) AllowLocalTicketless req demo_ctx registry_new
      = (c1, r1, resp, who)" by (metis prod_cases4)
  from cli_is_one_client [OF key_admin_lib_ok ok no(1) b1 a no(1) b2, of "demo_env 300"] b1 b2 a show ?thesis by blast
qed

section \<open>Output for scripts\<close>

text \<open>Output for scripts: with \<open>--json\<close> every response is printed as exactly one JSON document on the
  standard output and nothing else is; with or without it the exit code is 1 exactly for an error, and
  without it an error goes to the standard error output.\<close>

theorem client_output_contract:
  "(\<exists>j. fst (display_response X t W response True) = [Out (ol_json X j)])
   \<and> (snd (snd (display_response X t W response json)) = (case response of ErrorIs e \<Rightarrow> Some 1 | _ \<Rightarrow> None))
   \<and> Out x \<notin> set (fst (display_response X t W (ErrorIs e) False))"
  by (cases response)
    (auto simp: display_response_def display_nodes_json_def display_status_json_def display_ticket_json_def
      display_ack_json_def display_error_json_def display_error_def Let_def)

end
