(* ===== verification/Disk_Props.thy ===== *)
theory Disk_Props
  imports Daemon_Disk Client_Props
begin

text \<open>
  Properties of a daemon over its life: opening a database never damages one, and a daemon that is
  stopped at any moment and started again is still the same daemon of the same network.
\<close>

section \<open>Opening\<close>

definition disk_ok :: "disk \<Rightarrow> bool" where
  "disk_ok d \<longleftrightarrow> (\<forall>p st. d p = Some (Database st) \<longrightarrow> storage_ok st)"

lemma storage_new_Inr:
  "storage_new W p d = (d', Inr st) \<Longrightarrow> d' = d(p \<mapsto> Database st) \<and> (d p \<noteq> Some (Database st) \<longrightarrow> st = empty_storage)"
  by (auto simp: storage_new_def fun_eq_iff split: if_splits option.splits db_file.splits)

lemma open_or_create_Inr:
  "open_or_create W p d = (d', Inr st) \<Longrightarrow> d' = d(p \<mapsto> Database st) \<and> (d p \<noteq> Some (Database st) \<longrightarrow> st = empty_storage)"
  by (auto simp: open_or_create_def dest!: storage_new_Inr split: if_splits)

text \<open>What was stored before is what a later opening finds, and a failed one destroys no database.\<close>

lemma open_or_create_keeps:
  assumes "open_or_create W p d = (d', r)" and "d q = Some (Database st)"
  shows "d' q = Some (Database st)" and "p = q \<Longrightarrow> r = Inr s \<Longrightarrow> s = st"
  using assms by (auto simp: open_or_create_def storage_new_def split: if_splits option.splits db_file.splits)

lemma open_or_create_ok:
  assumes "open_or_create W p d = (d', Inr st)" and "disk_ok d"
  shows "storage_ok st"
proof -
  have "d p = Some (Database st) \<or> st = empty_storage" using open_or_create_Inr [OF assms(1)] by blast
  with assms(2) show ?thesis by (auto simp: disk_ok_def storage_ok_def empty_storage_def)
qed

section \<open>The life of a daemon\<close>

lemma start_daemon_Inr:
  assumes "start_daemon N L T V S P W a d = (d', Inr (s, mode))" and "disk_ok d"
  obtains st st' where "open_or_create W (daemon_db_path P a) d = (d(daemon_db_path P a \<mapsto> Database st), Inr st)"
    and "storage_ok st" and "run_daemon N L T V S a st = (st', Inr (s, mode))"
    and "d' = d(daemon_db_path P a \<mapsto> Database st')"
proof -
  let ?p = "daemon_db_path P a"
  from assms(1) obtain d1 st st' where o: "open_or_create W ?p d = (d1, Inr st)"
    and r: "run_daemon N L T V S a st = (st', Inr (s, mode))" and d': "d' = d1(?p \<mapsto> Database st')"
    by (auto simp: start_daemon_def Let_def map_err_def split: sum.splits prod.splits)
  from open_or_create_Inr [OF o] have "d1 = d(?p \<mapsto> Database st)" by simp
  with that o r d' open_or_create_ok [OF o assms(2)] show thesis by simp
qed

lemma daemon_storage:
  assumes "run_daemon N L T V S a st = (st', Inr (s, mode))"
  shows "cx_storage (pr_ctx (sy_proc s)) = st'"
proof (rule run_daemon_context [OF assms])
  fix c h assume "init_network N L T V (a\<lparr>arg_daemon := True\<rparr>) st = (st', Inr c)"
    and "pr_ctx (sy_proc s) = c\<lparr>cx_hosts_sync := h\<rparr>"
  then show ?thesis using started_context by fastforce
qed

text \<open>C11. A daemon stays the same daemon of the same network. It starts on a disk, with a key that could
  be saved, and runs: any messages, ticks, connections, commands and hosts tasks in any order, up to
  any moment, a crash included. A later start that uses the same database file (whatever else is on
  the disk), reads it without failures, does not reset it and is given no other ticket runs under the
  same endpoint id and hands out a ticket with the same topic and secret.\<close>

theorem daemon_survives_restart:
  assumes "store_lib_ok L" and "net_lib_ok N" and "disk_ok d" and "sn_db V SaveSecretCall = (\<lambda>c. False)"
    and "start_daemon N L T V S P W a d = (d1, Inr (s, mode))" and "sys_run G s es s'"
    and "d2 p = Some (Database (cx_storage (pr_ctx (sy_proc s'))))" and "disk_ok d2" and "p = daemon_db_path P a" and "daemon_db_path P' a' = p"
    and "\<not> arg_reset_storage a'" and "arg_primary a' \<or> arg_ticket a' = None" and "sn_db V' = (\<lambda>k c. False)"
    and "start_daemon N L T V' S' P' W' a' d2 = (d3, Inr (s2, mode'))"
  shows "node_id (cx_me (pr_ctx (sy_proc s2))) = node_id (cx_me (pr_ctx (sy_proc s')))
    \<and> t_topic (cx_ticket (pr_ctx (sy_proc s2))) = t_topic (cx_ticket (pr_ctx (sy_proc s')))
    \<and> t_rnum (cx_ticket (pr_ctx (sy_proc s2))) = t_rnum (cx_ticket (pr_ctx (sy_proc s')))"
proof -
  obtain st st1 where ok: "storage_ok st" and run: "run_daemon N L T V S a st = (st1, Inr (s, mode))"
    by (rule start_daemon_Inr [OF assms(5,3)])
  obtain st2 st3 where o2: "open_or_create W' p d2 = (d2(p \<mapsto> Database st2), Inr st2)"
    and run2: "run_daemon N L T V' S' a' st2 = (st3, Inr (s2, mode'))"
    using start_daemon_Inr [OF assms(14,8)] assms(10) by metis
  have same: "same_identity (pr_ctx (sy_proc s')) (pr_ctx (sy_proc s))"
    using sys_run_keeps [OF assms(6)] by blast
  have "st2 = cx_storage (pr_ctx (sy_proc s'))" using open_or_create_keeps(2) [OF o2 assms(7)] by simp
  then have nodes: "only_nodes st1 st2" using same daemon_storage [OF run] by (simp add: same_identity_def)
  obtain c h where c: "init_network N L T V (a\<lparr>arg_daemon := True\<rparr>) st = (st1, Inr c)" "pr_ctx (sy_proc s) = c\<lparr>cx_hosts_sync := h\<rparr>"
    by (rule run_daemon_context [OF run])
  obtain c' h' where c': "init_network N L T V' (a'\<lparr>arg_daemon := True\<rparr>) st2 = (st3, Inr c')"
    "pr_ctx (sy_proc s2) = c'\<lparr>cx_hosts_sync := h'\<rparr>"
    by (rule run_daemon_context [OF run2])
  from network_survives_restart [OF assms(1,2) ok assms(4) c(1) nodes _ _ assms(13) c'(1)] assms(11,12) same c(2) c'(2)
  show ?thesis by (simp add: same_identity_def)
qed

section \<open>A daemon started twice\<close>

definition demo_dirs :: path_world where
  "demo_dirs = \<lparr>pw_home = Some ''/root'', pw_exists = \<lambda>p. False, pw_remove_dir = \<lambda>p. False, pw_create_dirs = \<lambda>p. True\<rparr>"

definition demo_files :: open_world where
  "demo_files = \<lparr>ow_create_dirs = \<lambda>p. True, ow_create_file = \<lambda>p. True, ow_database = \<lambda>p. True\<rparr>"

lemma demo_files_open:
  "open_or_create demo_files p Map.empty = (Map.empty(p \<mapsto> Database empty_storage), Inr empty_storage)"
  "open_or_create demo_files p (Map.empty(p \<mapsto> Database st)) = (Map.empty(p \<mapsto> Database st), Inr st)"
  by (simp_all add: open_or_create_def storage_new_def demo_files_def split: option.split)

lemma demo_validate: "validate demo_net_lib ifaces fs primary_args = Inr ()"
  by (simp add: validate_def check_some_def)

lemma demo_start_daemon:
  assumes "run_daemon demo_net_lib demo_store_lib demo_ticket_lib V S primary_args st = (st', Inr (s, mode))"
    and "d = Map.empty \<and> st = empty_storage \<or> d = Map.empty(daemon_db_path demo_dirs primary_args \<mapsto> Database st)"
  shows "start_daemon demo_net_lib demo_store_lib demo_ticket_lib V S demo_dirs demo_files primary_args d
    = (Map.empty(daemon_db_path demo_dirs primary_args \<mapsto> Database st'), Inr (s, mode))"
  using assms demo_files_open by (auto simp: start_daemon_def demo_validate Let_def map_err_def)

lemma demo_rerun_daemon:
  "\<exists>s. run_daemon demo_net_lib demo_store_lib demo_ticket_lib (demo_start sk' port' topic' rnum') (quiet_step 100) primary_args
     (demo_disk sk port topic rnum) = (demo_disk sk port topic rnum, Inr (s, None))"
  by (simp add: run_daemon_def start_bind_def start_check_def start_return_def demo_second_start demo_validate Let_def)

text \<open>The daemon hears one message in between; the second start draws another key, port and topic.\<close>

theorem daemon_survives_restart_witness:
  "\<exists>s s' s2 d1. start_daemon demo_net_lib demo_store_lib demo_ticket_lib (demo_start (SecretKey 1) 4242 (TopicId 9) [1, 2, 3])
       (quiet_step 100) demo_dirs demo_files primary_args Map.empty = (d1, Inr (s, None))
     \<and> sys_run demo_world s [(demo_step, LoopInput (DirectMsg (Some [1])))] s'
     \<and> start_daemon demo_net_lib demo_store_lib demo_ticket_lib (demo_start (SecretKey 5) 80 (TopicId 6) [7])
       (quiet_step 100) demo_dirs demo_files primary_args d1 = (d1, Inr (s2, None))
     \<and> t_rnum (cx_ticket (pr_ctx (sy_proc s2))) = t_rnum (cx_ticket (pr_ctx (sy_proc s')))"
proof -
  let ?V = "demo_start (SecretKey 1) 4242 (TopicId 9) [1, 2, 3]" and ?st = "demo_disk (SecretKey 1) 4242 (TopicId 9) [1, 2, 3]"
  let ?p = "daemon_db_path demo_dirs primary_args" and ?d = "Map.empty(daemon_db_path demo_dirs primary_args \<mapsto> Database ?st)"
  obtain s where run: "run_daemon demo_net_lib demo_store_lib demo_ticket_lib ?V (quiet_step 100) primary_args empty_storage
      = (?st, Inr (s, None))" and loop: "sy_phase s \<noteq> Down" "sy_loop s"
    using demo_run_daemon [of "SecretKey 1" 4242 "TopicId 9" "[1, 2, 3]"] by (simp add: launched_def)
  let ?s = "loop_event demo_world demo_step (DirectMsg (Some [1])) s"
  have r: "sys_run demo_world s [(demo_step, LoopInput (DirectMsg (Some [1])))] ?s"
    by (rule sys_run.step [OF sys_step.loop [OF loop] sys_run.refl])
  obtain s2 where run2: "run_daemon demo_net_lib demo_store_lib demo_ticket_lib (demo_start (SecretKey 5) 80 (TopicId 6) [7])
      (quiet_step 100) primary_args ?st = (?st, Inr (s2, None))" using demo_rerun_daemon by blast
  have 1: "start_daemon demo_net_lib demo_store_lib demo_ticket_lib ?V (quiet_step 100) demo_dirs demo_files primary_args Map.empty
      = (?d, Inr (s, None))" by (rule demo_start_daemon [OF run]) simp
  have 2: "start_daemon demo_net_lib demo_store_lib demo_ticket_lib (demo_start (SecretKey 5) 80 (TopicId 6) [7]) (quiet_step 100)
      demo_dirs demo_files primary_args ?d = (?d, Inr (s2, None))" by (rule demo_start_daemon [OF run2]) simp
  have "cx_storage (pr_ctx (sy_proc ?s)) = cx_storage (pr_ctx (sy_proc s))"
    using receive_keeps(1) by (simp add: loop_event_def frame_of_iff Let_def)
  then have d: "?d ?p = Some (Database (cx_storage (pr_ctx (sy_proc ?s))))" using daemon_storage [OF run] by simp
  have ok: "disk_ok Map.empty" "disk_ok ?d" using demo_disk_loads(4) by (simp_all add: disk_ok_def)
  have "t_rnum (cx_ticket (pr_ctx (sy_proc s2))) = t_rnum (cx_ticket (pr_ctx (sy_proc ?s)))"
    using daemon_survives_restart [OF demo_store_lib_ok demo_net_lib_ok ok(1) _ 1 r d ok(2) HOL.refl HOL.refl _ _ _ 2] by simp
  with 1 2 r show ?thesis by blast
qed

end
