(* ===== verification/Spec2Isabelle.thy ===== *)
theory Spec2Isabelle
  imports Disk_Props
begin

text \<open>
  A model of p2p-ddns and the theorems that make it correct. The program is a daemon that keeps a
  table of peers in step over a gossip network and publishes their names in a managed section of the
  hosts file, and a command line client that administers a daemon over a local socket or HTTP.

  \<^bold>\<open>How the parts interact.\<close> \<open>run_daemon\<close> checks the arguments, opens the database and calls
  \<open>init_network\<close>, which loads the identity, binds the sockets, chooses the network ticket, loads the
  known peers and joins the gossip topic. The process then runs the event loop \<open>Context::run\<close>, a
  task that keeps the hosts file in step, and the two admin servers, all on one shared \<open>Context\<close> (the
  active nodes, the trusted nodes, the ticket, the database) and one registry of admin clients.
  Messages are signed envelopes; a sender becomes trusted by an invitation with our ticket or
  because a trusted peer lists it. Shutdown clears the hosts section and saves the trusted nodes.

  \<^bold>\<open>Theories, in the order of the imports.\<close>

  \<^item> \<open>DDNS_Prelude\<close>: machine words and saturating arithmetic, results as sums, hash maps and their
    iteration (\<open>snapshot_of\<close>), first maxima, byte orders, UTF-8 strings with the scanners of the
    standard library; \<open>BTree\<close>: ordered maps as sorted lists, with the locale \<open>ordered_map\<close>.
  \<^item> \<open>Endpoint_Addr\<close>, \<open>Addr_Text\<close>, \<open>Addr_Parse\<close>, \<open>Addr_Select\<close>: the address types of the iroh and
    standard libraries, how addresses are printed and parsed, and \<open>src/util/mod.rs\<close>.
  \<^item> \<open>Domain_Node\<close>, \<open>Signed_Message\<close>, \<open>Net_Ticket\<close>: \<open>src/domain/\<close>, that is nodes and the merging of
    reports about them, the message envelope, and the bootstrap ticket.
  \<^item> \<open>Redb_Storage\<close>: \<open>src/storage/mod.rs\<close> as transactions on three tables.
  \<^item> \<open>Daemon_Args\<close>: \<open>src/cli/args.rs\<close> (the checks of the arguments are in \<open>Daemon_Init\<close>).
  \<^item> \<open>Daemon_Context\<close>: the tables and message handlers of \<open>src/net/mod.rs\<close>. \<open>Context_Invariant\<close> has
    their invariant \<open>ctx_inv\<close> and the locale \<open>table_op\<close> of what every handler keeps, \<open>Context_Props\<close>
    the properties of single handlers.
  \<^item> \<open>Client_Admin\<close> and \<open>Admin_Props\<close>: \<open>src/admin/handler.rs\<close>, \<open>authz.rs\<close> and \<open>protocol.rs\<close>.
  \<^item> \<open>Text_Lines\<close>, \<open>Text_Trim\<close>, \<open>Hosts_File\<close>, \<open>Hosts_Props\<close>: \<open>src/hosts/mod.rs\<close> on a file system
    that is a map from paths to bytes with failing calls.
  \<^item> \<open>Daemon_Loop\<close> and \<open>Loop_Props\<close>: the arms of the event loop, the gossip events, the hosts tasks
    and the shutdown.
  \<^item> \<open>Wire_Frames\<close>, \<open>Admin_Server\<close>, \<open>Http_Text\<close>, \<open>Admin_Http\<close>, \<open>Http_Wire\<close>, \<open>Wire_Props\<close>: the
    length-prefixed frames of the admin socket and of \<open>src/net/p2p_protocol.rs\<close> (locale
    \<open>framed_stream\<close>), a connection of \<open>src/admin/server.rs\<close> and of \<open>src/admin/http.rs\<close>, and the two
    transports of the client in \<open>src/app.rs\<close>, as functions on bytes.
  \<^item> \<open>Daemon_System\<close> and \<open>System_Props\<close>: the process as a step relation over events in any order
    (\<open>sys_step\<close>, \<open>sys_run\<close>), with the locale \<open>proc_op\<close> of what every way of entering it keeps.
  \<^item> \<open>Daemon_Init\<close>, \<open>Daemon_Run\<close>, \<open>Init_Props\<close>: \<open>init_network\<close> and \<open>run_daemon\<close>.
  \<^item> \<open>Cli_Output\<close> and \<open>Output_Props\<close>: \<open>src/cli/output.rs\<close>, every printing function as the texts and the
    table cells it prints.
  \<^item> \<open>Client_App\<close> and \<open>Client_Props\<close>: \<open>src/cli/paths.rs\<close>, the binding of the admin socket in
    \<open>src/admin/server.rs\<close>, and \<open>run_client\<close> of \<open>src/app.rs\<close> from the ticket to what is printed.
  \<^item> \<open>Daemon_Disk\<close> and \<open>Disk_Props\<close>: opening the database file, and a start of the daemon on a disk.

  \<^bold>\<open>State and operations.\<close> The \<open>Context\<close> is the record \<open>ctx\<close>; each method is a function that returns
  it updated, with the calls to the network appended to \<open>cx_effects\<close>. A handler is one atomic step:
  the code holds no lock across its awaits, so interleavings inside a handler are not covered, but
  the order of handlers is arbitrary. Each \<open>?\<close>, panic and early return is a branch of the result.

  \<^bold>\<open>What is a parameter.\<close> Code outside the repository is an argument: codecs, keys and signatures
  (\<open>wire_lib\<close>, \<open>ticket_lib\<close>, \<open>store_lib\<close>, \<open>admin_lib\<close>, \<open>admin_codec\<close>, \<open>net_lib\<close>), and what a step reads
  from the world (\<open>env\<close>, \<open>step_env\<close>, \<open>start_env\<close>: clocks, addresses, the iteration order of hash maps,
  failing database and file calls, random draws). The hypotheses on them are named:
  \<open>wire_lib_ok\<close>, \<open>store_lib_ok\<close>, \<open>ticket_lib_ok\<close>, \<open>admin_codec_ok\<close>, \<open>net_lib_ok\<close> (decoding inverts encoding),
  \<open>signatures_bind\<close> (a signature verifies only its own bytes), \<open>env_ok\<close> (an iteration visits every
  entry once), \<open>builder_ok\<close> (where an endpoint listens that iroh built for a pair of sockets);
  each has a concrete instance that satisfies it, used by the witnesses.

  \<^bold>\<open>What is proved.\<close> Who can become trusted, from the start of a daemon over every run of its process
  (\<open>daemon_circle_of_trust\<close>), the invariant of the process, what each handler does on each branch, that
  lists converge and merging does not depend on the order of reports, what the database keeps, that
  admin dialogues over both transports return the answer of the command however the bytes are cut,
  that the rest of the hosts file survives, what a shutdown and a start do, that the start's waits
  are bounded, that a daemon stopped at any moment and started again is the same daemon of the same
  network (\<open>daemon_survives_restart\<close>), that the client finds the socket the daemon bound and is one
  client over all its runs, and what the output looks like. Several theorems describe defects: they
  state what the code does where that is not what it means to do.

  \<^bold>\<open>Bounds.\<close> No theorem rests on fuel. Loops that read bytes recurse on what is left to read, the
  joining loop counts to five on a \<open>u8\<close>, the wait for an address counts milliseconds, and the event
  loop is a fold over the inputs it gets.

  \<^bold>\<open>Not modelled.\<close> The iroh, gossip, redb, tokio and clap libraries themselves, comfy_table and
  serde_json (a table is its cells, a JSON value a tree); the accept loops, which only spawn the
  connections modelled here, and the tasks that only log; the logger; timeouts of the client, which
  end it with an error; the branches for Windows and macOS (\<open>cfg\<close>) and code under
  \<open>allow(dead_code)\<close> that nothing calls.
\<close>

end
